theory Spec2Isabelle
  imports Main "HOL-Library.AList"
begin

section \<open>Python values\<close>

text \<open>
  The event data handled by \<^verbatim>\<open>parsers/events.py\<close> is what \<^verbatim>\<open>json.loads\<close> returns:
  \<^verbatim>\<open>None\<close>, booleans, integers, strings, lists and dictionaries with string keys.
  Python floats have no counterpart here; every statement below is about values built
  from the six constructors. A dictionary is an association list in insertion order;
  \<^verbatim>\<open>d[k] = v\<close> is \<open>AList.update k v d\<close> (the position of an existing key is kept, a new
  key goes to the end), as in Python. Strings are lists of 8-bit characters.
\<close>

datatype json =
    JNull
  | JBool bool
  | JInt int
  | JStr string
  | JList "json list"
  | JObj "(string \<times> json) list"

type_synonym dict = "(string \<times> json) list"

text \<open>The exceptions the modelled code can raise, with the payload Python gives them.\<close>

datatype py_error =
    KeyError json
  | TypeError
  | AttributeError
  | IndexError
  | ValueError string
  | NotImplementedError string
  | StopIteration
  | JavascriptException
  | OtherException string

text \<open>Truth value testing (\<^verbatim>\<open>if x:\<close>, \<^verbatim>\<open>not x\<close>, \<^verbatim>\<open>bool(x)\<close>).\<close>

fun truthy :: "json \<Rightarrow> bool" where
  "truthy JNull = False"
| "truthy (JBool b) = b"
| "truthy (JInt n) = (n \<noteq> 0)"
| "truthy (JStr s) = (s \<noteq> [])"
| "truthy (JList xs) = (xs \<noteq> [])"
| "truthy (JObj d) = (d \<noteq> [])"

text \<open>Truth value of an optional string argument (\<^verbatim>\<open>None\<close> or a \<^verbatim>\<open>str\<close>).\<close>

definition str_truthy :: "string option \<Rightarrow> bool" where
  "str_truthy v = (case v of None \<Rightarrow> False | Some s \<Rightarrow> s \<noteq> [])"

text \<open>
  \<^verbatim>\<open>d.get(key)\<close> on a dictionary with string keys. The key is \<^verbatim>\<open>None\<close> when the code
  passes a schema slot that is not configured; such a key is never found.
\<close>

definition dict_get :: "dict \<Rightarrow> string option \<Rightarrow> json" where
  "dict_get d key =
     (case key of
        None \<Rightarrow> JNull
      | Some k \<Rightarrow> (case map_of d k of None \<Rightarrow> JNull | Some v \<Rightarrow> v))"

text \<open>\<^verbatim>\<open>d[key]\<close>: a missing key raises \<^verbatim>\<open>KeyError\<close>.\<close>

definition dict_item :: "dict \<Rightarrow> string \<Rightarrow> py_error + json" where
  "dict_item d k = (case map_of d k of None \<Rightarrow> Inl (KeyError (JStr k)) | Some v \<Rightarrow> Inr v)"

text \<open>\<^verbatim>\<open>d.pop(key)\<close> with no default: a missing key raises \<^verbatim>\<open>KeyError\<close>.\<close>

definition dict_pop :: "string \<Rightarrow> (string \<times> 'v) list \<Rightarrow> py_error + (string \<times> 'v) list" where
  "dict_pop k d =
     (case map_of d k of
        None \<Rightarrow> Inl (KeyError (JStr k))
      | Some v \<Rightarrow> Inr (AList.delete k d))"

text \<open>
  \<^verbatim>\<open>x.get(key)\<close> on an arbitrary value: only a dictionary has the method, every other
  value raises \<^verbatim>\<open>AttributeError\<close>.
\<close>

definition json_get :: "json \<Rightarrow> string option \<Rightarrow> py_error + json" where
  "json_get x key = (case x of JObj d \<Rightarrow> Inr (dict_get d key) | _ \<Rightarrow> Inl AttributeError)"

text \<open>Booleans are integers in Python: \<^verbatim>\<open>True == 1\<close>, \<^verbatim>\<open>True + True == 2\<close>.\<close>

fun num_of :: "json \<Rightarrow> int option" where
  "num_of (JBool b) = Some (if b then 1 else 0)"
| "num_of (JInt n) = Some n"
| "num_of _ = None"

text \<open>\<^verbatim>\<open>a + b\<close>: numbers add, strings and lists concatenate, anything else is a \<^verbatim>\<open>TypeError\<close>.\<close>

fun py_add :: "json \<Rightarrow> json \<Rightarrow> py_error + json" where
  "py_add (JStr a) (JStr b) = Inr (JStr (a @ b))"
| "py_add (JList a) (JList b) = Inr (JList (a @ b))"
| "py_add a b =
     (case (num_of a, num_of b) of
        (Some x, Some y) \<Rightarrow> Inr (JInt (x + y))
      | _ \<Rightarrow> Inl TypeError)"

text \<open>\<^verbatim>\<open>a - b\<close> on these values is defined for numbers only.\<close>

definition py_sub :: "json \<Rightarrow> json \<Rightarrow> py_error + int" where
  "py_sub a b =
     (case (num_of a, num_of b) of
        (Some x, Some y) \<Rightarrow> Inr (x - y)
      | _ \<Rightarrow> Inl TypeError)"

text \<open>
  \<^verbatim>\<open>a == b\<close>: numbers compare by value, lists elementwise, dictionaries by their keys
  and the values under them (whatever the insertion order); values of different kinds
  are unequal.
\<close>

fun py_eq :: "json \<Rightarrow> json \<Rightarrow> bool" where
  "py_eq JNull JNull = True"
| "py_eq (JBool a) (JBool b) = (a = b)"
| "py_eq (JBool a) (JInt n) = ((if a then 1 else 0) = n)"
| "py_eq (JInt n) (JBool a) = (n = (if a then 1 else 0))"
| "py_eq (JInt n) (JInt m) = (n = m)"
| "py_eq (JStr s) (JStr t) = (s = t)"
| "py_eq (JList xs) (JList ys) = list_all2 py_eq xs ys"
| "py_eq (JObj xs) (JObj ys) =
     (set (map fst xs) = set (map fst ys) \<and>
      list_all (\<lambda>(k, v). list_all (\<lambda>(k', w). k \<noteq> k' \<or> py_eq v w) ys) xs)"
| "py_eq _ _ = False"

definition py_ne :: "json \<Rightarrow> json \<Rightarrow> bool" where
  "py_ne a b = (\<not> py_eq a b)"

text \<open>
  \<^verbatim>\<open>x[i]\<close> with an integer literal \<open>i \<ge> 0\<close>: lists and strings are indexed, a dictionary
  with string keys has no such key, the other values are not subscriptable.
\<close>

definition py_index :: "json \<Rightarrow> nat \<Rightarrow> py_error + json" where
  "py_index x i =
     (case x of
        JList xs \<Rightarrow> (if i < length xs then Inr (xs ! i) else Inl IndexError)
      | JStr s \<Rightarrow> (if i < length s then Inr (JStr [s ! i]) else Inl IndexError)
      | JObj d \<Rightarrow> Inl (KeyError (JInt (int i)))
      | _ \<Rightarrow> Inl TypeError)"

text \<open>
  \<^verbatim>\<open>s.replace(old, new)\<close>: every non-overlapping occurrence of \<open>old\<close>, left to right.
  The first argument of \<open>replace_from\<close> counts the characters of a match still to skip.
\<close>

fun replace_from :: "nat \<Rightarrow> string \<Rightarrow> string \<Rightarrow> string \<Rightarrow> string" where
  "replace_from n old new [] = []"
| "replace_from (Suc n) old new (c # cs) = replace_from n old new cs"
| "replace_from 0 old new (c # cs) =
     (if take (length old) (c # cs) = old
      then new @ replace_from (length old - 1) old new cs
      else c # replace_from 0 old new cs)"

definition py_replace :: "string \<Rightarrow> string \<Rightarrow> string \<Rightarrow> string" where
  "py_replace s old new =
     (if old = [] then new @ concat (map (\<lambda>c. c # new) s) else replace_from 0 old new s)"

section \<open>Schema\<close>

text \<open>
  \<^verbatim>\<open>class Schema\<close> of \<^verbatim>\<open>parsers/events.py\<close>: seven optional provider keys. The instance
  dictionary \<^verbatim>\<open>self.__dict__\<close> lists them in the order \<^verbatim>\<open>__init__\<close> assigns them.
\<close>

record Schema =
  reproductive_data_key :: "string option"
  dimension_key :: "string option"
  scroll_top_key :: "string option"
  mouse_position_key :: "string option"
  time_key :: "string option"
  page_key :: "string option"
  query_key :: "string option"

definition dict_items :: "Schema \<Rightarrow> (string \<times> string option) list" where
  "dict_items self =
     [(''reproductive_data_key'', reproductive_data_key self),
      (''dimension_key'', dimension_key self),
      (''scroll_top_key'', scroll_top_key self),
      (''mouse_position_key'', mouse_position_key self),
      (''time_key'', time_key self),
      (''page_key'', page_key self),
      (''query_key'', query_key self)]"

text \<open>
  \<^verbatim>\<open>Schema.__init__\<close>: the test is \<^verbatim>\<open>all(not value ...)\<close>, so an empty string counts as
  missing just as \<^verbatim>\<open>None\<close> does.
\<close>

definition Schema_init ::
  "string option \<Rightarrow> string option \<Rightarrow> string option \<Rightarrow> string option \<Rightarrow>
   string option \<Rightarrow> string option \<Rightarrow> string option \<Rightarrow> py_error + Schema" where
  "Schema_init reproductive dimension scroll_top mouse_position time page query =
     (let self = \<lparr>reproductive_data_key = reproductive, dimension_key = dimension,
                  scroll_top_key = scroll_top, mouse_position_key = mouse_position,
                  time_key = time, page_key = page, query_key = query\<rparr>
      in if list_all (\<lambda>value. \<not> str_truthy value) (map snd (dict_items self))
         then Inl (ValueError ''All arguments cannot be None'')
         else Inr self)"

text \<open>
  \<^verbatim>\<open>Schema.return_schema\<close>: the comprehension keeps the attributes that are not
  \<^verbatim>\<open>None\<close>, then \<^verbatim>\<open>schema.pop('reproductive_data_key')\<close> is called with no default.
\<close>

fun non_none_items :: "(string \<times> string option) list \<Rightarrow> (string \<times> string) list" where
  "non_none_items [] = []"
| "non_none_items ((key, None) # rest) = non_none_items rest"
| "non_none_items ((key, Some value) # rest) = (key, value) # non_none_items rest"

definition return_schema :: "Schema \<Rightarrow> py_error + (string \<times> string) list" where
  "return_schema self = dict_pop ''reproductive_data_key'' (non_none_items (dict_items self))"

section \<open>Events\<close>

text \<open>
  A raw record of the provider: \<^verbatim>\<open>event['event']\<close> and \<^verbatim>\<open>event['properties']\<close>, the
  latter a dictionary of arbitrary values. The parsed events are a dictionary from
  the running number \<^verbatim>\<open>valid_event\<close> to the parsed event.
\<close>

record raw_event =
  event :: json
  properties :: dict

type_synonym parsed = "(int \<times> dict) list"

definition ALLOWED_PARSERS :: "string list" where
  "ALLOWED_PARSERS = [''mixpanel'']"

record Events =
  events :: "raw_event list"
  inital_parser :: string
  schema :: "Schema option"
  parsed_events :: parsed

definition Events_init :: "raw_event list \<Rightarrow> Schema option \<Rightarrow> string \<Rightarrow> py_error + Events" where
  "Events_init evs sch parser =
     (if parser \<notin> set ALLOWED_PARSERS
      then Inl (NotImplementedError
                 (''Inital parser '' @ [CHR 0x22] @ parser @ [CHR 0x22] @
                  '' is not supported. Inital parser that are supported: ('' @
                  [CHR 0x27] @ ''mixpanel'' @ [CHR 0x27] @ '',)''))
      else Inr \<lparr>events = evs, inital_parser = parser, schema = sch, parsed_events = []\<rparr>)"

text \<open>
  The two \<^verbatim>\<open>for key, value in schema.items()\<close> loops of
  \<^verbatim>\<open>__mixpanel_inital_parser\<close>: each writes \<^verbatim>\<open>parsed_event[key.replace('_key', '')]\<close>;
  the first reads the nested value \<^verbatim>\<open>reproductive\<close> with \<^verbatim>\<open>.get\<close>, the second reads
  \<^verbatim>\<open>properties\<close>.
\<close>

definition field_name :: "string \<Rightarrow> string" where
  "field_name key = py_replace key ''_key'' []"

fun fill_from_reproductive ::
  "json \<Rightarrow> (string \<times> string) list \<Rightarrow> dict \<Rightarrow> py_error + dict" where
  "fill_from_reproductive reproductive [] parsed_event = Inr parsed_event"
| "fill_from_reproductive reproductive ((key, value) # rest) parsed_event =
     (case json_get reproductive (Some value) of
        Inl e \<Rightarrow> Inl e
      | Inr v \<Rightarrow>
          fill_from_reproductive reproductive rest
            (AList.update (field_name key) v parsed_event))"

fun fill_from_properties :: "dict \<Rightarrow> (string \<times> string) list \<Rightarrow> dict \<Rightarrow> dict" where
  "fill_from_properties props [] parsed_event = parsed_event"
| "fill_from_properties props ((key, value) # rest) parsed_event =
     fill_from_properties props rest
       (AList.update (field_name key) (dict_get props (Some value)) parsed_event)"

text \<open>
  One iteration of the loop over \<^verbatim>\<open>self.events\<close>, the two branches of the \<^verbatim>\<open>if\<close> first.
  The result holds the exception raised in this iteration, if any, and the updated
  \<^verbatim>\<open>valid_event\<close> and \<^verbatim>\<open>self.parsed_events\<close>. In the first branch the event is stored
  before \<^verbatim>\<open>parsed_event.pop('query')\<close> and the stored dictionary is the one popped from;
  in the second branch the pop comes first.
\<close>

definition reproductive_branch ::
  "json \<Rightarrow> dict \<Rightarrow> (string \<times> string) list \<Rightarrow> dict \<Rightarrow> int \<Rightarrow> parsed \<Rightarrow>
   py_error option \<times> int \<times> parsed" where
  "reproductive_branch reproductive props sch parsed_event valid_event parsed =
     (case fill_from_reproductive reproductive sch parsed_event of
        Inl e \<Rightarrow> (Some e, valid_event, parsed)
      | Inr pe1 \<Rightarrow>
          (let pe2 = AList.update ''time'' (dict_get props (map_of sch ''time_key'')) pe1;
               page = dict_get props (map_of sch ''page_key'');
               pe3 = AList.update ''page'' page pe2;
               query = dict_get props (map_of sch ''query_key'')
           in case (if str_truthy (map_of sch ''query_key'') \<and> truthy query
                    then map_sum id (\<lambda>p. AList.update ''page'' p pe3) (py_add page query)
                    else Inr pe3) of
                Inl e \<Rightarrow> (Some e, valid_event, parsed)
              | Inr pe4 \<Rightarrow>
                  (let valid_event' = valid_event + 1;
                       stored = AList.update valid_event' pe4 parsed
                   in case dict_pop ''query'' pe4 of
                        Inl e \<Rightarrow> (Some e, valid_event', stored)
                      | Inr pe5 \<Rightarrow> (None, valid_event', AList.update valid_event' pe5 stored))))"

definition properties_branch ::
  "dict \<Rightarrow> (string \<times> string) list \<Rightarrow> dict \<Rightarrow> int \<Rightarrow> parsed \<Rightarrow>
   py_error option \<times> int \<times> parsed" where
  "properties_branch props sch parsed_event valid_event parsed =
     (let pe1 = fill_from_properties props sch parsed_event;
          pe2 = AList.update ''time'' (dict_get props (map_of sch ''time_key'')) pe1;
          page = dict_get props (map_of sch ''page_key'');
          pe3 = AList.update ''page'' page pe2;
          query = dict_get props (map_of sch ''query_key'')
      in case (if str_truthy (map_of sch ''query_key'')
               then map_sum id (\<lambda>p. AList.update ''page'' p pe3) (py_add page query)
               else Inr pe3) of
           Inl e \<Rightarrow> (Some e, valid_event, parsed)
         | Inr pe4 \<Rightarrow>
             (let valid_event' = valid_event + 1
              in case dict_pop ''query'' pe4 of
                   Inl e \<Rightarrow> (Some e, valid_event', parsed)
                 | Inr pe5 \<Rightarrow> (None, valid_event', AList.update valid_event' pe5 parsed)))"

definition parse_event ::
  "Schema \<Rightarrow> raw_event \<Rightarrow> int \<Rightarrow> parsed \<Rightarrow> py_error option \<times> int \<times> parsed" where
  "parse_event self_schema ev valid_event parsed =
     (let props = properties ev;
          parsed_event = [(''name'', event ev)]
      in case return_schema self_schema of
           Inl e \<Rightarrow> (Some e, valid_event, parsed)
         | Inr sch \<Rightarrow>
             (let reproductive = dict_get props (reproductive_data_key self_schema)
              in if truthy reproductive
                 then reproductive_branch reproductive props sch parsed_event valid_event parsed
                 else properties_branch props sch parsed_event valid_event parsed))"

text \<open>The loop: an exception ends it, and \<^verbatim>\<open>self.parsed_events\<close> keeps what was stored.\<close>

fun mixpanel_loop ::
  "Schema \<Rightarrow> raw_event list \<Rightarrow> int \<Rightarrow> parsed \<Rightarrow> py_error option \<times> parsed" where
  "mixpanel_loop self_schema [] valid_event parsed = (None, parsed)"
| "mixpanel_loop self_schema (ev # rest) valid_event parsed =
     (case parse_event self_schema ev valid_event parsed of
        (Some e, valid_event', parsed') \<Rightarrow> (Some e, parsed')
      | (None, valid_event', parsed') \<Rightarrow> mixpanel_loop self_schema rest valid_event' parsed')"

text \<open>
  \<^verbatim>\<open>__mixpanel_inital_parser\<close> starts with \<^verbatim>\<open>valid_event = 0\<close> and works on the instance's
  \<^verbatim>\<open>parsed_events\<close>. With no schema set, \<^verbatim>\<open>self.schema.return_schema()\<close> is an attribute
  access on \<^verbatim>\<open>None\<close>. The result is the returned dictionary or the exception, with the
  instance as the call leaves it.
\<close>

definition mixpanel_inital_parser :: "Events \<Rightarrow> (py_error + parsed) \<times> Events" where
  "mixpanel_inital_parser self =
     (case events self of
        [] \<Rightarrow> (Inr (parsed_events self), self)
      | ev # rest \<Rightarrow>
          (case schema self of
             None \<Rightarrow> (Inl AttributeError, self)
           | Some sch \<Rightarrow>
               (case mixpanel_loop sch (ev # rest) 0 (parsed_events self) of
                  (Some e, ps) \<Rightarrow> (Inl e, self\<lparr>parsed_events := ps\<rparr>)
                | (None, ps) \<Rightarrow> (Inr ps, self\<lparr>parsed_events := ps\<rparr>))))"

text \<open>
  \<^verbatim>\<open>__perfom_parsing\<close> looks the parser up in \<^verbatim>\<open>PARSERS_AND_THEIR_FUNCTIONS\<close>, whose only
  key is \<^verbatim>\<open>'mixpanel'\<close>; \<^verbatim>\<open>parse\<close> sets the schema first.
\<close>

definition perfom_parsing :: "Events \<Rightarrow> (py_error + parsed) \<times> Events" where
  "perfom_parsing self =
     (if inital_parser self = ''mixpanel'' then mixpanel_inital_parser self
      else (Inl (KeyError (JStr (inital_parser self))), self))"

definition parse :: "Events \<Rightarrow> Schema \<Rightarrow> (py_error + parsed) \<times> Events" where
  "parse self sch = perfom_parsing (self\<lparr>schema := Some sch\<rparr>)"

text \<open>
  The container the specification calls the source container of a record: the nested
  dictionary under \<^verbatim>\<open>reproductive_data_key\<close> when there is a non-empty one, the
  properties themselves otherwise.
\<close>

definition is_dict :: "json \<Rightarrow> bool" where
  "is_dict x = (case x of JObj d \<Rightarrow> True | _ \<Rightarrow> False)"

definition source_container :: "Schema \<Rightarrow> raw_event \<Rightarrow> dict" where
  "source_container self_schema ev =
     (case dict_get (properties ev) (reproductive_data_key self_schema) of
        JObj d \<Rightarrow> (if d = [] then properties ev else d)
      | _ \<Rightarrow> properties ev)"

section \<open>Replay\<close>

text \<open>
  \<^verbatim>\<open>navigators/selenium_navigator.py\<close>. The calls that leave the program are recorded
  as actions: \<^verbatim>\<open>sleep\<close>, \<^verbatim>\<open>driver.get\<close>, \<^verbatim>\<open>driver.execute_script\<close> with the scroll
  script (the action keeps the value formatted into the script), the click performed
  through \<^verbatim>\<open>ActionBuilder\<close>, \<^verbatim>\<open>print\<close>, and the call of a custom \<^verbatim>\<open>execute_function\<close>
  (with \<^verbatim>\<open>n\<close>, \<^verbatim>\<open>event\<close>, \<^verbatim>\<open>last_location\<close> and \<^verbatim>\<open>last_timestamp\<close>; \<^verbatim>\<open>events\<close> and
  \<^verbatim>\<open>driver\<close> are the same in every call). What such a call does is outside the
  program: the environment \<open>env\<close> tells, from the calls made so far and the call made
  now, whether it raises. \<^verbatim>\<open>print\<close> never raises.
\<close>

datatype action =
    Sleep int
  | Get json
  | ExecuteScript json
  | Click json json
  | Print string
  | ExecuteFunction int dict json json

type_synonym env = "action list \<Rightarrow> action \<Rightarrow> py_error option"

text \<open>The calls made by a piece of code, and the exception it ends with, if any.\<close>

type_synonym outcome = "action list \<times> py_error option"

definition call :: "env \<Rightarrow> action list \<Rightarrow> action \<Rightarrow> outcome" where
  "call env hist a = ([a], env hist a)"

text \<open>Sequencing: the second piece runs only when the first raised nothing.\<close>

definition and_then :: "action list \<Rightarrow> outcome \<Rightarrow> (action list \<Rightarrow> outcome) \<Rightarrow> outcome" where
  "and_then hist first second =
     (case first of
        (made, Some e) \<Rightarrow> (made, Some e)
      | (made, None) \<Rightarrow> (case second (hist @ made) of (later, r) \<Rightarrow> (made @ later, r)))"

text \<open>\<^verbatim>\<open>Controls.simulate_click\<close> and \<^verbatim>\<open>Controls.simulate_scroll\<close>.\<close>

definition simulate_click :: "env \<Rightarrow> action list \<Rightarrow> json \<Rightarrow> json \<Rightarrow> outcome" where
  "simulate_click env hist x y = call env hist (Click x y)"

definition simulate_scroll :: "env \<Rightarrow> action list \<Rightarrow> json \<Rightarrow> outcome" where
  "simulate_scroll env hist pixels =
     (case call env hist (ExecuteScript pixels) of
        (made, r) \<Rightarrow>
          if r = Some JavascriptException
          then (made @ [Print ''Simulating scroll failed''], None)
          else (made, r))"

text \<open>
  \<^verbatim>\<open>UserSimulation.__init__\<close>: the first event is taken from the parsed events, and its
  \<^verbatim>\<open>dimension\<close> is indexed twice for the device metrics. Starting the browser is left
  out.
\<close>

record UserSimulation =
  sim_events :: parsed
  first_event :: dict

definition UserSimulation_init :: "parsed \<Rightarrow> py_error + UserSimulation" where
  "UserSimulation_init evs =
     (case evs of
        [] \<Rightarrow> Inl StopIteration
      | (n, first) # rest \<Rightarrow>
          (case dict_item first ''dimension'' of
             Inl e \<Rightarrow> Inl e
           | Inr dimension \<Rightarrow>
               (case py_index dimension 0 of
                  Inl e \<Rightarrow> Inl e
                | Inr width \<Rightarrow>
                    (case py_index dimension 1 of
                       Inl e \<Rightarrow> Inl e
                     | Inr height \<Rightarrow> Inr \<lparr>sim_events = evs, first_event = first\<rparr>))))"

text \<open>
  The body of the loop of \<^verbatim>\<open>perform_simulation\<close>, in its four steps: the sleep, the
  handler (the custom function or the default navigation), the scroll and the click.
  \<open>execute_function\<close> tells whether a callable was passed.
\<close>

definition sleep_step :: "env \<Rightarrow> int option \<Rightarrow> dict \<Rightarrow> json \<Rightarrow> action list \<Rightarrow> outcome" where
  "sleep_step env static_sleep_time ev last_timestamp hist =
     (case static_sleep_time of
        None \<Rightarrow>
          (case dict_item ev ''time'' of
             Inl e \<Rightarrow> ([], Some e)
           | Inr t \<Rightarrow>
               (case py_sub t last_timestamp of
                  Inl e \<Rightarrow> ([], Some e)
                | Inr next_event_in \<Rightarrow>
                    call env hist (Sleep (if next_event_in < 0 then 3 else next_event_in))))
      | Some s \<Rightarrow> call env hist (Sleep s))"

definition handler_step ::
  "env \<Rightarrow> bool \<Rightarrow> int \<Rightarrow> dict \<Rightarrow> json \<Rightarrow> json \<Rightarrow> action list \<Rightarrow> outcome" where
  "handler_step env execute_function n ev last_location last_timestamp hist =
     (if execute_function
      then call env hist (ExecuteFunction n ev last_location last_timestamp)
      else (case dict_item ev ''page'' of
              Inl e \<Rightarrow> ([], Some e)
            | Inr page \<Rightarrow>
                if py_ne last_location page then call env hist (Get page) else ([], None)))"

definition scroll_step :: "env \<Rightarrow> dict \<Rightarrow> action list \<Rightarrow> outcome" where
  "scroll_step env ev hist =
     (let scroll_top = dict_get ev (Some ''scroll_top'')
      in if truthy scroll_top then simulate_scroll env hist scroll_top else ([], None))"

definition click_step :: "env \<Rightarrow> dict \<Rightarrow> action list \<Rightarrow> outcome" where
  "click_step env ev hist =
     (let mouse_position = dict_get ev (Some ''mouse_position'')
      in if truthy mouse_position
         then (case py_index mouse_position 0 of
                 Inl e \<Rightarrow> ([], Some e)
               | Inr x \<Rightarrow>
                   (case py_index mouse_position 1 of
                      Inl e \<Rightarrow> ([], Some e)
                    | Inr y \<Rightarrow> simulate_click env hist x y))
         else ([], None))"

definition simulate_event ::
  "env \<Rightarrow> int option \<Rightarrow> bool \<Rightarrow> int \<Rightarrow> dict \<Rightarrow> json \<Rightarrow> json \<Rightarrow> action list \<Rightarrow> outcome" where
  "simulate_event env static_sleep_time execute_function n ev last_timestamp last_location hist =
     and_then hist
       (and_then hist
          (and_then hist
             (sleep_step env static_sleep_time ev last_timestamp hist)
             (handler_step env execute_function n ev last_location last_timestamp))
          (scroll_step env ev))
       (click_step env ev)"

text \<open>
  The loop. The result lists the calls of each iteration that was started, and the
  exception that ended the run, if any. After the four steps the body reads
  \<^verbatim>\<open>event['time']\<close> and \<^verbatim>\<open>event['page']\<close> for the next iteration.
\<close>

fun simulation_loop ::
  "env \<Rightarrow> int option \<Rightarrow> bool \<Rightarrow> parsed \<Rightarrow> json \<Rightarrow> json \<Rightarrow> action list \<Rightarrow>
   action list list \<times> py_error option" where
  "simulation_loop env static_sleep_time execute_function [] last_timestamp last_location hist =
     ([], None)"
| "simulation_loop env static_sleep_time execute_function ((n, ev) # rest)
     last_timestamp last_location hist =
     (case simulate_event env static_sleep_time execute_function n ev
             last_timestamp last_location hist of
        (made, Some e) \<Rightarrow> ([made], Some e)
      | (made, None) \<Rightarrow>
          (case dict_item ev ''time'' of
             Inl e \<Rightarrow> ([made], Some e)
           | Inr t \<Rightarrow>
               (case dict_item ev ''page'' of
                  Inl e \<Rightarrow> ([made], Some e)
                | Inr page \<Rightarrow>
                    (case simulation_loop env static_sleep_time execute_function rest
                            t page (hist @ made) of
                       (groups, r) \<Rightarrow> (made # groups, r)))))"

text \<open>
  \<^verbatim>\<open>perform_simulation\<close>: \<^verbatim>\<open>last_timestamp\<close> starts as the time of the first event,
  \<^verbatim>\<open>last_location\<close> as \<^verbatim>\<open>None\<close>.
\<close>

definition perform_simulation ::
  "env \<Rightarrow> UserSimulation \<Rightarrow> int option \<Rightarrow> bool \<Rightarrow> action list list \<times> py_error option" where
  "perform_simulation env self static_sleep_time execute_function =
     (case dict_item (first_event self) ''time'' of
        Inl e \<Rightarrow> ([], Some e)
      | Inr last_timestamp \<Rightarrow>
          simulation_loop env static_sleep_time execute_function (sim_events self)
            last_timestamp JNull [])"

text \<open>The durations slept and the pages navigated to in a list of calls.\<close>

fun sleeps :: "action list \<Rightarrow> int list" where
  "sleeps [] = []"
| "sleeps (Sleep d # rest) = d # sleeps rest"
| "sleeps (a # rest) = sleeps rest"

fun navigations :: "action list \<Rightarrow> json list" where
  "navigations [] = []"
| "navigations (Get page # rest) = page # navigations rest"
| "navigations (a # rest) = navigations rest"

text \<open>
  An event on which the loop body raises nothing of its own: \<^verbatim>\<open>event['time']\<close> and
  \<^verbatim>\<open>event['page']\<close> exist, the time is a number when the recorded timing subtracts it,
  and a mouse position that is true can be indexed at 0 and 1.
\<close>

definition subscriptable :: "json \<Rightarrow> nat \<Rightarrow> bool" where
  "subscriptable x i = (case py_index x i of Inl e \<Rightarrow> False | Inr v \<Rightarrow> True)"

definition replayable :: "int option \<Rightarrow> dict \<Rightarrow> bool" where
  "replayable static_sleep_time ev =
     (map_of ev ''time'' \<noteq> None \<and> map_of ev ''page'' \<noteq> None \<and>
      (static_sleep_time \<noteq> None \<or> num_of (dict_get ev (Some ''time'')) \<noteq> None) \<and>
      (\<not> truthy (dict_get ev (Some ''mouse_position'')) \<or>
       subscriptable (dict_get ev (Some ''mouse_position'')) 0 \<and>
       subscriptable (dict_get ev (Some ''mouse_position'')) 1))"

text \<open>
  How exceptions of the environment show in the calls \<open>made\<close> by a piece of code that
  started after the calls \<open>hist\<close> and ended with \<open>r\<close>. An exception is swallowed when a
  scroll script raised \<^verbatim>\<open>JavascriptException\<close>. In a piece that \<open>propagates\<close>, a call
  that raised a swallowed exception is followed by the message of \<^verbatim>\<open>simulate_scroll\<close>,
  and a call that raised any other exception is the last call, and the piece ends
  with that exception.
\<close>

definition is_print :: "action \<Rightarrow> bool" where
  "is_print a = (case a of Print s \<Rightarrow> True | _ \<Rightarrow> False)"

definition swallowed :: "action \<Rightarrow> py_error \<Rightarrow> bool" where
  "swallowed a e = (case a of ExecuteScript pixels \<Rightarrow> e = JavascriptException | _ \<Rightarrow> False)"

definition propagates :: "env \<Rightarrow> action list \<Rightarrow> action list \<Rightarrow> py_error option \<Rightarrow> bool" where
  "propagates env hist made r =
     (\<forall>k e. k < length made \<and> \<not> is_print (made ! k) \<and>
            env (hist @ take k made) (made ! k) = Some e \<longrightarrow>
            (if swallowed (made ! k) e
             then Suc k < length made \<and> made ! Suc k = Print ''Simulating scroll failed''
             else r = Some e \<and> Suc k = length made))"

text \<open>
  The calls of a pass of the loop body of \<^verbatim>\<open>perform_simulation\<close> that raises nothing,
  written out in the order of the body: the suspension; the call of the custom handler,
  or the navigation of the default handler when the page differs from the last one;
  the scroll when \<^verbatim>\<open>scroll_top\<close> is true, followed by the printed message when the
  script raised \<^verbatim>\<open>JavascriptException\<close>; the click when \<^verbatim>\<open>mouse_position\<close> is true.
  \<open>iteration_delay\<close> is the suspension. In such an iteration both times are numbers
  under the recorded timing, and a mouse position that is true can be indexed; 0 and
  the empty list stand in the cases that do not occur.
\<close>

definition iteration_delay :: "int option \<Rightarrow> dict \<Rightarrow> json \<Rightarrow> int" where
  "iteration_delay static_sleep_time ev last_timestamp =
     (case static_sleep_time of
        Some s \<Rightarrow> s
      | None \<Rightarrow>
          (case (num_of (dict_get ev (Some ''time'')), num_of last_timestamp) of
             (Some t, Some p) \<Rightarrow> if t - p < 0 then 3 else t - p
           | _ \<Rightarrow> 0))"

definition iteration_calls ::
  "env \<Rightarrow> int option \<Rightarrow> bool \<Rightarrow> int \<Rightarrow> dict \<Rightarrow> json \<Rightarrow> json \<Rightarrow> action list \<Rightarrow> action list" where
  "iteration_calls env static_sleep_time execute_function n ev last_timestamp last_location hist =
     (let page = dict_get ev (Some ''page'');
          scroll_top = dict_get ev (Some ''scroll_top'');
          mouse_position = dict_get ev (Some ''mouse_position'');
          suspend = [Sleep (iteration_delay static_sleep_time ev last_timestamp)];
          handler = (if execute_function
                     then [ExecuteFunction n ev last_location last_timestamp]
                     else if py_ne last_location page then [Get page] else []);
          scroll = (if truthy scroll_top
                    then (if env (hist @ suspend @ handler) (ExecuteScript scroll_top) =
                               Some JavascriptException
                          then [ExecuteScript scroll_top, Print ''Simulating scroll failed'']
                          else [ExecuteScript scroll_top])
                    else []);
          click = (if truthy mouse_position
                   then (case (py_index mouse_position 0, py_index mouse_position 1) of
                           (Inr x, Inr y) \<Rightarrow> [Click x y]
                         | _ \<Rightarrow> [])
                   else [])
      in suspend @ handler @ scroll @ click)"

section \<open>DataParams\<close>

text \<open>
  \<^verbatim>\<open>MixpanelParser.DataParams\<close> of \<^verbatim>\<open>parsers/mixpanel.py\<close>. The keyword arguments are a
  dictionary in the order they were passed.
\<close>

definition SUPPORTED_PARAMS :: "string list" where
  "SUPPORTED_PARAMS = [''from_date'', ''to_date'', ''limit'', ''event'', ''where'']"

text \<open>
  \<^verbatim>\<open>re.search(DATE_REGEX, date) is not None\<close> on a string, for the pattern
  \<^verbatim>\<open>^(?:19|20)\d\d-(?:0[1-9]|1[0-2])-(?:0[1-9]|[12]\d|3[01])$\<close>. The pattern is anchored at
  both ends, and \<^verbatim>\<open>$\<close> also matches before a final newline. Among 8-bit characters
  \<^verbatim>\<open>\d\<close> matches the ten ASCII digits.
\<close>

definition digit :: "char \<Rightarrow> bool" where
  "digit c = (c \<in> set ''0123456789'')"

definition date_pattern :: "string \<Rightarrow> bool" where
  "date_pattern s =
     (length s = 10 \<and>
      (take 2 s = ''19'' \<or> take 2 s = ''20'') \<and> digit (s ! 2) \<and> digit (s ! 3) \<and>
      s ! 4 = CHR ''-'' \<and>
      (s ! 5 = CHR ''0'' \<and> s ! 6 \<in> set ''123456789'' \<or>
       s ! 5 = CHR ''1'' \<and> s ! 6 \<in> set ''012'') \<and>
      s ! 7 = CHR ''-'' \<and>
      (s ! 8 = CHR ''0'' \<and> s ! 9 \<in> set ''123456789'' \<or>
       s ! 8 \<in> set ''12'' \<and> digit (s ! 9) \<or>
       s ! 8 = CHR ''3'' \<and> s ! 9 \<in> set ''01''))"

definition DATE_REGEX_search :: "string \<Rightarrow> bool" where
  "DATE_REGEX_search s =
     (date_pattern s \<or> (s \<noteq> [] \<and> last s = CHR 0x0A \<and> date_pattern (butlast s)))"

text \<open>\<^verbatim>\<open>re.search\<close> raises \<^verbatim>\<open>TypeError\<close> on a value that is not a string.\<close>

definition date_check :: "json \<Rightarrow> py_error + bool" where
  "date_check date = (case date of JStr s \<Rightarrow> Inr (DATE_REGEX_search s) | _ \<Rightarrow> Inl TypeError)"

text \<open>\<^verbatim>\<open>isinstance(x, int)\<close> (a boolean is an \<^verbatim>\<open>int\<close>) and \<^verbatim>\<open>isinstance(x, list)\<close>.\<close>

definition is_int :: "json \<Rightarrow> bool" where
  "is_int x = (case x of JInt n \<Rightarrow> True | JBool b \<Rightarrow> True | _ \<Rightarrow> False)"

definition is_list :: "json \<Rightarrow> bool" where
  "is_list x = (case x of JList xs \<Rightarrow> True | _ \<Rightarrow> False)"

text \<open>
  \<^verbatim>\<open>json.dumps(x, ensure_ascii=False)\<close> with the default separators: strings are quoted
  with the quote, the backslash and the control characters escaped, integers are
  written in decimal.
\<close>

definition hex_digit :: "nat \<Rightarrow> char" where
  "hex_digit n = ''0123456789abcdef'' ! n"

definition escape_char :: "char \<Rightarrow> string" where
  "escape_char c =
     (if c = CHR 0x22 then [CHR 0x5C, CHR 0x22]
      else if c = CHR 0x5C then [CHR 0x5C, CHR 0x5C]
      else if c = CHR 0x0A then [CHR 0x5C, CHR ''n'']
      else if c = CHR 0x0D then [CHR 0x5C, CHR ''r'']
      else if c = CHR 0x09 then [CHR 0x5C, CHR ''t'']
      else if c = CHR 0x08 then [CHR 0x5C, CHR ''b'']
      else if c = CHR 0x0C then [CHR 0x5C, CHR ''f'']
      else if (of_char c :: nat) < 32
      then [CHR 0x5C, CHR ''u'', CHR ''0'', CHR ''0'',
            hex_digit (of_char c div 16), hex_digit (of_char c mod 16)]
      else [c])"

definition quoted :: "string \<Rightarrow> string" where
  "quoted s = [CHR 0x22] @ concat (map escape_char s) @ [CHR 0x22]"

fun decimal :: "nat \<Rightarrow> string" where
  "decimal n = (if n < 10 then [''0123456789'' ! n]
                else decimal (n div 10) @ [''0123456789'' ! (n mod 10)])"

declare decimal.simps [simp del]

definition int_str :: "int \<Rightarrow> string" where
  "int_str i = (if i < 0 then CHR ''-'' # decimal (nat (- i)) else decimal (nat i))"

fun join :: "string \<Rightarrow> string list \<Rightarrow> string" where
  "join sep [] = []"
| "join sep [x] = x"
| "join sep (x # y # rest) = x @ sep @ join sep (y # rest)"

primrec json_dumps :: "json \<Rightarrow> string" where
  "json_dumps JNull = ''null''"
| "json_dumps (JBool b) = (if b then ''true'' else ''false'')"
| "json_dumps (JInt n) = int_str n"
| "json_dumps (JStr s) = quoted s"
| "json_dumps (JList xs) = ''['' @ join '', '' (map json_dumps xs) @ '']''"
| "json_dumps (JObj d) =
     ''{'' @ join '', '' (map (\<lambda>(k, v). quoted k @ '': '' @ v) (map (map_prod id json_dumps) d))
     @ ''}''"

text \<open>
  \<^verbatim>\<open>template.format(user_input=value)\<close>. A template with no field comes back as it is.
  The two templates with the field belong to checks that raise \<^verbatim>\<open>TypeError\<close> on
  anything but a string before the message is formatted, so the field is only ever
  filled with a string, which \<^verbatim>\<open>str\<close> leaves as it is.
\<close>

definition py_format :: "string \<Rightarrow> json \<Rightarrow> string" where
  "py_format template user_input =
     (case user_input of JStr s \<Rightarrow> py_replace template ''{user_input}'' s | _ \<Rightarrow> template)"

text \<open>
  An entry of a \<^verbatim>\<open>'functions'\<close> tuple of \<^verbatim>\<open>PARAMS_CHECKS\<close>. The functions of the two date
  parameters read \<^verbatim>\<open>kwargs\<close>, so the check takes the dictionary as it is when called.
\<close>

record param_check =
  check_function :: "dict \<Rightarrow> json \<Rightarrow> py_error + bool"
  check_error :: string
  custom_result :: "(json \<Rightarrow> json) option"

definition PARAMS_CHECKS :: "string \<Rightarrow> param_check list" where
  "PARAMS_CHECKS key =
     (if key = ''from_date'' then
        [\<lparr>check_function = (\<lambda>kwargs date. date_check date),
          check_error = ''from_date param should be in the following pattern: YYYY-MM-DD | You provided {user_input}'',
          custom_result = None\<rparr>,
         \<lparr>check_function = (\<lambda>kwargs x. Inr (truthy (dict_get kwargs (Some ''to_date'')))),
          check_error = ''from_date param have to be with to_date param'',
          custom_result = None\<rparr>]
      else if key = ''to_date'' then
        [\<lparr>check_function = (\<lambda>kwargs date. date_check date),
          check_error = ''to_date param should be in the following pattern: YYYY-MM-DD | You provided {user_input}'',
          custom_result = None\<rparr>,
         \<lparr>check_function = (\<lambda>kwargs x. Inr (truthy (dict_get kwargs (Some ''from_date'')))),
          check_error = ''to_date param have to be with from_date param'',
          custom_result = None\<rparr>]
      else if key = ''limit'' then
        [\<lparr>check_function = (\<lambda>kwargs limit. Inr (is_int limit)),
          check_error = ''limit param should be integer'',
          custom_result = None\<rparr>]
      else if key = ''event'' then
        [\<lparr>check_function = (\<lambda>kwargs ev. Inr (is_list ev)),
          check_error = ''event param should be list'',
          custom_result = Some (\<lambda>ev. JStr (json_dumps ev))\<rparr>]
      else [])"

text \<open>The inner loop over the checks of one parameter, and the loop over the arguments.\<close>

fun run_checks :: "param_check list \<Rightarrow> string \<Rightarrow> json \<Rightarrow> dict \<Rightarrow> py_error + dict" where
  "run_checks [] key value kwargs = Inr kwargs"
| "run_checks (data # rest) key value kwargs =
     (case check_function data kwargs value of
        Inl e \<Rightarrow> Inl e
      | Inr ok \<Rightarrow>
          if \<not> ok then Inl (ValueError (py_format (check_error data) value))
          else run_checks rest key value
                 (case custom_result data of
                    None \<Rightarrow> kwargs
                  | Some f \<Rightarrow> AList.update key (f value) kwargs))"

definition unsupported_message :: "string \<Rightarrow> string" where
  "unsupported_message key =
     [CHR 0x22] @ key @ [CHR 0x22] @ '' is not supported param. Supported params are ('' @
     join '', '' (map (\<lambda>p. [CHR 0x27] @ p @ [CHR 0x27]) SUPPORTED_PARAMS) @ '')''"

fun params_loop :: "(string \<times> json) list \<Rightarrow> dict \<Rightarrow> py_error + dict" where
  "params_loop [] kwargs = Inr kwargs"
| "params_loop ((key, value) # rest) kwargs =
     (if key \<notin> set SUPPORTED_PARAMS
      then Inl (NotImplementedError (unsupported_message key))
      else (case run_checks (PARAMS_CHECKS key) key value kwargs of
              Inl e \<Rightarrow> Inl e
            | Inr kwargs' \<Rightarrow> params_loop rest kwargs'))"

text \<open>\<^verbatim>\<open>DataParams.__init__\<close>: the result is \<^verbatim>\<open>self.params\<close>.\<close>

definition DataParams_init :: "dict \<Rightarrow> py_error + dict" where
  "DataParams_init kwargs = params_loop kwargs kwargs"

section \<open>Properties of the schema\<close>

lemma field_name_slots:
  "field_name ''dimension_key'' = ''dimension''"
  "field_name ''scroll_top_key'' = ''scroll_top''"
  "field_name ''mouse_position_key'' = ''mouse_position''"
  "field_name ''time_key'' = ''time''"
  "field_name ''page_key'' = ''page''"
  "field_name ''query_key'' = ''query''"
  by (simp_all add: field_name_def py_replace_def)

lemma in_non_none_items: "(k, v) \<in> set (non_none_items xs) \<longleftrightarrow> (k, Some v) \<in> set xs"
  by (induction xs rule: non_none_items.induct) auto

lemma keys_non_none_items: "k \<in> fst ` set (non_none_items xs) \<Longrightarrow> k \<in> fst ` set xs"
  by (force simp: in_non_none_items)

lemma distinct_non_none_items:
  "distinct (map (f \<circ> fst) xs) \<Longrightarrow> distinct (map (f \<circ> fst) (non_none_items xs))"
proof (induction xs rule: non_none_items.induct)
  case (3 key "value" rest)
  have "f key \<notin> (f \<circ> fst) ` set (non_none_items rest)"
  proof
    assume "f key \<in> (f \<circ> fst) ` set (non_none_items rest)"
    then obtain k v where "(k, v) \<in> set (non_none_items rest)" and "f key = f k" by auto
    then have "(k, Some v) \<in> set rest" by (simp add: in_non_none_items)
    then have "f k \<in> (f \<circ> fst) ` set rest" by force
    with 3(2) \<open>f key = f k\<close> show False by simp
  qed
  with 3 show ?case by simp
qed simp_all

text \<open>The attributes after \<^verbatim>\<open>reproductive_data_key\<close>, in the order of \<^verbatim>\<open>__dict__\<close>.\<close>

lemma tl_dict_items:
  "tl (dict_items self) =
     [(''dimension_key'', dimension_key self), (''scroll_top_key'', scroll_top_key self),
      (''mouse_position_key'', mouse_position_key self), (''time_key'', time_key self),
      (''page_key'', page_key self), (''query_key'', query_key self)]"
  by (simp add: dict_items_def)

lemma return_schema_cases:
  "return_schema self =
     (case reproductive_data_key self of
        None \<Rightarrow> Inl (KeyError (JStr ''reproductive_data_key''))
      | Some r \<Rightarrow> Inr (non_none_items (tl (dict_items self))))"
proof -
  have absent: "''reproductive_data_key'' \<notin> fst ` set (non_none_items (tl (dict_items self)))"
    using keys_non_none_items [of "''reproductive_data_key''" "tl (dict_items self)"]
    by (auto simp: tl_dict_items)
  then have none: "map_of (non_none_items (tl (dict_items self))) ''reproductive_data_key'' = None"
    by (simp add: map_of_eq_None_iff)
  show ?thesis
  proof (cases "reproductive_data_key self")
    case None
    then have "non_none_items (dict_items self) = non_none_items (tl (dict_items self))"
      by (simp add: dict_items_def)
    with none show ?thesis
      using None by (simp add: return_schema_def dict_pop_def)
  next
    case (Some r)
    then have "non_none_items (dict_items self) =
        (''reproductive_data_key'', r) # non_none_items (tl (dict_items self))"
      by (simp add: dict_items_def)
    with absent show ?thesis
      using Some by (simp add: return_schema_def dict_pop_def)
  qed
qed

text \<open>
  What \<^verbatim>\<open>return_schema\<close> returns when it returns: a slot is in the dictionary exactly
  when it is not \<^verbatim>\<open>None\<close>, under its own name and with its provider key, and
  \<^verbatim>\<open>reproductive_data_key\<close> is not in it.
\<close>

lemma return_schema_members:
  assumes "return_schema self = Inr sch"
  shows "(k, v) \<in> set sch \<longleftrightarrow>
           k = ''dimension_key'' \<and> dimension_key self = Some v \<or>
           k = ''scroll_top_key'' \<and> scroll_top_key self = Some v \<or>
           k = ''mouse_position_key'' \<and> mouse_position_key self = Some v \<or>
           k = ''time_key'' \<and> time_key self = Some v \<or>
           k = ''page_key'' \<and> page_key self = Some v \<or>
           k = ''query_key'' \<and> query_key self = Some v"
proof -
  from assms have "sch = non_none_items (tl (dict_items self))"
    by (simp add: return_schema_cases split: option.splits)
  then have "(k, v) \<in> set sch \<longleftrightarrow> (k, Some v) \<in> set (tl (dict_items self))"
    by (simp add: in_non_none_items)
  also have "\<dots> \<longleftrightarrow>
           k = ''dimension_key'' \<and> dimension_key self = Some v \<or>
           k = ''scroll_top_key'' \<and> scroll_top_key self = Some v \<or>
           k = ''mouse_position_key'' \<and> mouse_position_key self = Some v \<or>
           k = ''time_key'' \<and> time_key self = Some v \<or>
           k = ''page_key'' \<and> page_key self = Some v \<or>
           k = ''query_key'' \<and> query_key self = Some v"
    unfolding tl_dict_items set_simps insert_iff empty_iff prod.inject
    by (simp only: eq_commute [of "Some v"] simp_thms)
  finally show ?thesis .
qed

lemma return_schema_distinct:
  assumes "return_schema self = Inr sch"
  shows "distinct (map fst sch)" and "distinct (map (field_name \<circ> fst) sch)"
proof -
  from assms have sch: "sch = non_none_items (tl (dict_items self))"
    by (simp add: return_schema_cases split: option.splits)
  have "distinct (map (id \<circ> fst) (tl (dict_items self)))"
    by (simp add: tl_dict_items)
  then have "distinct (map (id \<circ> fst) sch)"
    unfolding sch by (rule distinct_non_none_items)
  then show "distinct (map fst sch)" by simp
  have "distinct (map (field_name \<circ> fst) (tl (dict_items self)))"
    by (simp add: tl_dict_items field_name_slots)
  then show "distinct (map (field_name \<circ> fst) sch)"
    unfolding sch by (rule distinct_non_none_items)
qed

lemma return_schema_lookup:
  assumes "return_schema self = Inr sch"
  shows "map_of sch ''dimension_key'' = dimension_key self"
    and "map_of sch ''scroll_top_key'' = scroll_top_key self"
    and "map_of sch ''mouse_position_key'' = mouse_position_key self"
    and "map_of sch ''time_key'' = time_key self"
    and "map_of sch ''page_key'' = page_key self"
    and "map_of sch ''query_key'' = query_key self"
    and "map_of sch ''reproductive_data_key'' = None"
proof -
  note d = return_schema_distinct(1) [OF assms]
  have look: "map_of sch k = Some v \<longleftrightarrow> (k, v) \<in> set sch" for k v
    using d by simp
  have eq: "map_of sch k = x" if "\<And>v. (k, v) \<in> set sch \<longleftrightarrow> x = Some v" for k x
  proof (cases x)
    case None
    with that have "k \<notin> fst ` set sch" by auto
    with None show ?thesis by (simp add: map_of_eq_None_iff)
  next
    case (Some v)
    with that have "(k, v) \<in> set sch" by simp
    with look Some show ?thesis by simp
  qed
  note m = return_schema_members [OF assms]
  show "map_of sch ''dimension_key'' = dimension_key self" by (rule eq) (auto simp: m)
  show "map_of sch ''scroll_top_key'' = scroll_top_key self" by (rule eq) (auto simp: m)
  show "map_of sch ''mouse_position_key'' = mouse_position_key self" by (rule eq) (auto simp: m)
  show "map_of sch ''time_key'' = time_key self" by (rule eq) (auto simp: m)
  show "map_of sch ''page_key'' = page_key self" by (rule eq) (auto simp: m)
  show "map_of sch ''query_key'' = query_key self" by (rule eq) (auto simp: m)
  show "map_of sch ''reproductive_data_key'' = None" by (rule eq) (auto simp: m)
qed

text \<open>
  C7 (as the code has it). \<^verbatim>\<open>Schema.__init__\<close> tests truth values: the construction
  succeeds exactly when some argument is a non-empty string, and raises \<^verbatim>\<open>ValueError\<close>
  exactly when every argument is \<^verbatim>\<open>None\<close> or the empty string. In particular it
  raises when every slot is \<^verbatim>\<open>None\<close>, and succeeds for every combination in which a
  slot holds a non-empty key.
\<close>

theorem Schema_init_truth_values:
  "Schema_init r d st mp t p q =
     (if str_truthy r \<or> str_truthy d \<or> str_truthy st \<or> str_truthy mp \<or>
         str_truthy t \<or> str_truthy p \<or> str_truthy q
      then Inr \<lparr>reproductive_data_key = r, dimension_key = d, scroll_top_key = st,
                mouse_position_key = mp, time_key = t, page_key = p, query_key = q\<rparr>
      else Inl (ValueError ''All arguments cannot be None''))"
  by (simp add: Schema_init_def dict_items_def)

theorem Schema_init_truth_values_witness:
  "Schema_init None None None None None None None =
     Inl (ValueError ''All arguments cannot be None'') \<and>
   Schema_init None None None None (Some ''time'') None None =
     Inr \<lparr>reproductive_data_key = None, dimension_key = None, scroll_top_key = None,
          mouse_position_key = None, time_key = Some ''time'', page_key = None,
          query_key = None\<rparr>"
  using Schema_init_truth_values [of None None None None None None None]
    Schema_init_truth_values [of None None None None "Some ''time''" None None]
  by (simp add: str_truthy_def)

text \<open>
  C7 as stated fails: with \<^verbatim>\<open>dimension_key=''\<close> a slot is set (it is not \<^verbatim>\<open>None\<close>), and
  the construction raises.
\<close>

theorem Schema_init_empty_key_raises:
  "Schema_init None (Some '''') None None None None None =
     Inl (ValueError ''All arguments cannot be None'')"
  by (simp add: Schema_init_def dict_items_def str_truthy_def)

text \<open>
  C4 (the defect). On a schema whose \<^verbatim>\<open>reproductive_data_key\<close> is \<^verbatim>\<open>None\<close> the
  comprehension of \<^verbatim>\<open>return_schema\<close> leaves the key out and the \<^verbatim>\<open>pop\<close> after it raises
  \<^verbatim>\<open>KeyError\<close>: no mapping is returned.
\<close>

theorem return_schema_without_reproductive_key:
  "reproductive_data_key self = None \<Longrightarrow>
   return_schema self = Inl (KeyError (JStr ''reproductive_data_key''))"
  by (simp add: return_schema_cases)

theorem return_schema_without_reproductive_key_witness:
  "Schema_init None (Some ''dimension'') None None None None None =
     Inr \<lparr>reproductive_data_key = None, dimension_key = Some ''dimension'',
          scroll_top_key = None, mouse_position_key = None, time_key = None,
          page_key = None, query_key = None\<rparr> \<and>
   return_schema \<lparr>reproductive_data_key = None, dimension_key = Some ''dimension'',
          scroll_top_key = None, mouse_position_key = None, time_key = None,
          page_key = None, query_key = None\<rparr> =
     Inl (KeyError (JStr ''reproductive_data_key''))"
  using return_schema_without_reproductive_key
    [of "\<lparr>reproductive_data_key = None, dimension_key = Some ''dimension'',
          scroll_top_key = None, mouse_position_key = None, time_key = None,
          page_key = None, query_key = None\<rparr>"]
  by (simp add: Schema_init_def dict_items_def str_truthy_def)

text \<open>
  With \<^verbatim>\<open>reproductive_data_key\<close> set, \<^verbatim>\<open>return_schema\<close> returns the other slots that are
  not \<^verbatim>\<open>None\<close>, in the order of the arguments.
\<close>

lemma return_schema_with_reproductive_key:
  "reproductive_data_key self = Some r \<Longrightarrow>
   return_schema self =
     Inr (non_none_items
       [(''dimension_key'', dimension_key self), (''scroll_top_key'', scroll_top_key self),
        (''mouse_position_key'', mouse_position_key self), (''time_key'', time_key self),
        (''page_key'', page_key self), (''query_key'', query_key self)])"
  by (simp add: return_schema_cases tl_dict_items)

section \<open>Properties of the parser\<close>

lemma fill_from_reproductive_dict:
  "fill_from_reproductive (JObj d) sch pe = Inr (fill_from_properties d sch pe)"
  by (induction sch arbitrary: pe) (auto simp: json_get_def)

lemma fill_from_reproductive_other:
  assumes "\<And>d. x \<noteq> JObj d"
  shows "fill_from_reproductive x sch pe = (if sch = [] then Inr pe else Inl AttributeError)"
proof (cases sch)
  case (Cons kv rest)
  obtain key "value" where kv: "kv = (key, value)" by (cases kv)
  from assms have "json_get x (Some value) = Inl AttributeError"
    by (cases x) (auto simp: json_get_def)
  with Cons kv show ?thesis by simp
qed simp

lemma keys_fill_from_properties:
  "fst ` set (fill_from_properties props sch pe) = fst ` set pe \<union> field_name ` fst ` set sch"
proof (induction sch arbitrary: pe)
  case Nil
  show ?case by simp
next
  case (Cons kv rest)
  obtain key "value" where kv: "kv = (key, value)" by (cases kv)
  have "fst ` set (fill_from_properties props (kv # rest) pe) =
        fst ` set (AList.update (field_name key) (dict_get props (Some value)) pe) \<union>
        field_name ` fst ` set rest"
    unfolding kv fill_from_properties.simps by (rule Cons.IH)
  also have "\<dots> = fst ` set pe \<union> field_name ` fst ` set (kv # rest)"
    unfolding dom_update kv by auto
  finally show ?case .
qed

lemma fill_from_properties_other:
  "f \<notin> field_name ` fst ` set sch \<Longrightarrow> map_of (fill_from_properties props sch pe) f = map_of pe f"
  by (induction sch arbitrary: pe) (auto simp: update_conv')

lemma fill_from_properties_lookup:
  assumes "distinct (map (field_name \<circ> fst) sch)" and "(k, v) \<in> set sch"
  shows "map_of (fill_from_properties props sch pe) (field_name k) = Some (dict_get props (Some v))"
  using assms
proof (induction sch arbitrary: pe)
  case Nil
  then show ?case by simp
next
  case (Cons kv rest)
  obtain key "value" where kv: "kv = (key, value)" by (cases kv)
  show ?case
  proof (cases "(k, v) \<in> set rest")
    case True
    with Cons kv show ?thesis by simp
  next
    case False
    with Cons.prems kv have same: "key = k" "value = v" by auto
    from Cons.prems kv have "field_name key \<notin> field_name ` fst ` set rest" by auto
    then have "map_of (fill_from_properties props rest
        (AList.update (field_name key) (dict_get props (Some value)) pe)) (field_name key) =
        map_of (AList.update (field_name key) (dict_get props (Some value)) pe) (field_name key)"
      by (rule fill_from_properties_other)
    with kv same show ?thesis by (simp add: update_conv')
  qed
qed

text \<open>Which fields the loop over the schema writes.\<close>

lemma schema_field_names:
  assumes "return_schema self = Inr sch"
  shows "f \<in> field_name ` fst ` set sch \<longleftrightarrow>
           f = ''dimension'' \<and> dimension_key self \<noteq> None \<or>
           f = ''scroll_top'' \<and> scroll_top_key self \<noteq> None \<or>
           f = ''mouse_position'' \<and> mouse_position_key self \<noteq> None \<or>
           f = ''time'' \<and> time_key self \<noteq> None \<or>
           f = ''page'' \<and> page_key self \<noteq> None \<or>
           f = ''query'' \<and> query_key self \<noteq> None"
proof
  note m = return_schema_members [OF assms]
  assume "f \<in> field_name ` fst ` set sch"
  then obtain k v where kv: "(k, v) \<in> set sch" and f: "f = field_name k" by force
  from kv have "k = ''dimension_key'' \<and> dimension_key self = Some v \<or>
           k = ''scroll_top_key'' \<and> scroll_top_key self = Some v \<or>
           k = ''mouse_position_key'' \<and> mouse_position_key self = Some v \<or>
           k = ''time_key'' \<and> time_key self = Some v \<or>
           k = ''page_key'' \<and> page_key self = Some v \<or>
           k = ''query_key'' \<and> query_key self = Some v"
    by (simp only: m)
  then show "f = ''dimension'' \<and> dimension_key self \<noteq> None \<or>
           f = ''scroll_top'' \<and> scroll_top_key self \<noteq> None \<or>
           f = ''mouse_position'' \<and> mouse_position_key self \<noteq> None \<or>
           f = ''time'' \<and> time_key self \<noteq> None \<or>
           f = ''page'' \<and> page_key self \<noteq> None \<or>
           f = ''query'' \<and> query_key self \<noteq> None"
    unfolding f by (elim disjE conjE) (simp_all only: field_name_slots simp_thms option.distinct)
next
  note m = return_schema_members [OF assms]
  have in_sch: "field_name k \<in> field_name ` fst ` set sch" if "(k, v) \<in> set sch" for k v
    using that by force
  assume "f = ''dimension'' \<and> dimension_key self \<noteq> None \<or>
           f = ''scroll_top'' \<and> scroll_top_key self \<noteq> None \<or>
           f = ''mouse_position'' \<and> mouse_position_key self \<noteq> None \<or>
           f = ''time'' \<and> time_key self \<noteq> None \<or>
           f = ''page'' \<and> page_key self \<noteq> None \<or>
           f = ''query'' \<and> query_key self \<noteq> None"
  then show "f \<in> field_name ` fst ` set sch"
  proof (elim disjE conjE)
    assume f: "f = ''dimension''" and "dimension_key self \<noteq> None"
    then obtain v where "dimension_key self = Some v" by (cases "dimension_key self") simp_all
    then have "(''dimension_key'', v) \<in> set sch" by (simp only: m simp_thms)
    from in_sch [OF this] show ?thesis by (simp only: f field_name_slots)
  next
    assume f: "f = ''scroll_top''" and "scroll_top_key self \<noteq> None"
    then obtain v where "scroll_top_key self = Some v" by (cases "scroll_top_key self") simp_all
    then have "(''scroll_top_key'', v) \<in> set sch" by (simp only: m simp_thms)
    from in_sch [OF this] show ?thesis by (simp only: f field_name_slots)
  next
    assume f: "f = ''mouse_position''" and "mouse_position_key self \<noteq> None"
    then obtain v where "mouse_position_key self = Some v" by (cases "mouse_position_key self") simp_all
    then have "(''mouse_position_key'', v) \<in> set sch" by (simp only: m simp_thms)
    from in_sch [OF this] show ?thesis by (simp only: f field_name_slots)
  next
    assume f: "f = ''time''" and "time_key self \<noteq> None"
    then obtain v where "time_key self = Some v" by (cases "time_key self") simp_all
    then have "(''time_key'', v) \<in> set sch" by (simp only: m simp_thms)
    from in_sch [OF this] show ?thesis by (simp only: f field_name_slots)
  next
    assume f: "f = ''page''" and "page_key self \<noteq> None"
    then obtain v where "page_key self = Some v" by (cases "page_key self") simp_all
    then have "(''page_key'', v) \<in> set sch" by (simp only: m simp_thms)
    from in_sch [OF this] show ?thesis by (simp only: f field_name_slots)
  next
    assume f: "f = ''query''" and "query_key self \<noteq> None"
    then obtain v where "query_key self = Some v" by (cases "query_key self") simp_all
    then have "(''query_key'', v) \<in> set sch" by (simp only: m simp_thms)
    from in_sch [OF this] show ?thesis by (simp only: f field_name_slots)
  qed
qed

text \<open>
  Whether \<^verbatim>\<open>parsed_event.pop('query')\<close> finds its key: the field \<^verbatim>\<open>query\<close> was written
  exactly when \<^verbatim>\<open>query_key\<close> is configured.
\<close>

lemma pop_query:
  assumes "return_schema self = Inr sch"
  shows "dict_pop ''query''
           (AList.update ''page'' p
              (AList.update ''time'' t (fill_from_properties props sch [(''name'', n)]))) =
         (if query_key self = None then Inl (KeyError (JStr ''query''))
          else Inr (AList.delete ''query''
                 (AList.update ''page'' p
                    (AList.update ''time'' t (fill_from_properties props sch [(''name'', n)])))))"
proof -
  let ?filled = "fill_from_properties props sch [(''name'', n)]"
  have "''query'' \<in> field_name ` fst ` set sch \<longleftrightarrow> query_key self \<noteq> None"
    unfolding schema_field_names [OF assms] by simp
  then have "''query'' \<in> fst ` set ?filled \<longleftrightarrow> query_key self \<noteq> None"
    unfolding keys_fill_from_properties by simp
  then have "map_of ?filled ''query'' = None \<longleftrightarrow> query_key self = None"
    unfolding map_of_eq_None_iff by simp
  moreover have "map_of (AList.update ''page'' p (AList.update ''time'' t ?filled)) ''query'' =
      map_of ?filled ''query''"
    by (simp add: update_conv')
  ultimately show ?thesis
    by (cases "map_of ?filled ''query''") (simp_all add: dict_pop_def)
qed

text \<open>The second branch of the loop body (lines 184 to 199), case by case.\<close>

lemma properties_branch_result:
  assumes "return_schema self = Inr sch"
  shows "properties_branch props sch [(''name'', n)] v ps =
    (let page = dict_get props (page_key self);
         query = dict_get props (query_key self);
         filled = AList.update ''time'' (dict_get props (time_key self))
                    (fill_from_properties props sch [(''name'', n)])
     in if str_truthy (query_key self)
        then (case py_add page query of
                Inl e \<Rightarrow> (Some e, v, ps)
              | Inr p \<Rightarrow>
                  (None, v + 1,
                   AList.update (v + 1) (AList.delete ''query'' (AList.update ''page'' p filled)) ps))
        else if query_key self = None then (Some (KeyError (JStr ''query'')), v + 1, ps)
        else (None, v + 1,
              AList.update (v + 1) (AList.delete ''query'' (AList.update ''page'' page filled)) ps))"
proof -
  note look = return_schema_lookup [OF assms]
  note pop = pop_query [OF assms]
  show ?thesis
  proof (cases "str_truthy (query_key self)")
    case True
    then have "query_key self \<noteq> None" by (cases "query_key self") (simp_all add: str_truthy_def)
    with True show ?thesis
      by (cases "py_add (dict_get props (page_key self)) (dict_get props (query_key self))")
         (simp_all add: properties_branch_def Let_def look pop)
  next
    case False
    then show ?thesis
      by (simp add: properties_branch_def Let_def look pop)
  qed
qed

text \<open>The first branch (lines 167 to 182) when the nested value is a dictionary.\<close>

lemma reproductive_branch_result:
  assumes "return_schema self = Inr sch"
  shows "reproductive_branch (JObj d) props sch [(''name'', n)] v ps =
    (let page = dict_get props (page_key self);
         query = dict_get props (query_key self);
         filled = AList.update ''time'' (dict_get props (time_key self))
                    (fill_from_properties d sch [(''name'', n)])
     in if str_truthy (query_key self) \<and> truthy query
        then (case py_add page query of
                Inl e \<Rightarrow> (Some e, v, ps)
              | Inr p \<Rightarrow>
                  (None, v + 1,
                   AList.update (v + 1) (AList.delete ''query'' (AList.update ''page'' p filled)) ps))
        else if query_key self = None
        then (Some (KeyError (JStr ''query'')), v + 1,
              AList.update (v + 1) (AList.update ''page'' page filled) ps)
        else (None, v + 1,
              AList.update (v + 1) (AList.delete ''query'' (AList.update ''page'' page filled)) ps))"
proof -
  note look = return_schema_lookup [OF assms]
  note pop = pop_query [OF assms]
  show ?thesis
  proof (cases "str_truthy (query_key self)")
    case True
    then have set: "query_key self \<noteq> None"
      by (cases "query_key self") (simp_all add: str_truthy_def)
    show ?thesis
    proof (cases "truthy (dict_get props (query_key self))")
      case True
      with \<open>str_truthy (query_key self)\<close> set show ?thesis
        by (cases "py_add (dict_get props (page_key self)) (dict_get props (query_key self))")
           (simp_all add: reproductive_branch_def fill_from_reproductive_dict Let_def look pop)
    next
      case False
      with \<open>str_truthy (query_key self)\<close> set show ?thesis
        by (simp add: reproductive_branch_def fill_from_reproductive_dict Let_def look pop)
    qed
  next
    case False
    then show ?thesis
      by (simp add: reproductive_branch_def fill_from_reproductive_dict Let_def look pop)
  qed
qed

text \<open>The first branch when the nested value is true but no dictionary.\<close>

lemma reproductive_branch_no_dict:
  assumes "return_schema self = Inr sch" and "\<And>d. x \<noteq> JObj d"
  shows "fst (reproductive_branch x props sch [(''name'', n)] v ps) =
           Some (if sch = [] then KeyError (JStr ''query'') else AttributeError)"
proof (cases "sch = []")
  case True
  have "query_key self = None"
  proof (cases "query_key self")
    case (Some q)
    then have "(''query_key'', q) \<in> set sch"
      by (simp only: return_schema_members [OF assms(1)] simp_thms)
    with True show ?thesis by simp
  qed
  moreover have "reproductive_branch x props sch [(''name'', n)] v ps =
      reproductive_branch (JObj []) props sch [(''name'', n)] v ps"
    using True by (simp add: reproductive_branch_def)
  moreover from assms(1) True have "return_schema self = Inr []" by simp
  note reproductive_branch_result [OF this]
  ultimately show ?thesis
    using True by (simp add: Let_def str_truthy_def)
next
  case False
  then show ?thesis
    by (simp add: reproductive_branch_def fill_from_reproductive_other [OF assms(2)])
qed

lemma py_add_None: "py_add x JNull = Inl TypeError"
  by (cases x) simp_all

text \<open>
  The shape of an iteration that raises nothing: \<^verbatim>\<open>query_key\<close> is configured, the
  nested value is false or a dictionary, and the stored event is the filled
  dictionary with \<^verbatim>\<open>time\<close> and \<^verbatim>\<open>page\<close> written from \<^verbatim>\<open>properties\<close> and \<^verbatim>\<open>query\<close> removed.
\<close>

lemma parse_event_success:
  assumes "parse_event self ev v ps = (None, v', ps')"
  obtains sch src p where
    "return_schema self = Inr sch"
    "query_key self \<noteq> None"
    "if truthy (dict_get (properties ev) (reproductive_data_key self))
     then dict_get (properties ev) (reproductive_data_key self) = JObj src
     else src = properties ev"
    "if str_truthy (query_key self) \<and>
        (truthy (dict_get (properties ev) (reproductive_data_key self)) \<longrightarrow>
         truthy (dict_get (properties ev) (query_key self)))
     then py_add (dict_get (properties ev) (page_key self))
            (dict_get (properties ev) (query_key self)) = Inr p
     else p = dict_get (properties ev) (page_key self)"
    "v' = v + 1"
    "ps' = AList.update (v + 1)
             (AList.delete ''query''
                (AList.update ''page'' p
                   (AList.update ''time'' (dict_get (properties ev) (time_key self))
                      (fill_from_properties src sch [(''name'', event ev)])))) ps"
proof -
  let ?props = "properties ev"
  let ?nested = "dict_get ?props (reproductive_data_key self)"
  let ?page = "dict_get ?props (page_key self)"
  let ?query = "dict_get ?props (query_key self)"
  from assms obtain sch where rs: "return_schema self = Inr sch"
    by (cases "return_schema self") (simp_all add: parse_event_def)
  show thesis
  proof (cases "truthy ?nested")
    case False
    with assms rs have br: "properties_branch ?props sch [(''name'', event ev)] v ps = (None, v', ps')"
      by (simp add: parse_event_def Let_def)
    show thesis
    proof (cases "str_truthy (query_key self)")
      case True
      then have q: "query_key self \<noteq> None"
        by (cases "query_key self") (simp_all add: str_truthy_def)
      from br True have "\<exists>p. py_add ?page ?query = Inr p"
        by (cases "py_add ?page ?query")
           (simp_all add: properties_branch_result [OF rs] Let_def)
      then obtain p where pa: "py_add ?page ?query = Inr p" ..
      with br True have "py_add ?page ?query = Inr p"
        and "v' = v + 1"
        and "ps' = AList.update (v + 1)
             (AList.delete ''query''
                (AList.update ''page'' p
                   (AList.update ''time'' (dict_get ?props (time_key self))
                      (fill_from_properties ?props sch [(''name'', event ev)])))) ps"
        by (auto simp: properties_branch_result [OF rs] Let_def)
      with rs q False True show thesis by (intro that [of sch "?props" p]) simp_all
    next
      case nq: False
      from br nq have q: "query_key self \<noteq> None"
        by (cases "query_key self") (simp_all add: properties_branch_result [OF rs] Let_def)
      with br nq have "v' = v + 1"
        and "ps' = AList.update (v + 1)
             (AList.delete ''query''
                (AList.update ''page'' ?page
                   (AList.update ''time'' (dict_get ?props (time_key self))
                      (fill_from_properties ?props sch [(''name'', event ev)])))) ps"
        by (auto simp: properties_branch_result [OF rs] Let_def)
      with rs q False nq show thesis by (intro that [of sch "?props" ?page]) simp_all
    qed
  next
    case True
    with assms rs have br:
      "reproductive_branch ?nested ?props sch [(''name'', event ev)] v ps = (None, v', ps')"
      by (simp add: parse_event_def Let_def)
    have "\<exists>d. ?nested = JObj d"
    proof (rule ccontr)
      assume "\<not> (\<exists>d. ?nested = JObj d)"
      then have "\<And>d. ?nested \<noteq> JObj d" by simp
      from reproductive_branch_no_dict [OF rs this, of ?props "event ev" v ps] br
      show False by simp
    qed
    then obtain d where d: "?nested = JObj d" ..
    note res = reproductive_branch_result [OF rs, of d ?props "event ev" v ps]
    show thesis
    proof (cases "str_truthy (query_key self) \<and> truthy ?query")
      case tq: True
      then have q: "query_key self \<noteq> None"
        by (cases "query_key self") (simp_all add: str_truthy_def)
      from br tq have "\<exists>p. py_add ?page ?query = Inr p"
        unfolding d res by (cases "py_add ?page ?query") (simp_all add: Let_def)
      then obtain p where pa: "py_add ?page ?query = Inr p" ..
      with br tq have "py_add ?page ?query = Inr p"
        and "v' = v + 1"
        and "ps' = AList.update (v + 1)
             (AList.delete ''query''
                (AList.update ''page'' p
                   (AList.update ''time'' (dict_get ?props (time_key self))
                      (fill_from_properties d sch [(''name'', event ev)])))) ps"
        unfolding d res by (auto simp: Let_def)
      with rs q True tq d show thesis by (intro that [of sch d p]) simp_all
    next
      case nq: False
      from br nq have q: "query_key self \<noteq> None"
        unfolding d res by (cases "query_key self") (auto simp: Let_def)
      with br nq have "v' = v + 1"
        and "ps' = AList.update (v + 1)
             (AList.delete ''query''
                (AList.update ''page'' ?page
                   (AList.update ''time'' (dict_get ?props (time_key self))
                      (fill_from_properties d sch [(''name'', event ev)])))) ps"
        unfolding d res by (auto simp: Let_def)
      with rs q True nq d show thesis by (intro that [of sch d ?page]) auto
    qed
  qed
qed

text \<open>The fields of the event an iteration stores.\<close>

lemma stored_event_fields:
  fixes src :: dict and p t n :: json and sch :: "(string \<times> string) list"
  assumes rs: "return_schema self = Inr sch"
  defines "e \<equiv> AList.delete ''query''
                (AList.update ''page'' p
                   (AList.update ''time'' t (fill_from_properties src sch [(''name'', n)])))"
  shows "map_of e ''name'' = Some n"
    and "map_of e ''time'' = Some t"
    and "map_of e ''page'' = Some p"
    and "map_of e ''query'' = None"
    and "map_of e ''dimension'' = map_option (\<lambda>k. dict_get src (Some k)) (dimension_key self)"
    and "map_of e ''scroll_top'' = map_option (\<lambda>k. dict_get src (Some k)) (scroll_top_key self)"
    and "map_of e ''mouse_position'' =
           map_option (\<lambda>k. dict_get src (Some k)) (mouse_position_key self)"
proof -
  let ?filled = "fill_from_properties src sch [(''name'', n)]"
  note names = schema_field_names [OF rs]
  note dist = return_schema_distinct(2) [OF rs]
  note mem = return_schema_members [OF rs]
  have "''name'' \<notin> field_name ` fst ` set sch"
    unfolding names by simp
  then have "map_of ?filled ''name'' = map_of [(''name'', n)] ''name''"
    by (rule fill_from_properties_other)
  then show "map_of e ''name'' = Some n"
    by (simp add: e_def delete_conv' update_conv')
  show "map_of e ''time'' = Some t" "map_of e ''page'' = Some p" "map_of e ''query'' = None"
    by (simp_all add: e_def delete_conv' update_conv')
  have slot: "map_of e f = map_option (\<lambda>k. dict_get src (Some k)) x"
    if f: "f \<noteq> ''query''" "f \<noteq> ''page''" "f \<noteq> ''time''" "f \<noteq> ''name''"
      and some: "\<And>k. x = Some k \<Longrightarrow> \<exists>key. (key, k) \<in> set sch \<and> field_name key = f"
      and none: "x = None \<Longrightarrow> f \<notin> field_name ` fst ` set sch"
    for f x
  proof -
    from f have "map_of e f = map_of ?filled f"
      by (simp add: e_def delete_conv' update_conv')
    also have "\<dots> = map_option (\<lambda>k. dict_get src (Some k)) x"
    proof (cases x)
      case None
      from fill_from_properties_other [OF none [OF None], of src "[(''name'', n)]"] f None
      show ?thesis by simp
    next
      case (Some k)
      from some [OF Some] obtain key where "(key, k) \<in> set sch" "field_name key = f" by auto
      with fill_from_properties_lookup [OF dist, of key k src "[(''name'', n)]"] Some
      show ?thesis by simp
    qed
    finally show ?thesis .
  qed
  show "map_of e ''dimension'' = map_option (\<lambda>k. dict_get src (Some k)) (dimension_key self)"
  proof (rule slot)
    fix k assume "dimension_key self = Some k"
    then have "(''dimension_key'', k) \<in> set sch" by (simp only: mem simp_thms)
    then show "\<exists>key. (key, k) \<in> set sch \<and> field_name key = ''dimension''"
      using field_name_slots(1) by (intro exI conjI)
  next
    assume "dimension_key self = None"
    then show "''dimension'' \<notin> field_name ` fst ` set sch" unfolding names by simp
  qed simp_all
  show "map_of e ''scroll_top'' = map_option (\<lambda>k. dict_get src (Some k)) (scroll_top_key self)"
  proof (rule slot)
    fix k assume "scroll_top_key self = Some k"
    then have "(''scroll_top_key'', k) \<in> set sch" by (simp only: mem simp_thms)
    then show "\<exists>key. (key, k) \<in> set sch \<and> field_name key = ''scroll_top''"
      using field_name_slots(2) by (intro exI conjI)
  next
    assume "scroll_top_key self = None"
    then show "''scroll_top'' \<notin> field_name ` fst ` set sch" unfolding names by simp
  qed simp_all
  show "map_of e ''mouse_position'' =
          map_option (\<lambda>k. dict_get src (Some k)) (mouse_position_key self)"
  proof (rule slot)
    fix k assume "mouse_position_key self = Some k"
    then have "(''mouse_position_key'', k) \<in> set sch" by (simp only: mem simp_thms)
    then show "\<exists>key. (key, k) \<in> set sch \<and> field_name key = ''mouse_position''"
      using field_name_slots(3) by (intro exI conjI)
  next
    assume "mouse_position_key self = None"
    then show "''mouse_position'' \<notin> field_name ` fst ` set sch" unfolding names by simp
  qed simp_all
qed

lemma source_container_success:
  assumes "if truthy (dict_get (properties ev) (reproductive_data_key self))
           then dict_get (properties ev) (reproductive_data_key self) = JObj src
           else src = properties ev"
  shows "source_container self ev = src"
proof (cases "truthy (dict_get (properties ev) (reproductive_data_key self))")
  case True
  with assms have "dict_get (properties ev) (reproductive_data_key self) = JObj src" by simp
  with True show ?thesis by (simp add: source_container_def)
next
  case False
  with assms have src: "src = properties ev" by simp
  from False show ?thesis
    unfolding src source_container_def
    by (cases "dict_get (properties ev) (reproductive_data_key self)") simp_all
qed

text \<open>
  C2 (as the code has it). In an iteration that raises nothing, the fields
  \<^verbatim>\<open>dimension\<close>, \<^verbatim>\<open>scroll_top\<close> and \<^verbatim>\<open>mouse_position\<close> of the stored event are read from the
  source container (the nested dictionary when there is a non-empty one, the
  properties otherwise), each present exactly when its slot is configured; \<^verbatim>\<open>time\<close>
  and \<^verbatim>\<open>page\<close> are read from the top-level properties in both branches, \<^verbatim>\<open>page\<close> with
  the top-level query value appended when it was appended.
\<close>

theorem nested_container_fields:
  assumes "parse_event self ev v ps = (None, v', ps')"
  shows "\<exists>e p. ps' = AList.update (v + 1) e ps \<and>
     map_of e ''dimension'' =
       map_option (\<lambda>k. dict_get (source_container self ev) (Some k)) (dimension_key self) \<and>
     map_of e ''scroll_top'' =
       map_option (\<lambda>k. dict_get (source_container self ev) (Some k)) (scroll_top_key self) \<and>
     map_of e ''mouse_position'' =
       map_option (\<lambda>k. dict_get (source_container self ev) (Some k)) (mouse_position_key self) \<and>
     map_of e ''time'' = Some (dict_get (properties ev) (time_key self)) \<and>
     map_of e ''page'' = Some p \<and>
     (p = dict_get (properties ev) (page_key self) \<or>
      py_add (dict_get (properties ev) (page_key self))
        (dict_get (properties ev) (query_key self)) = Inr p)"
proof -
  from assms obtain sch src p where
    rs: "return_schema self = Inr sch" and
    src: "if truthy (dict_get (properties ev) (reproductive_data_key self))
          then dict_get (properties ev) (reproductive_data_key self) = JObj src
          else src = properties ev" and
    page: "if str_truthy (query_key self) \<and>
              (truthy (dict_get (properties ev) (reproductive_data_key self)) \<longrightarrow>
               truthy (dict_get (properties ev) (query_key self)))
           then py_add (dict_get (properties ev) (page_key self))
                  (dict_get (properties ev) (query_key self)) = Inr p
           else p = dict_get (properties ev) (page_key self)" and
    ps': "ps' = AList.update (v + 1)
             (AList.delete ''query''
                (AList.update ''page'' p
                   (AList.update ''time'' (dict_get (properties ev) (time_key self))
                      (fill_from_properties src sch [(''name'', event ev)])))) ps"
    by (rule parse_event_success)
  note f = stored_event_fields [OF rs, of p "dict_get (properties ev) (time_key self)" src "event ev"]
  note sc = source_container_success [OF src]
  from page have "p = dict_get (properties ev) (page_key self) \<or>
      py_add (dict_get (properties ev) (page_key self))
        (dict_get (properties ev) (query_key self)) = Inr p"
    by (simp split: if_splits)
  with ps' f(2,3,5,6,7) show ?thesis
    unfolding sc by (intro exI conjI)
qed

theorem nested_container_fields_witness:
  "parse_event
     \<lparr>reproductive_data_key = Some ''reproductive'', dimension_key = Some ''dimension'',
       scroll_top_key = Some ''scrollTop'', mouse_position_key = Some ''mousePosition'',
       time_key = Some ''time'', page_key = Some ''location'',
       query_key = Some ''searchArgs''\<rparr>
     \<lparr>event = JStr ''Page viewed'',
       properties =
         [(''time'', JInt 10), (''location'', JStr ''https://x/a''),
          (''searchArgs'', JStr ''?ref=1''), (''dimension'', JList [JInt 3, JInt 4]),
          (''reproductive'', JObj
              [(''time'', JInt 99), (''location'', JStr ''https://nested''),
               (''dimension'', JList [JInt 1, JInt 2])])]\<rparr>
     0 [] = (None, 1, [(1,
        [(''name'', JStr ''Page viewed''), (''dimension'', JList [JInt 1, JInt 2]),
         (''scroll_top'', JNull), (''mouse_position'', JNull), (''time'', JInt 10),
         (''page'', JStr ''https://x/a?ref=1'')])]) \<and>
   source_container
     \<lparr>reproductive_data_key = Some ''reproductive'', dimension_key = Some ''dimension'',
       scroll_top_key = Some ''scrollTop'', mouse_position_key = Some ''mousePosition'',
       time_key = Some ''time'', page_key = Some ''location'',
       query_key = Some ''searchArgs''\<rparr>
     \<lparr>event = JStr ''Page viewed'',
       properties =
         [(''time'', JInt 10), (''location'', JStr ''https://x/a''),
          (''searchArgs'', JStr ''?ref=1''), (''dimension'', JList [JInt 3, JInt 4]),
          (''reproductive'', JObj
              [(''time'', JInt 99), (''location'', JStr ''https://nested''),
               (''dimension'', JList [JInt 1, JInt 2])])]\<rparr> =
       [(''time'', JInt 99), (''location'', JStr ''https://nested''),
               (''dimension'', JList [JInt 1, JInt 2])] \<and>
   parse_event
     \<lparr>reproductive_data_key = Some ''reproductive'', dimension_key = Some ''dimension'',
       scroll_top_key = Some ''scrollTop'', mouse_position_key = Some ''mousePosition'',
       time_key = Some ''time'', page_key = Some ''location'',
       query_key = Some ''searchArgs''\<rparr>
     \<lparr>event = JStr ''Page viewed'',
       properties =
         [(''time'', JInt 10), (''location'', JStr ''https://x/a''),
          (''searchArgs'', JStr ''?ref=1''), (''dimension'', JList [JInt 3, JInt 4])]\<rparr>
     0 [] = (None, 1, [(1,
        [(''name'', JStr ''Page viewed''), (''dimension'', JList [JInt 3, JInt 4]),
         (''scroll_top'', JNull), (''mouse_position'', JNull), (''time'', JInt 10),
         (''page'', JStr ''https://x/a?ref=1'')])])"
proof -
  let ?s = "\<lparr>reproductive_data_key = Some ''reproductive'', dimension_key = Some ''dimension'',
       scroll_top_key = Some ''scrollTop'', mouse_position_key = Some ''mousePosition'',
       time_key = Some ''time'', page_key = Some ''location'',
       query_key = Some ''searchArgs''\<rparr>"
  let ?r = "\<lparr>event = JStr ''Page viewed'',
       properties =
         [(''time'', JInt 10), (''location'', JStr ''https://x/a''),
          (''searchArgs'', JStr ''?ref=1''), (''dimension'', JList [JInt 3, JInt 4]),
          (''reproductive'', JObj
              [(''time'', JInt 99), (''location'', JStr ''https://nested''),
               (''dimension'', JList [JInt 1, JInt 2])])]\<rparr>"
  let ?e = "[(''name'', JStr ''Page viewed''), (''dimension'', JList [JInt 1, JInt 2]),
         (''scroll_top'', JNull), (''mouse_position'', JNull), (''time'', JInt 10),
         (''page'', JStr ''https://x/a?ref=1'')]"
  have run: "parse_event ?s ?r 0 [] = (None, 1, [(1, ?e)])"
    by (simp add: parse_event_def return_schema_def dict_items_def dict_pop_def dict_get_def
        reproductive_branch_def properties_branch_def field_name_def py_replace_def
        str_truthy_def json_get_def Let_def)
  have sc: "source_container ?s ?r =
       [(''time'', JInt 99), (''location'', JStr ''https://nested''),
               (''dimension'', JList [JInt 1, JInt 2])]"
    by (simp add: source_container_def dict_get_def)
  have top: "parse_event ?s
     \<lparr>event = JStr ''Page viewed'',
       properties =
         [(''time'', JInt 10), (''location'', JStr ''https://x/a''),
          (''searchArgs'', JStr ''?ref=1''), (''dimension'', JList [JInt 3, JInt 4])]\<rparr>
     0 [] = (None, 1, [(1,
        [(''name'', JStr ''Page viewed''), (''dimension'', JList [JInt 3, JInt 4]),
         (''scroll_top'', JNull), (''mouse_position'', JNull), (''time'', JInt 10),
         (''page'', JStr ''https://x/a?ref=1'')])])"
    by (simp add: parse_event_def return_schema_def dict_items_def dict_pop_def dict_get_def
        reproductive_branch_def properties_branch_def field_name_def py_replace_def
        str_truthy_def json_get_def Let_def)
  from nested_container_fields [OF run] run sc top show ?thesis
    by (simp only: simp_thms)
qed

text \<open>
  C2 as stated fails for \<^verbatim>\<open>time\<close> and \<^verbatim>\<open>page\<close>: the nested dictionary of this record
  holds the time 99 and the page \<^verbatim>\<open>https://nested\<close>, and the parsed event has the
  top-level time 10 and the top-level page (with the top-level query appended).
\<close>

theorem nested_time_and_page_not_read:
  "parse_event
     \<lparr>reproductive_data_key = Some ''reproductive'', dimension_key = Some ''dimension'',
       scroll_top_key = Some ''scrollTop'', mouse_position_key = Some ''mousePosition'',
       time_key = Some ''time'', page_key = Some ''location'',
       query_key = Some ''searchArgs''\<rparr>
     \<lparr>event = JStr ''Page viewed'',
       properties =
         [(''time'', JInt 10), (''location'', JStr ''https://x/a''),
          (''searchArgs'', JStr ''?ref=1''), (''dimension'', JList [JInt 3, JInt 4]),
          (''reproductive'', JObj
              [(''time'', JInt 99), (''location'', JStr ''https://nested''),
               (''dimension'', JList [JInt 1, JInt 2])])]\<rparr>
     0 [] = (None, 1, [(1,
        [(''name'', JStr ''Page viewed''), (''dimension'', JList [JInt 1, JInt 2]),
         (''scroll_top'', JNull), (''mouse_position'', JNull), (''time'', JInt 10),
         (''page'', JStr ''https://x/a?ref=1'')])])"
  by (simp add: parse_event_def return_schema_def dict_items_def dict_pop_def dict_get_def
        reproductive_branch_def properties_branch_def field_name_def py_replace_def
        str_truthy_def json_get_def Let_def)

text \<open>
  C3 (the defect). The second branch appends the query value whenever \<^verbatim>\<open>query_key\<close> is
  configured, without the test of the value that the first branch makes: on a record
  with no nested container and no value under the query key, \<^verbatim>\<open>page + None\<close> raises
  \<^verbatim>\<open>TypeError\<close> and nothing is stored.
\<close>

theorem absent_query_raises:
  assumes "reproductive_data_key self \<noteq> None"
    and "str_truthy (query_key self)"
    and "\<not> truthy (dict_get (properties ev) (reproductive_data_key self))"
    and "dict_get (properties ev) (query_key self) = JNull"
  shows "parse_event self ev v ps = (Some TypeError, v, ps)"
proof -
  from assms(1) obtain sch where rs: "return_schema self = Inr sch"
    by (cases "reproductive_data_key self") (simp_all add: return_schema_cases)
  from assms(3) rs
  have "parse_event self ev v ps =
      properties_branch (properties ev) sch [(''name'', event ev)] v ps"
    by (simp add: parse_event_def Let_def)
  moreover have "py_add (dict_get (properties ev) (page_key self))
      (dict_get (properties ev) (query_key self)) = Inl TypeError"
    unfolding assms(4) by (rule py_add_None)
  ultimately show ?thesis
    using assms(2) by (simp add: properties_branch_result [OF rs] Let_def)
qed

theorem absent_query_raises_witness:
  "parse_event
     \<lparr>reproductive_data_key = Some ''reproductive'', dimension_key = Some ''dimension'',
       scroll_top_key = Some ''scrollTop'', mouse_position_key = Some ''mousePosition'',
       time_key = Some ''time'', page_key = Some ''location'',
       query_key = Some ''searchArgs''\<rparr>
     \<lparr>event = JStr ''Page viewed'',
       properties = [(''time'', JInt 10), (''location'', JStr ''https://x/a'')]\<rparr>
     0 [] = (Some TypeError, 0, [])"
  using absent_query_raises
    [of "\<lparr>reproductive_data_key = Some ''reproductive'', dimension_key = Some ''dimension'',
       scroll_top_key = Some ''scrollTop'', mouse_position_key = Some ''mousePosition'',
       time_key = Some ''time'', page_key = Some ''location'',
       query_key = Some ''searchArgs''\<rparr>"
        "\<lparr>event = JStr ''Page viewed'',
          properties = [(''time'', JInt 10), (''location'', JStr ''https://x/a'')]\<rparr>"
        0 "[]"]
  by (simp add: str_truthy_def dict_get_def)

text \<open>
  What holds of C3. When the page and the query value are strings and the query
  value is not empty, the stored page is the page followed by the query value, with
  nothing between them, in both branches; and no stored event has the field
  \<^verbatim>\<open>query\<close>.
\<close>

lemma query_appended_to_page:
  assumes ok: "parse_event self ev v ps = (None, v', ps')"
    and "str_truthy (query_key self)"
    and "dict_get (properties ev) (page_key self) = JStr a"
    and "dict_get (properties ev) (query_key self) = JStr b"
    and "b \<noteq> []"
  shows "\<exists>e. ps' = AList.update (v + 1) e ps \<and> map_of e ''page'' = Some (JStr (a @ b)) \<and>
             map_of e ''query'' = None"
proof -
  from ok obtain sch src p where
    rs: "return_schema self = Inr sch" and
    page: "if str_truthy (query_key self) \<and>
              (truthy (dict_get (properties ev) (reproductive_data_key self)) \<longrightarrow>
               truthy (dict_get (properties ev) (query_key self)))
           then py_add (dict_get (properties ev) (page_key self))
                  (dict_get (properties ev) (query_key self)) = Inr p
           else p = dict_get (properties ev) (page_key self)" and
    ps': "ps' = AList.update (v + 1)
             (AList.delete ''query''
                (AList.update ''page'' p
                   (AList.update ''time'' (dict_get (properties ev) (time_key self))
                      (fill_from_properties src sch [(''name'', event ev)])))) ps"
    by (rule parse_event_success)
  from page assms(2-5) have "p = JStr (a @ b)" by simp
  with ps' stored_event_fields(3,4) [OF rs, of p "dict_get (properties ev) (time_key self)" src "event ev"]
  show ?thesis by (intro exI conjI) simp_all
qed

lemma falsy_query_keeps_page:
  assumes ok: "parse_event self ev v ps = (None, v', ps')"
    and "truthy (dict_get (properties ev) (reproductive_data_key self))"
    and "\<not> truthy (dict_get (properties ev) (query_key self))"
  shows "\<exists>e. ps' = AList.update (v + 1) e ps \<and>
             map_of e ''page'' = Some (dict_get (properties ev) (page_key self)) \<and>
             map_of e ''query'' = None"
proof -
  from ok obtain sch src p where
    rs: "return_schema self = Inr sch" and
    page: "if str_truthy (query_key self) \<and>
              (truthy (dict_get (properties ev) (reproductive_data_key self)) \<longrightarrow>
               truthy (dict_get (properties ev) (query_key self)))
           then py_add (dict_get (properties ev) (page_key self))
                  (dict_get (properties ev) (query_key self)) = Inr p
           else p = dict_get (properties ev) (page_key self)" and
    ps': "ps' = AList.update (v + 1)
             (AList.delete ''query''
                (AList.update ''page'' p
                   (AList.update ''time'' (dict_get (properties ev) (time_key self))
                      (fill_from_properties src sch [(''name'', event ev)])))) ps"
    by (rule parse_event_success)
  from page assms(2,3) have "p = dict_get (properties ev) (page_key self)" by simp
  with ps' stored_event_fields(3,4) [OF rs, of p "dict_get (properties ev) (time_key self)" src "event ev"]
  show ?thesis by (intro exI conjI) simp_all
qed

lemma query_appended_example:
  "parse_event
     \<lparr>reproductive_data_key = Some ''reproductive'', dimension_key = Some ''dimension'',
       scroll_top_key = Some ''scrollTop'', mouse_position_key = Some ''mousePosition'',
       time_key = Some ''time'', page_key = Some ''location'',
       query_key = Some ''searchArgs''\<rparr>
     \<lparr>event = JStr ''Page viewed'',
       properties = [(''time'', JInt 10), (''location'', JStr ''https://x/a''),
                     (''searchArgs'', JStr ''?ref=1'')]\<rparr>
     0 [] =
   (None, 1,
    [(1, [(''name'', JStr ''Page viewed''), (''dimension'', JNull), (''scroll_top'', JNull),
          (''mouse_position'', JNull), (''time'', JInt 10),
          (''page'', JStr ''https://x/a?ref=1'')])])"
  by (simp add: parse_event_def return_schema_def dict_items_def dict_pop_def dict_get_def
        reproductive_branch_def properties_branch_def field_name_def py_replace_def
        str_truthy_def json_get_def Let_def)

text \<open>The schema dictionary is empty exactly when no slot but the first is configured.\<close>

lemma return_schema_empty:
  assumes "return_schema self = Inr sch"
  shows "sch = [] \<longleftrightarrow>
           dimension_key self = None \<and> scroll_top_key self = None \<and>
           mouse_position_key self = None \<and> time_key self = None \<and>
           page_key self = None \<and> query_key self = None"
proof
  note look = return_schema_lookup [OF assms]
  assume "sch = []"
  with look show "dimension_key self = None \<and> scroll_top_key self = None \<and>
           mouse_position_key self = None \<and> time_key self = None \<and>
           page_key self = None \<and> query_key self = None"
    by simp
next
  assume none: "dimension_key self = None \<and> scroll_top_key self = None \<and>
           mouse_position_key self = None \<and> time_key self = None \<and>
           page_key self = None \<and> query_key self = None"
  show "sch = []"
  proof (cases sch)
    case (Cons kv rest)
    obtain k v where "kv = (k, v)" by (cases kv)
    with Cons have "(k, v) \<in> set sch" by simp
    with none show ?thesis by (simp only: return_schema_members [OF assms] simp_thms option.distinct)
  qed
qed

text \<open>An iteration under a schema with no \<^verbatim>\<open>query_key\<close> always raises.\<close>

lemma parse_event_without_query_key:
  assumes "query_key self = None"
  shows "fst (parse_event self ev v ps) =
     Some (if reproductive_data_key self = None
           then KeyError (JStr ''reproductive_data_key'')
           else if truthy (dict_get (properties ev) (reproductive_data_key self)) \<and>
                   \<not> is_dict (dict_get (properties ev) (reproductive_data_key self)) \<and>
                   (dimension_key self \<noteq> None \<or> scroll_top_key self \<noteq> None \<or>
                    mouse_position_key self \<noteq> None \<or> time_key self \<noteq> None \<or>
                    page_key self \<noteq> None)
           then AttributeError
           else KeyError (JStr ''query''))"
proof (cases "reproductive_data_key self")
  case None
  then show ?thesis by (simp add: parse_event_def return_schema_cases)
next
  case (Some r)
  then obtain sch where rs: "return_schema self = Inr sch"
    by (simp add: return_schema_cases)
  let ?nested = "dict_get (properties ev) (reproductive_data_key self)"
  show ?thesis
  proof (cases "truthy ?nested")
    case False
    with rs assms Some show ?thesis
      by (simp add: parse_event_def Let_def properties_branch_result [OF rs] str_truthy_def)
  next
    case True
    show ?thesis
    proof (cases "is_dict ?nested")
      case dict: True
      then obtain d where d: "?nested = JObj d"
        by (cases ?nested) (simp_all add: is_dict_def)
      from True rs have "parse_event self ev v ps =
          reproductive_branch ?nested (properties ev) sch [(''name'', event ev)] v ps"
        by (simp add: parse_event_def Let_def)
      with assms Some dict show ?thesis
        unfolding d by (simp add: reproductive_branch_result [OF rs] Let_def str_truthy_def)
    next
      case no_dict: False
      then have "\<And>d. ?nested \<noteq> JObj d" by (auto simp: is_dict_def)
      note nd = reproductive_branch_no_dict [OF rs this, of "properties ev" "event ev" v ps]
      from True rs have "parse_event self ev v ps =
          reproductive_branch ?nested (properties ev) sch [(''name'', event ev)] v ps"
        by (simp add: parse_event_def Let_def)
      with nd True no_dict Some assms show ?thesis
        by (simp add: return_schema_empty [OF rs])
    qed
  qed
qed

text \<open>
  C10 (as the code has it). Under a schema with no \<^verbatim>\<open>query_key\<close>, parsing a non-empty
  list of records always raises, at the first record: \<^verbatim>\<open>KeyError\<close> from one of the two
  \<^verbatim>\<open>pop\<close> calls, except that a nested value that is true but no dictionary raises
  \<^verbatim>\<open>AttributeError\<close> in the loop over the configured slots before any \<^verbatim>\<open>pop\<close>. So a
  parse that returns has \<^verbatim>\<open>query_key\<close> configured or no records.
\<close>

theorem parse_without_query_key:
  assumes "Events_init evs sch0 parser = Inr self"
  shows "(query_key sch = None \<and> evs \<noteq> [] \<longrightarrow>
          fst (parse self sch) =
            Inl (if reproductive_data_key sch = None
                 then KeyError (JStr ''reproductive_data_key'')
                 else if truthy (dict_get (properties (hd evs)) (reproductive_data_key sch)) \<and>
                         \<not> is_dict (dict_get (properties (hd evs)) (reproductive_data_key sch)) \<and>
                         (dimension_key sch \<noteq> None \<or> scroll_top_key sch \<noteq> None \<or>
                          mouse_position_key sch \<noteq> None \<or> time_key sch \<noteq> None \<or>
                          page_key sch \<noteq> None)
                 then AttributeError
                 else KeyError (JStr ''query''))) \<and>
         ((\<exists>ps. fst (parse self sch) = Inr ps) \<longrightarrow> query_key sch \<noteq> None \<or> evs = [])"
proof -
  from assms have self: "events self = evs" "inital_parser self = ''mixpanel''"
    by (auto simp: Events_init_def ALLOWED_PARSERS_def split: if_splits)
  have raise: "fst (parse self sch) =
            Inl (if reproductive_data_key sch = None
                 then KeyError (JStr ''reproductive_data_key'')
                 else if truthy (dict_get (properties (hd evs)) (reproductive_data_key sch)) \<and>
                         \<not> is_dict (dict_get (properties (hd evs)) (reproductive_data_key sch)) \<and>
                         (dimension_key sch \<noteq> None \<or> scroll_top_key sch \<noteq> None \<or>
                          mouse_position_key sch \<noteq> None \<or> time_key sch \<noteq> None \<or>
                          page_key sch \<noteq> None)
                 then AttributeError
                 else KeyError (JStr ''query''))"
    if q: "query_key sch = None" and ne: "evs \<noteq> []"
  proof -
    from ne obtain ev rest where evs: "evs = ev # rest" by (cases evs) auto
    obtain r v' ps' where pe: "parse_event sch ev 0 (parsed_events self) = (r, v', ps')"
      by (cases "parse_event sch ev 0 (parsed_events self)")
    from parse_event_without_query_key [OF q, of ev 0 "parsed_events self"] pe
    have r: "r = Some (if reproductive_data_key sch = None
                 then KeyError (JStr ''reproductive_data_key'')
                 else if truthy (dict_get (properties ev) (reproductive_data_key sch)) \<and>
                         \<not> is_dict (dict_get (properties ev) (reproductive_data_key sch)) \<and>
                         (dimension_key sch \<noteq> None \<or> scroll_top_key sch \<noteq> None \<or>
                          mouse_position_key sch \<noteq> None \<or> time_key sch \<noteq> None \<or>
                          page_key sch \<noteq> None)
                 then AttributeError
                 else KeyError (JStr ''query''))"
      by simp
    show ?thesis
      unfolding evs list.sel
      by (simp add: parse_def perfom_parsing_def mixpanel_inital_parser_def self evs pe r
            del: not_None_eq)
  qed
  have "query_key sch \<noteq> None \<or> evs = []" if "\<exists>ps. fst (parse self sch) = Inr ps"
  proof (rule ccontr)
    assume "\<not> (query_key sch \<noteq> None \<or> evs = [])"
    then have "query_key sch = None" "evs \<noteq> []" by simp_all
    from raise [OF this] that show False by auto
  qed
  with raise show ?thesis by blast
qed

theorem parse_without_query_key_witness:
  "Events_init [\<lparr>event = JStr ''Button clicked'',
          properties = [(''time'', JInt 12),
            (''reproductive'', JObj [(''dimension'', JList [JInt 390, JInt 844])])]\<rparr>] None ''mixpanel'' =
     Inr \<lparr>events = [\<lparr>event = JStr ''Button clicked'',
          properties = [(''time'', JInt 12),
            (''reproductive'', JObj [(''dimension'', JList [JInt 390, JInt 844])])]\<rparr>],
       inital_parser = ''mixpanel'', schema = None, parsed_events = []\<rparr> \<and>
   fst (parse
     \<lparr>events = [\<lparr>event = JStr ''Button clicked'',
          properties = [(''time'', JInt 12),
            (''reproductive'', JObj [(''dimension'', JList [JInt 390, JInt 844])])]\<rparr>],
       inital_parser = ''mixpanel'', schema = None, parsed_events = []\<rparr>
     \<lparr>reproductive_data_key = Some ''reproductive'', dimension_key = Some ''dimension'',
       scroll_top_key = Some ''scrollTop'', mouse_position_key = Some ''mousePosition'',
       time_key = Some ''time'', page_key = Some ''location'',
       query_key = None\<rparr>) = Inl (KeyError (JStr ''query''))"
proof -
  have init: "Events_init [\<lparr>event = JStr ''Button clicked'',
          properties = [(''time'', JInt 12),
            (''reproductive'', JObj [(''dimension'', JList [JInt 390, JInt 844])])]\<rparr>] None ''mixpanel'' =
     Inr \<lparr>events = [\<lparr>event = JStr ''Button clicked'',
          properties = [(''time'', JInt 12),
            (''reproductive'', JObj [(''dimension'', JList [JInt 390, JInt 844])])]\<rparr>],
       inital_parser = ''mixpanel'', schema = None, parsed_events = []\<rparr>"
    by (simp add: Events_init_def ALLOWED_PARSERS_def)
  from parse_without_query_key [OF init,
    of "\<lparr>reproductive_data_key = Some ''reproductive'', dimension_key = Some ''dimension'',
       scroll_top_key = Some ''scrollTop'', mouse_position_key = Some ''mousePosition'',
       time_key = Some ''time'', page_key = Some ''location'',
       query_key = None\<rparr>"]
  show ?thesis
    by (simp add: init dict_get_def is_dict_def)
qed

text \<open>
  C10 as stated fails on the kind of the exception: here the value under
  \<^verbatim>\<open>reproductive_data_key\<close> is a non-empty string, and the first \<^verbatim>\<open>reproductive.get\<close>
  raises \<^verbatim>\<open>AttributeError\<close>, not \<^verbatim>\<open>KeyError\<close>.
\<close>

theorem parse_without_query_key_attribute_error:
  "Events_init [\<lparr>event = JStr ''Page viewed'',
          properties = [(''reproductive'', JStr ''yes'')]\<rparr>] None ''mixpanel'' =
     Inr \<lparr>events = [\<lparr>event = JStr ''Page viewed'',
          properties = [(''reproductive'', JStr ''yes'')]\<rparr>],
       inital_parser = ''mixpanel'', schema = None, parsed_events = []\<rparr> \<and>
   fst (parse
     \<lparr>events = [\<lparr>event = JStr ''Page viewed'',
          properties = [(''reproductive'', JStr ''yes'')]\<rparr>],
       inital_parser = ''mixpanel'', schema = None, parsed_events = []\<rparr>
     \<lparr>reproductive_data_key = Some ''reproductive'', dimension_key = Some ''dimension'',
       scroll_top_key = Some ''scrollTop'', mouse_position_key = Some ''mousePosition'',
       time_key = Some ''time'', page_key = Some ''location'',
       query_key = None\<rparr>) = Inl AttributeError"
  by (simp add: Events_init_def ALLOWED_PARSERS_def parse_def perfom_parsing_def mixpanel_inital_parser_def
        parse_event_def return_schema_def dict_items_def dict_pop_def dict_get_def
        reproductive_branch_def properties_branch_def field_name_def py_replace_def
        str_truthy_def json_get_def Let_def)

text \<open>
  C1 (the defect). The schema of the \<^verbatim>\<open>__main__\<close> block of \<^verbatim>\<open>parsers/mixpanel.py\<close> has six
  slots and no \<^verbatim>\<open>query_key\<close>. It is constructed without error, and parsing one record
  under it raises \<^verbatim>\<open>KeyError\<close> instead of returning one entry.
\<close>

theorem parse_main_schema_raises:
  "Schema_init (Some ''reproductive'') (Some ''dimension'') (Some ''scrollTop'')
     (Some ''mousePosition'') (Some ''time'') (Some ''location'') None =
     Inr \<lparr>reproductive_data_key = Some ''reproductive'', dimension_key = Some ''dimension'',
       scroll_top_key = Some ''scrollTop'', mouse_position_key = Some ''mousePosition'',
       time_key = Some ''time'', page_key = Some ''location'',
       query_key = None\<rparr> \<and>
   Events_init [\<lparr>event = JStr ''Page viewed'',
          properties = [(''time'', JInt 10), (''location'', JStr ''https://x/a''),
            (''dimension'', JList [JInt 390, JInt 844])]\<rparr>] None ''mixpanel'' =
     Inr \<lparr>events = [\<lparr>event = JStr ''Page viewed'',
          properties = [(''time'', JInt 10), (''location'', JStr ''https://x/a''),
            (''dimension'', JList [JInt 390, JInt 844])]\<rparr>],
       inital_parser = ''mixpanel'', schema = None, parsed_events = []\<rparr> \<and>
   fst (parse
     \<lparr>events = [\<lparr>event = JStr ''Page viewed'',
          properties = [(''time'', JInt 10), (''location'', JStr ''https://x/a''),
            (''dimension'', JList [JInt 390, JInt 844])]\<rparr>],
       inital_parser = ''mixpanel'', schema = None, parsed_events = []\<rparr>
     \<lparr>reproductive_data_key = Some ''reproductive'', dimension_key = Some ''dimension'',
       scroll_top_key = Some ''scrollTop'', mouse_position_key = Some ''mousePosition'',
       time_key = Some ''time'', page_key = Some ''location'',
       query_key = None\<rparr>) = Inl (KeyError (JStr ''query''))"
  by (simp add: Schema_init_def Events_init_def ALLOWED_PARSERS_def parse_def perfom_parsing_def mixpanel_inital_parser_def
        parse_event_def return_schema_def dict_items_def dict_pop_def dict_get_def
        reproductive_branch_def properties_branch_def field_name_def py_replace_def
        str_truthy_def json_get_def Let_def)

text \<open>
  What holds of C1: a parse that returns, on a fresh instance, returns one entry for
  each record, under the keys 1 to N in the order of the records, each with the name
  of its record.
\<close>

lemma update_new_key: "k \<notin> fst ` set al \<Longrightarrow> AList.update k v al = al @ [(k, v)]"
  by (induction al) auto

lemma parse_event_entry:
  assumes "parse_event self ev v ps = (None, v', ps')"
  shows "v' = v + 1 \<and> (\<exists>e. ps' = AList.update (v + 1) e ps \<and> map_of e ''name'' = Some (event ev))"
proof -
  from assms obtain sch src p where
    rs: "return_schema self = Inr sch" and
    v': "v' = v + 1" and
    ps': "ps' = AList.update (v + 1)
             (AList.delete ''query''
                (AList.update ''page'' p
                   (AList.update ''time'' (dict_get (properties ev) (time_key self))
                      (fill_from_properties src sch [(''name'', event ev)])))) ps"
    by (rule parse_event_success)
  let ?e = "AList.delete ''query''
                (AList.update ''page'' p
                   (AList.update ''time'' (dict_get (properties ev) (time_key self))
                      (fill_from_properties src sch [(''name'', event ev)])))"
  have name: "map_of ?e ''name'' = Some (event ev)"
    by (rule stored_event_fields(1) [OF rs])
  show ?thesis
  proof (intro conjI exI [of _ ?e])
    show "v' = v + 1" by (rule v')
    show "ps' = AList.update (v + 1) ?e ps" by (rule ps')
    show "map_of ?e ''name'' = Some (event ev)" by (rule name)
  qed
qed

lemma mixpanel_loop_entries:
  assumes "mixpanel_loop self evs v ps = (None, ps')"
    and "fst ` set ps \<subseteq> {1..v}" and "0 \<le> v"
  shows "\<exists>es. ps' = ps @ es \<and> map fst es = [v + 1..v + int (length evs)] \<and>
              map (\<lambda>entry. map_of (snd entry) ''name'') es = map (\<lambda>ev. Some (event ev)) evs"
  using assms
proof (induction evs arbitrary: v ps)
  case Nil
  then show ?case by simp
next
  case (Cons ev rest)
  obtain r v1 ps1 where pe: "parse_event self ev v ps = (r, v1, ps1)"
    by (cases "parse_event self ev v ps")
  with Cons.prems(1) have r: "r = None" and loop: "mixpanel_loop self rest v1 ps1 = (None, ps')"
    by (cases r; simp)+
  from parse_event_entry [OF pe [unfolded r]] obtain e where
    v1: "v1 = v + 1" and ps1: "ps1 = AList.update (v + 1) e ps" and
    name: "map_of e ''name'' = Some (event ev)"
    by auto
  from Cons.prems(2) have "v + 1 \<notin> fst ` set ps" by auto
  then have app: "ps1 = ps @ [(v + 1, e)]"
    unfolding ps1 by (rule update_new_key)
  with Cons.prems(2,3) have "fst ` set ps1 \<subseteq> {1..v1}" "0 \<le> v1"
    unfolding v1 by auto
  from Cons.IH [OF loop this] obtain es where
    es: "ps' = ps1 @ es" "map fst es = [v1 + 1..v1 + int (length rest)]"
      "map (\<lambda>entry. map_of (snd entry) ''name'') es = map (\<lambda>ev. Some (event ev)) rest"
    by auto
  have "[v + 1..v + int (length (ev # rest))] = (v + 1) # [v1 + 1..v1 + int (length rest)]"
  proof -
    have "v + int (length (ev # rest)) = v1 + int (length rest)" unfolding v1 by simp
    moreover have "v + 1 \<le> v1 + int (length rest)" unfolding v1 by simp
    ultimately show ?thesis
      unfolding v1 by (simp only: upto_rec1 [of "v + 1"] if_True)
  qed
  with es app name show ?case
    by (intro exI [of _ "(v + 1, e) # es"]) simp
qed

lemma parse_entries:
  assumes "Events_init evs sch0 parser = Inr self"
    and "fst (parse self sch) = Inr ps"
  shows "map fst ps = [1..int (length evs)] \<and>
         map (\<lambda>entry. map_of (snd entry) ''name'') ps = map (\<lambda>ev. Some (event ev)) evs"
proof (cases evs)
  case Nil
  with assms show ?thesis
    by (auto simp: Events_init_def parse_def perfom_parsing_def mixpanel_inital_parser_def
          split: if_splits)
next
  case (Cons ev rest)
  from assms(1) have self: "events self = evs" "inital_parser self = ''mixpanel''"
      "parsed_events self = []"
    by (auto simp: Events_init_def ALLOWED_PARSERS_def split: if_splits)
  obtain r ps1 where loop: "mixpanel_loop sch evs 0 [] = (r, ps1)"
    by (cases "mixpanel_loop sch evs 0 []")
  with assms(2) self Cons have "r = None" "ps1 = ps"
    by (cases r; simp add: parse_def perfom_parsing_def mixpanel_inital_parser_def)+
  with loop have "mixpanel_loop sch evs 0 [] = (None, ps)" by simp
  from mixpanel_loop_entries [OF this] show ?thesis by simp
qed

section \<open>Properties of the replay\<close>

lemma sleeps_append: "sleeps (g @ g') = sleeps g @ sleeps g'"
  by (induction g rule: sleeps.induct) simp_all

lemma navigations_append: "navigations (g @ g') = navigations g @ navigations g'"
  by (induction g rule: navigations.induct) simp_all

lemma dict_item_get: "dict_item d k = Inr v \<Longrightarrow> dict_get d (Some k) = v"
  by (simp add: dict_item_def dict_get_def split: option.splits)

lemma py_ne_None: "py_ne JNull page \<longleftrightarrow> page \<noteq> JNull"
  by (cases page) (simp_all add: py_ne_def)

text \<open>What each step of the loop body calls.\<close>

lemma and_then_Some: "and_then hist (g, Some e) f = (g, Some e)"
  by (simp add: and_then_def)

lemma and_then_None: "and_then hist (g, None) f = (g @ fst (f (hist @ g)), snd (f (hist @ g)))"
  by (simp add: and_then_def split: prod.splits)

lemma sleep_step_static:
  "sleep_step env (Some d) ev last_timestamp hist = ([Sleep d], env hist (Sleep d))"
  by (simp add: sleep_step_def call_def)

lemma sleep_step_recorded:
  assumes "num_of (dict_get ev (Some ''time'')) = Some t" and "num_of last_timestamp = Some p"
  shows "sleep_step env None ev last_timestamp hist =
           ([Sleep (if t - p < 0 then 3 else t - p)],
            env hist (Sleep (if t - p < 0 then 3 else t - p)))"
proof -
  from assms(1) obtain x where "map_of ev ''time'' = Some x" and "num_of x = Some t"
    by (cases "map_of ev ''time''") (simp_all add: dict_get_def)
  with assms(2) show ?thesis
    by (simp add: sleep_step_def dict_item_def py_sub_def call_def)
qed

lemma sleep_step_calls:
  "sleep_step env static ev last_timestamp hist = (g, r) \<Longrightarrow>
   g = [] \<and> r \<noteq> None \<or> (\<exists>d. g = [Sleep d])"
  by (auto simp: sleep_step_def call_def split: option.splits sum.splits)

lemma handler_step_calls:
  "sleeps (fst (handler_step env exec n ev last_location last_timestamp hist)) = []"
  by (simp add: handler_step_def call_def split: sum.splits)

lemma handler_step_default:
  "handler_step env False n ev last_location last_timestamp hist = (g, None) \<Longrightarrow>
   \<exists>page. map_of ev ''page'' = Some page \<and>
          navigations g = (if py_ne last_location page then [page] else [])"
  by (auto simp: handler_step_def call_def dict_item_def split: option.splits if_splits)

lemma scroll_step_calls:
  "sleeps (fst (scroll_step env ev hist)) = []"
  "navigations (fst (scroll_step env ev hist)) = []"
  by (simp_all add: scroll_step_def simulate_scroll_def call_def Let_def)

lemma click_step_calls:
  "sleeps (fst (click_step env ev hist)) = []"
  "navigations (fst (click_step env ev hist)) = []"
  by (simp_all add: click_step_def simulate_click_def call_def Let_def split: sum.splits)

text \<open>The calls of one iteration: those of the sleep step, then the rest, which never sleeps.\<close>

lemma simulate_event_sleep_first:
  "\<exists>rest. fst (simulate_event env static exec n ev last_timestamp last_location hist) =
            fst (sleep_step env static ev last_timestamp hist) @ rest \<and> sleeps rest = []"
proof -
  obtain g1 r1 where s: "sleep_step env static ev last_timestamp hist = (g1, r1)"
    by (cases "sleep_step env static ev last_timestamp hist")
  show ?thesis
  proof (cases r1)
    case (Some e)
    with s show ?thesis by (simp add: simulate_event_def and_then_Some)
  next
    case None
    obtain g2 r2 where h: "handler_step env exec n ev last_location last_timestamp (hist @ g1) = (g2, r2)"
      by (cases "handler_step env exec n ev last_location last_timestamp (hist @ g1)")
    from handler_step_calls [of env exec n ev last_location last_timestamp "hist @ g1"] h
    have g2: "sleeps g2 = []" by simp
    show ?thesis
    proof (cases r2)
      case (Some e)
      with s None h g2 show ?thesis
        by (simp add: simulate_event_def and_then_Some and_then_None)
    next
      case h_ok: None
      obtain g3 r3 where sc: "scroll_step env ev (hist @ g1 @ g2) = (g3, r3)"
        by (cases "scroll_step env ev (hist @ g1 @ g2)")
      from scroll_step_calls(1) [of env ev "hist @ g1 @ g2"] sc have g3: "sleeps g3 = []" by simp
      show ?thesis
      proof (cases r3)
        case (Some e)
        with s None h h_ok sc g2 g3 show ?thesis
          by (simp add: simulate_event_def and_then_Some and_then_None sleeps_append)
      next
        case sc_ok: None
        from click_step_calls(1) [of env ev "hist @ g1 @ g2 @ g3"]
        have "sleeps (fst (click_step env ev (hist @ g1 @ g2 @ g3))) = []" .
        with s None h h_ok sc sc_ok g2 g3 show ?thesis
          by (simp add: simulate_event_def and_then_Some and_then_None sleeps_append)
      qed
    qed
  qed
qed

text \<open>An iteration of the default handler that raises nothing navigates by the inequality.\<close>

lemma simulate_event_default_navigation:
  assumes "simulate_event env static False n ev last_timestamp last_location hist = (g, None)"
  shows "\<exists>page. map_of ev ''page'' = Some page \<and>
           navigations g = (if py_ne last_location page then [page] else [])"
proof -
  obtain g1 r1 where s: "sleep_step env static ev last_timestamp hist = (g1, r1)"
    by (cases "sleep_step env static ev last_timestamp hist")
  obtain g2 r2 where h: "handler_step env False n ev last_location last_timestamp (hist @ g1) = (g2, r2)"
    by (cases "handler_step env False n ev last_location last_timestamp (hist @ g1)")
  obtain g3 r3 where sc: "scroll_step env ev (hist @ g1 @ g2) = (g3, r3)"
    by (cases "scroll_step env ev (hist @ g1 @ g2)")
  obtain g4 r4 where c: "click_step env ev (hist @ g1 @ g2 @ g3) = (g4, r4)"
    by (cases "click_step env ev (hist @ g1 @ g2 @ g3)")
  from assms s have r1: "r1 = None"
    by (cases r1) (simp_all add: simulate_event_def and_then_Some)
  from assms s h r1 have r2: "r2 = None"
    by (cases r2) (simp_all add: simulate_event_def and_then_Some and_then_None)
  from assms s h sc r1 r2 have r3: "r3 = None"
    by (cases r3) (simp_all add: simulate_event_def and_then_Some and_then_None)
  from assms s h sc c r1 r2 r3 have g: "g = g1 @ g2 @ g3 @ g4"
    by (simp add: simulate_event_def and_then_None)
  from sleep_step_calls [OF s] r1 have "navigations g1 = []" by auto
  moreover from scroll_step_calls(2) [of env ev "hist @ g1 @ g2"] sc have "navigations g3 = []" by simp
  moreover from click_step_calls(2) [of env ev "hist @ g1 @ g2 @ g3"] c have "navigations g4 = []" by simp
  ultimately have "navigations g = navigations g2"
    unfolding g by (simp add: navigations_append)
  with handler_step_default [OF h [unfolded r2]] show ?thesis by simp
qed

text \<open>
  The loop, iteration by iteration: the calls of iteration \<open>i\<close> are those of the body
  on the \<open>i\<close>th event, with \<^verbatim>\<open>last_timestamp\<close> and \<^verbatim>\<open>last_location\<close> the time and the
  page of the event before it (the initial values for the first), and an iteration
  that is not the one the run ended in raised nothing.
\<close>

lemma simulation_loop_nth:
  assumes "simulation_loop env static exec evs ts loc hist = (gs, r)" and "i < length gs"
  shows "i < length evs \<and>
    (\<exists>h. fst (simulate_event env static exec (fst (evs ! i)) (snd (evs ! i))
               (if i = 0 then ts else dict_get (snd (evs ! (i - 1))) (Some ''time''))
               (if i = 0 then loc else dict_get (snd (evs ! (i - 1))) (Some ''page'')) h) = gs ! i \<and>
         (r = None \<or> Suc i < length gs \<longrightarrow>
          snd (simulate_event env static exec (fst (evs ! i)) (snd (evs ! i))
               (if i = 0 then ts else dict_get (snd (evs ! (i - 1))) (Some ''time''))
               (if i = 0 then loc else dict_get (snd (evs ! (i - 1))) (Some ''page'')) h) = None))"
  using assms
proof (induction evs arbitrary: ts loc hist gs r i)
  case Nil
  then show ?case by simp
next
  case (Cons nev rest)
  obtain n ev where nev: "nev = (n, ev)" by (cases nev)
  obtain g re where se: "simulate_event env static exec n ev ts loc hist = (g, re)"
    by (cases "simulate_event env static exec n ev ts loc hist")
  have first: ?case if "i = 0" and "gs ! 0 = g" and "r = None \<or> Suc 0 < length gs \<longrightarrow> re = None"
    using that se nev by (intro conjI exI [of _ hist]) simp_all
  show ?case
  proof (cases re)
    case (Some e)
    with Cons.prems se nev have "gs = [g]" "r = Some e" by simp_all
    with Cons.prems(2) show ?thesis by (intro first) simp_all
  next
    case None
    show ?thesis
    proof (cases "dict_item ev ''time''")
      case (Inl e)
      with Cons.prems se nev None have "gs = [g]" "r = Some e" by simp_all
      with Cons.prems(2) show ?thesis by (intro first) simp_all
    next
      case (Inr t)
      show ?thesis
      proof (cases "dict_item ev ''page''")
        case (Inl e)
        with Cons.prems se nev None \<open>dict_item ev ''time'' = Inr t\<close>
        have "gs = [g]" "r = Some e" by simp_all
        with Cons.prems(2) show ?thesis by (intro first) simp_all
      next
        case page: (Inr p)
        obtain gs' r' where loop: "simulation_loop env static exec rest t p (hist @ g) = (gs', r')"
          by (cases "simulation_loop env static exec rest t p (hist @ g)")
        with Cons.prems se nev None Inr page have gs: "gs = g # gs'" and r: "r = r'"
          by simp_all
        show ?thesis
        proof (cases i)
          case 0
          with gs None show ?thesis by (intro first) simp_all
        next
          case (Suc j)
          with Cons.prems(2) gs have j: "j < length gs'" by simp
          note ih = Cons.IH [OF loop j]
          have t: "dict_get ev (Some ''time'') = t" using Inr by (rule dict_item_get)
          have p: "dict_get ev (Some ''page'') = p" using page by (rule dict_item_get)
          have prev: "(if Suc j = 0 then x else dict_get (snd ((nev # rest) ! (Suc j - 1))) (Some f)) =
              (if j = 0 then dict_get ev (Some f) else dict_get (snd (rest ! (j - 1))) (Some f))"
            for x f
            using nev by (cases j) simp_all
          from ih show ?thesis
            unfolding Suc prev t p gs r by simp
        qed
      qed
    qed
  qed
qed

lemma perform_simulation_loop:
  assumes "perform_simulation env self static exec = (gs, r)" and "i < length gs"
  obtains ts where "dict_item (first_event self) ''time'' = Inr ts"
    and "simulation_loop env static exec (sim_events self) ts JNull [] = (gs, r)"
  using assms
  by (cases "dict_item (first_event self) ''time''") (simp_all add: perform_simulation_def)

text \<open>Exceptions of the environment in the calls of the replay.\<close>

lemma propagates_Nil: "propagates env hist [] r"
  by (simp add: propagates_def)

lemma propagates_call:
  assumes "\<And>e. \<not> swallowed a e"
  shows "propagates env hist (fst (call env hist a)) (snd (call env hist a))"
  using assms by (simp add: propagates_def call_def)

lemma propagates_None:
  assumes "propagates env hist g None"
  shows "propagates env hist g r"
  unfolding propagates_def
proof (intro allI impI)
  fix k e
  assume k: "k < length g \<and> \<not> is_print (g ! k) \<and> env (hist @ take k g) (g ! k) = Some e"
  with assms have "if swallowed (g ! k) e
      then Suc k < length g \<and> g ! Suc k = Print ''Simulating scroll failed''
      else None = Some e \<and> Suc k = length g"
    unfolding propagates_def by blast
  then show "if swallowed (g ! k) e
      then Suc k < length g \<and> g ! Suc k = Print ''Simulating scroll failed''
      else r = Some e \<and> Suc k = length g"
    by (simp split: if_splits)
qed

lemma propagates_append:
  assumes g1: "propagates env hist g1 None" and g2: "propagates env (hist @ g1) g2 r"
  shows "propagates env hist (g1 @ g2) r"
  unfolding propagates_def
proof (intro allI impI)
  fix k e
  assume k: "k < length (g1 @ g2) \<and> \<not> is_print ((g1 @ g2) ! k) \<and>
      env (hist @ take k (g1 @ g2)) ((g1 @ g2) ! k) = Some e"
  show "if swallowed ((g1 @ g2) ! k) e
      then Suc k < length (g1 @ g2) \<and> (g1 @ g2) ! Suc k = Print ''Simulating scroll failed''
      else r = Some e \<and> Suc k = length (g1 @ g2)"
  proof (cases "k < length g1")
    case True
    with k have "k < length g1 \<and> \<not> is_print (g1 ! k) \<and> env (hist @ take k g1) (g1 ! k) = Some e"
      by (simp add: nth_append)
    with g1 have "if swallowed (g1 ! k) e
        then Suc k < length g1 \<and> g1 ! Suc k = Print ''Simulating scroll failed''
        else None = Some e \<and> Suc k = length g1"
      unfolding propagates_def by blast
    with True show ?thesis
      by (simp add: nth_append split: if_splits)
  next
    case False
    define j where "j = k - length g1"
    with False have kj: "k = length g1 + j" by simp
    with k have "j < length g2 \<and> \<not> is_print (g2 ! j) \<and>
        env ((hist @ g1) @ take j g2) (g2 ! j) = Some e"
      by (simp add: nth_append)
    with g2 have "if swallowed (g2 ! j) e
        then Suc j < length g2 \<and> g2 ! Suc j = Print ''Simulating scroll failed''
        else r = Some e \<and> Suc j = length g2"
      unfolding propagates_def by blast
    then show ?thesis
      unfolding kj by (simp add: nth_append split: if_splits)
  qed
qed

lemma propagates_and_then:
  assumes "propagates env hist g1 r1"
    and "propagates env (hist @ g1) (fst (f (hist @ g1))) (snd (f (hist @ g1)))"
  shows "propagates env hist (fst (and_then hist (g1, r1) f)) (snd (and_then hist (g1, r1) f))"
proof (cases r1)
  case None
  with assms show ?thesis
    by (simp add: and_then_None propagates_append)
next
  case (Some e)
  with assms(1) show ?thesis by (simp add: and_then_Some)
qed

lemma propagates_simulate_scroll:
  "propagates env hist (fst (simulate_scroll env hist pixels))
     (snd (simulate_scroll env hist pixels))"
proof (cases "env hist (ExecuteScript pixels) = Some JavascriptException")
  case True
  then have s: "simulate_scroll env hist pixels =
      ([ExecuteScript pixels, Print ''Simulating scroll failed''], None)"
    by (simp add: simulate_scroll_def call_def)
  have "propagates env hist [ExecuteScript pixels, Print ''Simulating scroll failed''] None"
    unfolding propagates_def
  proof (intro allI impI)
    fix k e
    assume k: "k < length [ExecuteScript pixels, Print ''Simulating scroll failed''] \<and>
      \<not> is_print ([ExecuteScript pixels, Print ''Simulating scroll failed''] ! k) \<and>
      env (hist @ take k [ExecuteScript pixels, Print ''Simulating scroll failed''])
        ([ExecuteScript pixels, Print ''Simulating scroll failed''] ! k) = Some e"
    then have "k = 0 \<or> k = 1" by auto
    then have "k = 0" using k by (auto simp: is_print_def)
    with k True have "e = JavascriptException" by simp
    with \<open>k = 0\<close> show "if swallowed ([ExecuteScript pixels, Print ''Simulating scroll failed''] ! k) e
      then Suc k < length [ExecuteScript pixels, Print ''Simulating scroll failed''] \<and>
           [ExecuteScript pixels, Print ''Simulating scroll failed''] ! Suc k =
             Print ''Simulating scroll failed''
      else None = Some e \<and> Suc k = length [ExecuteScript pixels, Print ''Simulating scroll failed'']"
      by (simp add: swallowed_def)
  qed
  with s show ?thesis by simp
next
  case False
  then have "simulate_scroll env hist pixels =
      ([ExecuteScript pixels], env hist (ExecuteScript pixels))"
    by (simp add: simulate_scroll_def call_def)
  moreover from False have "propagates env hist [ExecuteScript pixels] (env hist (ExecuteScript pixels))"
    by (simp add: propagates_def swallowed_def)
  ultimately show ?thesis by simp
qed

lemma propagates_sleep_step:
  "propagates env hist (fst (sleep_step env static ev ts hist))
     (snd (sleep_step env static ev ts hist))"
proof -
  have c: "propagates env hist (fst (call env hist (Sleep d))) (snd (call env hist (Sleep d)))" for d
    by (rule propagates_call) (simp add: swallowed_def)
  show ?thesis
    by (simp add: sleep_step_def propagates_Nil c split: option.splits sum.splits)
qed

lemma propagates_handler_step:
  "propagates env hist (fst (handler_step env exec n ev loc ts hist))
     (snd (handler_step env exec n ev loc ts hist))"
proof -
  have c: "propagates env hist (fst (call env hist (Get page))) (snd (call env hist (Get page)))"
    for page
    by (rule propagates_call) (simp add: swallowed_def)
  have f: "propagates env hist (fst (call env hist (ExecuteFunction n ev loc ts)))
     (snd (call env hist (ExecuteFunction n ev loc ts)))"
    by (rule propagates_call) (simp add: swallowed_def)
  show ?thesis
    by (simp add: handler_step_def propagates_Nil c f split: sum.splits)
qed

lemma propagates_scroll_step:
  "propagates env hist (fst (scroll_step env ev hist)) (snd (scroll_step env ev hist))"
  by (simp add: scroll_step_def Let_def propagates_Nil propagates_simulate_scroll)

lemma propagates_click_step:
  "propagates env hist (fst (click_step env ev hist)) (snd (click_step env ev hist))"
proof -
  have c: "propagates env hist (fst (call env hist (Click x y))) (snd (call env hist (Click x y)))"
    for x y
    by (rule propagates_call) (simp add: swallowed_def)
  show ?thesis
    by (simp add: click_step_def Let_def simulate_click_def propagates_Nil c split: sum.splits)
qed

lemma propagates_simulate_event:
  "propagates env hist (fst (simulate_event env static exec n ev ts loc hist))
     (snd (simulate_event env static exec n ev ts loc hist))"
proof -
  obtain g1 r1 where s: "sleep_step env static ev ts hist = (g1, r1)"
    by (cases "sleep_step env static ev ts hist")
  from propagates_sleep_step [of env hist static ev ts] s
  have p1: "propagates env hist g1 r1" by simp
  let ?a = "and_then hist (g1, r1) (handler_step env exec n ev loc ts)"
  obtain g2 r2 where a: "?a = (g2, r2)" by (cases ?a)
  from propagates_and_then [where f = "handler_step env exec n ev loc ts", OF p1 propagates_handler_step] a
  have p2: "propagates env hist g2 r2" by simp
  let ?b = "and_then hist (g2, r2) (scroll_step env ev)"
  obtain g3 r3 where b: "?b = (g3, r3)" by (cases ?b)
  from propagates_and_then [where f = "scroll_step env ev", OF p2 propagates_scroll_step] b
  have p3: "propagates env hist g3 r3" by simp
  from propagates_and_then [where f = "click_step env ev", OF p3 propagates_click_step]
  show ?thesis
    by (simp add: simulate_event_def s a b)
qed

lemma propagates_simulation_loop:
  "simulation_loop env static exec evs ts loc hist = (gs, r) \<Longrightarrow>
   propagates env hist (concat gs) r"
proof (induction evs arbitrary: ts loc hist gs r)
  case Nil
  then show ?case by (simp add: propagates_Nil)
next
  case (Cons nev rest)
  obtain n ev where nev: "nev = (n, ev)" by (cases nev)
  obtain g re where se: "simulate_event env static exec n ev ts loc hist = (g, re)"
    by (cases "simulate_event env static exec n ev ts loc hist")
  from propagates_simulate_event [of env hist static exec n ev ts loc] se
  have pg: "propagates env hist g re" by simp
  show ?case
  proof (cases re)
    case (Some e)
    with Cons.prems se nev pg show ?thesis by auto
  next
    case None
    with pg have any: "propagates env hist g x" for x by (simp add: propagates_None)
    show ?thesis
    proof (cases "dict_item ev ''time''")
      case (Inl e)
      with Cons.prems se nev None any show ?thesis by auto
    next
      case (Inr t)
      show ?thesis
      proof (cases "dict_item ev ''page''")
        case (Inl e)
        with Cons.prems se nev None Inr any show ?thesis by auto
      next
        case page: (Inr p)
        obtain gs' r' where loop: "simulation_loop env static exec rest t p (hist @ g) = (gs', r')"
          by (cases "simulation_loop env static exec rest t p (hist @ g)")
        with Cons.prems se nev None Inr page have gs: "gs = g # gs'" and r: "r = r'"
          by simp_all
        from Cons.IH [OF loop] any [of None] show ?thesis
          unfolding gs r by (simp add: propagates_append)
      qed
    qed
  qed
qed

text \<open>
  When the only exceptions of the environment are swallowed ones, the steps of the
  loop body raise nothing on a replayable event.
\<close>

lemma no_exception:
  assumes "\<And>hist a e. env hist a = Some e \<Longrightarrow> swallowed a e" and "\<And>e. \<not> swallowed a e"
  shows "env hist a = None"
proof (cases "env hist a")
  case (Some e)
  with assms(1) [of hist a e] assms(2) [of e] show ?thesis by simp
qed simp

lemma sleep_step_completes:
  assumes benign: "\<And>hist a e. env hist a = Some e \<Longrightarrow> swallowed a e"
    and "static \<noteq> None \<or> num_of (dict_get ev (Some ''time'')) \<noteq> None \<and> num_of ts \<noteq> None"
  shows "snd (sleep_step env static ev ts hist) = None"
proof -
  have quiet: "env hist (Sleep d) = None" for d
    by (rule no_exception [OF benign]) (simp_all add: swallowed_def)
  show ?thesis
  proof (cases static)
    case (Some d)
    then show ?thesis by (simp add: sleep_step_static quiet)
  next
    case None
    with assms(2) obtain t p where "num_of (dict_get ev (Some ''time'')) = Some t"
      and "num_of ts = Some p" by auto
    from sleep_step_recorded [OF this] None show ?thesis by (simp add: quiet)
  qed
qed

lemma handler_step_completes:
  assumes benign: "\<And>hist a e. env hist a = Some e \<Longrightarrow> swallowed a e"
    and "map_of ev ''page'' \<noteq> None"
  shows "snd (handler_step env exec n ev loc ts hist) = None"
proof -
  have get: "env hist (Get page) = None" for page
    by (rule no_exception [OF benign]) (simp_all add: swallowed_def)
  have custom: "env hist (ExecuteFunction n ev loc ts) = None"
    by (rule no_exception [OF benign]) (simp_all add: swallowed_def)
  from assms(2) show ?thesis
    by (auto simp: handler_step_def call_def dict_item_def get custom)
qed

lemma scroll_step_completes:
  assumes benign: "\<And>hist a e. env hist a = Some e \<Longrightarrow> swallowed a e"
  shows "snd (scroll_step env ev hist) = None"
proof -
  have "snd (simulate_scroll env hist pixels) = None" for pixels
  proof (cases "env hist (ExecuteScript pixels)")
    case None
    then show ?thesis by (simp add: simulate_scroll_def call_def)
  next
    case (Some e)
    from benign [OF this] have "e = JavascriptException" by (simp add: swallowed_def)
    with Some show ?thesis by (simp add: simulate_scroll_def call_def)
  qed
  then show ?thesis by (simp add: scroll_step_def Let_def)
qed

lemma click_step_completes:
  assumes benign: "\<And>hist a e. env hist a = Some e \<Longrightarrow> swallowed a e"
    and "\<not> truthy (dict_get ev (Some ''mouse_position'')) \<or>
         subscriptable (dict_get ev (Some ''mouse_position'')) 0 \<and>
         subscriptable (dict_get ev (Some ''mouse_position'')) 1"
  shows "snd (click_step env ev hist) = None"
proof -
  have click: "env hist (Click x y) = None" for x y
    by (rule no_exception [OF benign]) (simp_all add: swallowed_def)
  from assms(2) show ?thesis
    by (auto simp: click_step_def Let_def simulate_click_def call_def subscriptable_def click
          split: sum.splits)
qed

lemma simulate_event_completes:
  assumes benign: "\<And>hist a e. env hist a = Some e \<Longrightarrow> swallowed a e"
    and ev: "replayable static ev" and ts: "static \<noteq> None \<or> num_of ts \<noteq> None"
  shows "snd (simulate_event env static exec n ev ts loc hist) = None"
proof -
  from ev ts have "static \<noteq> None \<or> num_of (dict_get ev (Some ''time'')) \<noteq> None \<and> num_of ts \<noteq> None"
    by (auto simp: replayable_def)
  note s = sleep_step_completes [OF benign this]
  from ev have "map_of ev ''page'' \<noteq> None" by (simp add: replayable_def)
  note h = handler_step_completes [OF benign this]
  note sc = scroll_step_completes [OF benign]
  from ev have "\<not> truthy (dict_get ev (Some ''mouse_position'')) \<or>
         subscriptable (dict_get ev (Some ''mouse_position'')) 0 \<and>
         subscriptable (dict_get ev (Some ''mouse_position'')) 1"
    by (simp add: replayable_def)
  note c = click_step_completes [OF benign this]
  have step: "snd (and_then hist first second) = None"
    if "snd first = None" and "\<And>h. snd (second h) = None" for first second
    using that by (cases first) (simp add: and_then_None)
  show ?thesis
    unfolding simulate_event_def
    by (intro step s h sc c)
qed

lemma simulation_loop_completes:
  assumes benign: "\<And>hist a e. env hist a = Some e \<Longrightarrow> swallowed a e"
    and "list_all (\<lambda>(n, ev). replayable static ev) evs"
    and "static \<noteq> None \<or> num_of ts \<noteq> None"
  shows "\<exists>gs. simulation_loop env static exec evs ts loc hist = (gs, None) \<and>
              length gs = length evs"
  using assms(2,3)
proof (induction evs arbitrary: ts loc hist)
  case Nil
  show ?case by simp
next
  case (Cons nev rest)
  obtain n ev where nev: "nev = (n, ev)" by (cases nev)
  with Cons.prems have ev: "replayable static ev"
    and rest: "list_all (\<lambda>(n, ev). replayable static ev) rest" by simp_all
  obtain g re where se: "simulate_event env static exec n ev ts loc hist = (g, re)"
    by (cases "simulate_event env static exec n ev ts loc hist")
  with simulate_event_completes [where env = env and exec = exec and n = n and loc = loc
      and hist = hist, OF benign ev Cons.prems(2)]
  have re: "re = None" by simp
  from ev obtain t p where t: "map_of ev ''time'' = Some t" and p: "map_of ev ''page'' = Some p"
    by (auto simp: replayable_def)
  from ev t have "static \<noteq> None \<or> num_of t \<noteq> None"
    by (auto simp: replayable_def dict_get_def)
  from Cons.IH [OF rest this, of p "hist @ g"] obtain gs where
    "simulation_loop env static exec rest t p (hist @ g) = (gs, None)" "length gs = length rest"
    by auto
  with se re t p nev show ?case
    by (simp add: dict_item_def)
qed

text \<open>An iteration that raises nothing makes exactly the calls written out above.\<close>

lemma sleep_step_quiet:
  assumes "sleep_step env static ev ts hist = (g, None)"
  shows "g = [Sleep (iteration_delay static ev ts)]"
proof (cases static)
  case (Some d)
  with assms show ?thesis by (simp add: sleep_step_static iteration_delay_def)
next
  case None
  from assms None obtain t where t: "dict_item ev ''time'' = Inr t"
    by (cases "dict_item ev ''time''") (simp_all add: sleep_step_def)
  from assms None t obtain d where "py_sub t ts = Inr d"
    by (cases "py_sub t ts") (simp_all add: sleep_step_def)
  then obtain a b where a: "num_of t = Some a" and b: "num_of ts = Some b"
    by (auto simp: py_sub_def split: option.splits)
  from t have "dict_get ev (Some ''time'') = t" by (rule dict_item_get)
  with a have "num_of (dict_get ev (Some ''time'')) = Some a" by simp
  from sleep_step_recorded [OF this b, of env hist] assms None a b
    \<open>dict_get ev (Some ''time'') = t\<close>
  show ?thesis by (simp add: iteration_delay_def)
qed

lemma handler_step_quiet:
  assumes "handler_step env exec n ev loc ts hist = (g, None)"
  shows "g = (if exec then [ExecuteFunction n ev loc ts]
              else if py_ne loc (dict_get ev (Some ''page''))
                   then [Get (dict_get ev (Some ''page''))] else [])"
proof (cases exec)
  case True
  with assms show ?thesis by (simp add: handler_step_def call_def)
next
  case False
  from assms False obtain page where page: "dict_item ev ''page'' = Inr page"
    by (cases "dict_item ev ''page''") (simp_all add: handler_step_def)
  then have "dict_get ev (Some ''page'') = page" by (rule dict_item_get)
  with assms False page show ?thesis
    by (simp add: handler_step_def call_def split: if_splits)
qed

lemma scroll_step_quiet:
  assumes "scroll_step env ev hist = (g, None)"
  shows "g = (if truthy (dict_get ev (Some ''scroll_top''))
              then (if env hist (ExecuteScript (dict_get ev (Some ''scroll_top''))) =
                         Some JavascriptException
                    then [ExecuteScript (dict_get ev (Some ''scroll_top'')),
                          Print ''Simulating scroll failed'']
                    else [ExecuteScript (dict_get ev (Some ''scroll_top''))])
              else [])"
  using assms
  by (simp add: scroll_step_def Let_def simulate_scroll_def call_def split: if_splits)

lemma click_step_quiet:
  assumes "click_step env ev hist = (g, None)"
  shows "g = (if truthy (dict_get ev (Some ''mouse_position''))
              then (case (py_index (dict_get ev (Some ''mouse_position'')) 0,
                          py_index (dict_get ev (Some ''mouse_position'')) 1) of
                      (Inr x, Inr y) \<Rightarrow> [Click x y]
                    | _ \<Rightarrow> [])
              else [])"
proof (cases "truthy (dict_get ev (Some ''mouse_position''))")
  case False
  with assms show ?thesis by (simp add: click_step_def Let_def)
next
  case True
  let ?mp = "dict_get ev (Some ''mouse_position'')"
  from assms True obtain x where x: "py_index ?mp 0 = Inr x"
    by (cases "py_index ?mp 0") (simp_all add: click_step_def Let_def)
  from assms True x obtain y where y: "py_index ?mp 1 = Inr y"
    by (cases "py_index ?mp 1") (simp_all add: click_step_def Let_def)
  from assms True x y show ?thesis
    by (simp add: click_step_def Let_def simulate_click_def call_def)
qed

lemma simulate_event_quiet:
  assumes "simulate_event env static exec n ev ts loc hist = (g, None)"
  shows "g = iteration_calls env static exec n ev ts loc hist"
proof -
  obtain g1 r1 where s: "sleep_step env static ev ts hist = (g1, r1)"
    by (cases "sleep_step env static ev ts hist")
  obtain g2 r2 where h: "handler_step env exec n ev loc ts (hist @ g1) = (g2, r2)"
    by (cases "handler_step env exec n ev loc ts (hist @ g1)")
  obtain g3 r3 where sc: "scroll_step env ev (hist @ g1 @ g2) = (g3, r3)"
    by (cases "scroll_step env ev (hist @ g1 @ g2)")
  obtain g4 r4 where c: "click_step env ev (hist @ g1 @ g2 @ g3) = (g4, r4)"
    by (cases "click_step env ev (hist @ g1 @ g2 @ g3)")
  from assms s have r1: "r1 = None"
    by (cases r1) (simp_all add: simulate_event_def and_then_Some)
  from assms s h r1 have r2: "r2 = None"
    by (cases r2) (simp_all add: simulate_event_def and_then_Some and_then_None)
  from assms s h sc r1 r2 have r3: "r3 = None"
    by (cases r3) (simp_all add: simulate_event_def and_then_Some and_then_None)
  from assms s h sc c r1 r2 r3 have r4: "r4 = None" and g: "g = g1 @ g2 @ g3 @ g4"
    by (simp_all add: simulate_event_def and_then_None)
  note g1 = sleep_step_quiet [OF s [unfolded r1]]
  note g2 = handler_step_quiet [OF h [unfolded r2]]
  note g3 = scroll_step_quiet [OF sc [unfolded r3]]
  note g4 = click_step_quiet [OF c [unfolded r4]]
  have "g1 @ g2 @ g3 @ g4 = iteration_calls env static exec n ev ts loc hist"
    unfolding iteration_calls_def Let_def
    by (simp only: g4 g3 g2 g1)
  with g show ?thesis by simp
qed

text \<open>
  The loop with the calls made before each iteration: iteration \<open>i\<close> starts after the
  calls of the iterations before it, no iteration is started beyond the events, and a
  run that raised nothing went through every event.
\<close>

lemma simulation_loop_history:
  assumes "simulation_loop env static exec evs ts loc hist = (gs, r)" and "i < length gs"
  shows "i < length evs \<and>
    fst (simulate_event env static exec (fst (evs ! i)) (snd (evs ! i))
           (if i = 0 then ts else dict_get (snd (evs ! (i - 1))) (Some ''time''))
           (if i = 0 then loc else dict_get (snd (evs ! (i - 1))) (Some ''page''))
           (hist @ concat (take i gs))) = gs ! i \<and>
    (r = None \<or> Suc i < length gs \<longrightarrow>
     snd (simulate_event env static exec (fst (evs ! i)) (snd (evs ! i))
           (if i = 0 then ts else dict_get (snd (evs ! (i - 1))) (Some ''time''))
           (if i = 0 then loc else dict_get (snd (evs ! (i - 1))) (Some ''page''))
           (hist @ concat (take i gs))) = None)"
  using assms
proof (induction evs arbitrary: ts loc hist gs r i)
  case Nil
  then show ?case by simp
next
  case (Cons nev rest)
  obtain n ev where nev: "nev = (n, ev)" by (cases nev)
  obtain g re where se: "simulate_event env static exec n ev ts loc hist = (g, re)"
    by (cases "simulate_event env static exec n ev ts loc hist")
  have first: ?case if "i = 0" and "gs ! 0 = g" and "r = None \<or> Suc 0 < length gs \<longrightarrow> re = None"
    using that se nev by simp
  show ?case
  proof (cases re)
    case (Some e)
    with Cons.prems se nev have "gs = [g]" "r = Some e" by simp_all
    with Cons.prems(2) show ?thesis by (intro first) simp_all
  next
    case None
    show ?thesis
    proof (cases "dict_item ev ''time''")
      case (Inl e)
      with Cons.prems se nev None have "gs = [g]" "r = Some e" by simp_all
      with Cons.prems(2) show ?thesis by (intro first) simp_all
    next
      case (Inr t)
      show ?thesis
      proof (cases "dict_item ev ''page''")
        case (Inl e)
        with Cons.prems se nev None \<open>dict_item ev ''time'' = Inr t\<close>
        have "gs = [g]" "r = Some e" by simp_all
        with Cons.prems(2) show ?thesis by (intro first) simp_all
      next
        case page: (Inr p)
        obtain gs' r' where loop: "simulation_loop env static exec rest t p (hist @ g) = (gs', r')"
          by (cases "simulation_loop env static exec rest t p (hist @ g)")
        with Cons.prems se nev None Inr page have gs: "gs = g # gs'" and r: "r = r'"
          by simp_all
        show ?thesis
        proof (cases i)
          case 0
          with gs None show ?thesis by (intro first) simp_all
        next
          case (Suc j)
          with Cons.prems(2) gs have j: "j < length gs'" by simp
          note ih = Cons.IH [OF loop j]
          have t: "dict_get ev (Some ''time'') = t" using Inr by (rule dict_item_get)
          have p: "dict_get ev (Some ''page'') = p" using page by (rule dict_item_get)
          have prev: "(if Suc j = 0 then x else dict_get (snd ((nev # rest) ! (Suc j - 1))) (Some f)) =
              (if j = 0 then dict_get ev (Some f) else dict_get (snd (rest ! (j - 1))) (Some f))"
            for x f
            using nev by (cases j) simp_all
          from ih show ?thesis
            unfolding Suc prev t p gs r by simp
        qed
      qed
    qed
  qed
qed

lemma simulation_loop_length:
  assumes "simulation_loop env static exec evs ts loc hist = (gs, r)"
  shows "length gs \<le> length evs \<and> (r = None \<longrightarrow> length gs = length evs)"
  using assms
proof (induction evs arbitrary: ts loc hist gs r)
  case Nil
  then show ?case by simp
next
  case (Cons nev rest)
  obtain n ev where nev: "nev = (n, ev)" by (cases nev)
  obtain g re where se: "simulate_event env static exec n ev ts loc hist = (g, re)"
    by (cases "simulate_event env static exec n ev ts loc hist")
  show ?case
  proof (cases re)
    case (Some e)
    with Cons.prems se nev show ?thesis by auto
  next
    case None
    show ?thesis
    proof (cases "dict_item ev ''time''")
      case (Inl e)
      with Cons.prems se nev None show ?thesis by auto
    next
      case (Inr t)
      show ?thesis
      proof (cases "dict_item ev ''page''")
        case (Inl e)
        with Cons.prems se nev None Inr show ?thesis by auto
      next
        case page: (Inr p)
        obtain gs' r' where loop: "simulation_loop env static exec rest t p (hist @ g) = (gs', r')"
          by (cases "simulation_loop env static exec rest t p (hist @ g)")
        with Cons.prems se nev None Inr page have gs: "gs = g # gs'" and r: "r = r'"
          by simp_all
        from Cons.IH [OF loop] show ?thesis unfolding gs r by simp
      qed
    qed
  qed
qed

text \<open>
  The same for \<^verbatim>\<open>perform_simulation\<close>, which starts the loop with the time of the first
  event, \<^verbatim>\<open>None\<close> as the last location, and no call made. A completed iteration made
  exactly the calls of \<open>iteration_calls\<close>.
\<close>

lemma perform_simulation_length:
  assumes "perform_simulation env self static exec = (gs, r)"
  shows "length gs \<le> length (sim_events self) \<and>
         (r = None \<longrightarrow> length gs = length (sim_events self))"
proof (cases "dict_item (first_event self) ''time''")
  case (Inl e)
  with assms show ?thesis by (auto simp: perform_simulation_def)
next
  case (Inr ts)
  with assms have "simulation_loop env static exec (sim_events self) ts JNull [] = (gs, r)"
    by (simp add: perform_simulation_def)
  then show ?thesis by (rule simulation_loop_length)
qed

lemma perform_simulation_iteration:
  assumes "perform_simulation env self static exec = (gs, r)" and "i < length gs"
    and "r = None \<or> Suc i < length gs"
  shows "gs ! i =
     iteration_calls env static exec (fst (sim_events self ! i)) (snd (sim_events self ! i))
       (if i = 0 then dict_get (first_event self) (Some ''time'')
        else dict_get (snd (sim_events self ! (i - 1))) (Some ''time''))
       (if i = 0 then JNull else dict_get (snd (sim_events self ! (i - 1))) (Some ''page''))
       (concat (take i gs))"
proof -
  from assms(1,2) obtain ts where ts: "dict_item (first_event self) ''time'' = Inr ts"
    and loop: "simulation_loop env static exec (sim_events self) ts JNull [] = (gs, r)"
    by (rule perform_simulation_loop)
  from ts have get: "dict_get (first_event self) (Some ''time'') = ts" by (rule dict_item_get)
  let ?run = "simulate_event env static exec (fst (sim_events self ! i)) (snd (sim_events self ! i))
       (if i = 0 then ts else dict_get (snd (sim_events self ! (i - 1))) (Some ''time''))
       (if i = 0 then JNull else dict_get (snd (sim_events self ! (i - 1))) (Some ''page''))
       ([] @ concat (take i gs))"
  from simulation_loop_history [OF loop assms(2)] assms(3)
  have "fst ?run = gs ! i" and "snd ?run = None" by simp_all
  then have "?run = (gs ! i, None)" by (simp add: prod_eq_iff)
  from simulate_event_quiet [OF this] show ?thesis unfolding get by simp
qed

lemma perform_simulation_completes:
  assumes "UserSimulation_init evs = Inr self"
    and all: "list_all (\<lambda>(n, ev). replayable static ev) evs"
    and benign: "\<And>hist a e. env hist a = Some e \<Longrightarrow> swallowed a e"
  shows "\<exists>gs. perform_simulation env self static exec = (gs, None) \<and> length gs = length evs"
proof -
  from assms(1) obtain n first rest where evs: "evs = (n, first) # rest"
    and self: "sim_events self = evs" "first_event self = first"
    by (cases evs) (auto simp: UserSimulation_init_def split: sum.splits prod.splits)
  from all evs have first: "replayable static first" by simp
  then obtain ts where ts: "map_of first ''time'' = Some ts" by (auto simp: replayable_def)
  with first have "static \<noteq> None \<or> num_of ts \<noteq> None"
    by (auto simp: replayable_def dict_get_def)
  from simulation_loop_completes [where env = env and exec = exec and loc = JNull
      and hist = "[]", OF benign all this] ts self
  show ?thesis
    by (simp add: perform_simulation_def dict_item_def)
qed

lemma UserSimulation_init_events:
  assumes "UserSimulation_init evs = Inr self"
  shows "sim_events self = evs \<and> evs \<noteq> [] \<and> first_event self = snd (hd evs)"
  using assms
  by (cases evs) (auto simp: UserSimulation_init_def split: sum.splits prod.splits)

text \<open>
  An iteration of the default handler, whether it raised or not, navigates at most
  once, and only to the page of its event when that page differs from the last one.
\<close>

lemma and_then_navigations:
  "navigations (fst (and_then hist first second)) =
     navigations (fst first) @
     (case snd first of
        None \<Rightarrow> navigations (fst (second (hist @ fst first)))
      | Some e \<Rightarrow> [])"
  by (cases first; cases "snd first")
    (simp_all add: and_then_def navigations_append split: prod.splits)

lemma sleep_step_navigations:
  "navigations (fst (sleep_step env static ev last_timestamp hist)) = []"
  by (simp add: sleep_step_def call_def split: option.splits sum.splits)

lemma handler_step_navigations:
  "navigations (fst (handler_step env False n ev last_location last_timestamp hist)) = [] \<or>
   py_ne last_location (dict_get ev (Some ''page'')) \<and>
   navigations (fst (handler_step env False n ev last_location last_timestamp hist)) =
     [dict_get ev (Some ''page'')]"
proof (cases "dict_item ev ''page''")
  case (Inl e)
  then show ?thesis by (simp add: handler_step_def)
next
  case (Inr page)
  then have "dict_get ev (Some ''page'') = page" by (rule dict_item_get)
  with Inr show ?thesis by (simp add: handler_step_def call_def)
qed

lemma simulate_event_navigations:
  "navigations (fst (simulate_event env static False n ev last_timestamp last_location hist)) = [] \<or>
   py_ne last_location (dict_get ev (Some ''page'')) \<and>
   navigations (fst (simulate_event env static False n ev last_timestamp last_location hist)) =
     [dict_get ev (Some ''page'')]"
proof -
  let ?s = "sleep_step env static ev last_timestamp hist"
  let ?h = "handler_step env False n ev last_location last_timestamp (hist @ fst ?s)"
  have "navigations (fst (simulate_event env static False n ev last_timestamp last_location hist)) =
        (case snd ?s of None \<Rightarrow> navigations (fst ?h) | Some e \<Rightarrow> [])"
    unfolding simulate_event_def and_then_navigations
    by (simp add: sleep_step_navigations scroll_step_calls click_step_calls
          split: option.splits)
  with handler_step_navigations [of env n ev last_location last_timestamp "hist @ fst ?s"]
  show ?thesis by (cases "snd ?s") auto
qed

text \<open>
  C5 (as the code has it). A run with the default handler (no \<^verbatim>\<open>execute_function\<close>)
  starts no iteration beyond the events and, when it raised nothing, went through
  every event; it raises nothing when the events are those the replay was built from,
  the loop body accepts them, and the browser raises nothing but swallowed scroll
  failures. Every started iteration navigates at most once, and only to the page of
  its event when that page differs (by \<^verbatim>\<open>!=\<close>) from the last location. An iteration
  that raised nothing navigates exactly when the page of its event differs from the
  page of the event before it, and from \<^verbatim>\<open>None\<close> for the first event: the first event
  navigates exactly when its page is not \<^verbatim>\<open>None\<close>. Events are counted from 0 here.
\<close>

theorem default_handler_navigation:
  assumes "perform_simulation env self static False = (gs, r)"
  shows "length gs \<le> length (sim_events self) \<and>
     (r = None \<longrightarrow> length gs = length (sim_events self)) \<and>
     (UserSimulation_init (sim_events self) = Inr self \<and>
      list_all (\<lambda>(n, ev). replayable static ev) (sim_events self) \<and>
      (\<forall>h a e. env h a = Some e \<longrightarrow> swallowed a e) \<longrightarrow> r = None) \<and>
     (\<forall>i. i < length gs \<longrightarrow>
        (navigations (gs ! i) = [] \<or>
         py_ne (if i = 0 then JNull
                else dict_get (snd (sim_events self ! (i - 1))) (Some ''page''))
               (dict_get (snd (sim_events self ! i)) (Some ''page'')) \<and>
         navigations (gs ! i) = [dict_get (snd (sim_events self ! i)) (Some ''page'')]) \<and>
        (r = None \<or> Suc i < length gs \<longrightarrow>
           navigations (gs ! i) =
             (if py_ne (if i = 0 then JNull
                        else dict_get (snd (sim_events self ! (i - 1))) (Some ''page''))
                       (dict_get (snd (sim_events self ! i)) (Some ''page''))
              then [dict_get (snd (sim_events self ! i)) (Some ''page'')] else []) \<and>
           (i = 0 \<longrightarrow>
            navigations (gs ! i) =
              (if dict_get (snd (sim_events self ! i)) (Some ''page'') \<noteq> JNull
               then [dict_get (snd (sim_events self ! i)) (Some ''page'')] else []))))"
proof (intro conjI allI impI)
  from perform_simulation_length [OF assms]
  show "length gs \<le> length (sim_events self)" by simp
next
  assume "r = None"
  with perform_simulation_length [OF assms]
  show "length gs = length (sim_events self)" by simp
next
  assume a: "UserSimulation_init (sim_events self) = Inr self \<and>
      list_all (\<lambda>(n, ev). replayable static ev) (sim_events self) \<and>
      (\<forall>h a e. env h a = Some e \<longrightarrow> swallowed a e)"
  then have benign: "\<And>hist a e. env hist a = Some e \<Longrightarrow> swallowed a e" by blast
  from a have init: "UserSimulation_init (sim_events self) = Inr self"
    and all: "list_all (\<lambda>(n, ev). replayable static ev) (sim_events self)" by simp_all
  from perform_simulation_completes [where env = env and exec = False, OF init all benign] assms
  show "r = None" by auto
next
  fix i
  assume i: "i < length gs"
  let ?ev = "snd (sim_events self ! i)"
  let ?prev = "if i = 0 then JNull else dict_get (snd (sim_events self ! (i - 1))) (Some ''page'')"
  from assms i obtain ts where
    loop: "simulation_loop env static False (sim_events self) ts JNull [] = (gs, r)"
    by (rule perform_simulation_loop)
  let ?run = "simulate_event env static False (fst (sim_events self ! i)) ?ev
               (if i = 0 then ts else dict_get (snd (sim_events self ! (i - 1))) (Some ''time''))
               ?prev ([] @ concat (take i gs))"
  from simulation_loop_history [OF loop i] have
    fst: "fst ?run = gs ! i" and
    snd: "r = None \<or> Suc i < length gs \<longrightarrow> snd ?run = None"
    by simp_all
  from simulate_event_navigations [of env static "fst (sim_events self ! i)" ?ev
      "if i = 0 then ts else dict_get (snd (sim_events self ! (i - 1))) (Some ''time'')" ?prev
      "[] @ concat (take i gs)"]
  show "navigations (gs ! i) = [] \<or>
         py_ne ?prev (dict_get ?ev (Some ''page'')) \<and>
         navigations (gs ! i) = [dict_get ?ev (Some ''page'')]"
    unfolding fst .
  assume "r = None \<or> Suc i < length gs"
  with fst snd have "?run = (gs ! i, None)"
    by (simp add: prod_eq_iff)
  from simulate_event_default_navigation [OF this] obtain page where
    page: "map_of ?ev ''page'' = Some page" and
    nav: "navigations (gs ! i) = (if py_ne ?prev page then [page] else [])"
    by auto
  from page have get: "dict_get ?ev (Some ''page'') = page" by (simp add: dict_get_def)
  from nav show "navigations (gs ! i) =
       (if py_ne ?prev (dict_get ?ev (Some ''page''))
        then [dict_get ?ev (Some ''page'')] else [])"
    unfolding get .
  assume "i = 0"
  with nav have "navigations (gs ! i) = (if py_ne JNull page then [page] else [])" by simp
  then show "navigations (gs ! i) =
        (if dict_get ?ev (Some ''page'') \<noteq> JNull then [dict_get ?ev (Some ''page'')] else [])"
    unfolding py_ne_None get .
qed

theorem default_handler_navigation_witness:
  "UserSimulation_init
      [(1, [(''name'', JStr ''Page viewed''), (''dimension'', JList [JInt 390, JInt 844]),
        (''scroll_top'', JInt 0), (''mouse_position'', JNull), (''time'', JInt 100),
        (''page'', JStr ''P1'')]),
       (2, [(''name'', JStr ''Button clicked''), (''dimension'', JList [JInt 390, JInt 844]),
        (''scroll_top'', JInt 120), (''mouse_position'', JList [JInt 3, JInt 4]),
        (''time'', JInt 103), (''page'', JStr ''P1'')]),
       (3, [(''name'', JStr ''Page viewed''), (''dimension'', JList [JInt 390, JInt 844]),
        (''scroll_top'', JNull), (''mouse_position'', JNull), (''time'', JInt 99),
        (''page'', JStr ''P2'')])] =
   Inr \<lparr>sim_events =
      [(1, [(''name'', JStr ''Page viewed''), (''dimension'', JList [JInt 390, JInt 844]),
        (''scroll_top'', JInt 0), (''mouse_position'', JNull), (''time'', JInt 100),
        (''page'', JStr ''P1'')]),
       (2, [(''name'', JStr ''Button clicked''), (''dimension'', JList [JInt 390, JInt 844]),
        (''scroll_top'', JInt 120), (''mouse_position'', JList [JInt 3, JInt 4]),
        (''time'', JInt 103), (''page'', JStr ''P1'')]),
       (3, [(''name'', JStr ''Page viewed''), (''dimension'', JList [JInt 390, JInt 844]),
        (''scroll_top'', JNull), (''mouse_position'', JNull), (''time'', JInt 99),
        (''page'', JStr ''P2'')])],
     first_event =
       [(''name'', JStr ''Page viewed''), (''dimension'', JList [JInt 390, JInt 844]),
        (''scroll_top'', JInt 0), (''mouse_position'', JNull), (''time'', JInt 100),
        (''page'', JStr ''P1'')]\<rparr> \<and>
   list_all (\<lambda>(n, ev). replayable None ev)
      [(1, [(''name'', JStr ''Page viewed''), (''dimension'', JList [JInt 390, JInt 844]),
        (''scroll_top'', JInt 0), (''mouse_position'', JNull), (''time'', JInt 100),
        (''page'', JStr ''P1'')]),
       (2, [(''name'', JStr ''Button clicked''), (''dimension'', JList [JInt 390, JInt 844]),
        (''scroll_top'', JInt 120), (''mouse_position'', JList [JInt 3, JInt 4]),
        (''time'', JInt 103), (''page'', JStr ''P1'')]),
       (3, [(''name'', JStr ''Page viewed''), (''dimension'', JList [JInt 390, JInt 844]),
        (''scroll_top'', JNull), (''mouse_position'', JNull), (''time'', JInt 99),
        (''page'', JStr ''P2'')])] \<and>
   perform_simulation (\<lambda>hist a. None)
     \<lparr>sim_events =
      [(1, [(''name'', JStr ''Page viewed''), (''dimension'', JList [JInt 390, JInt 844]),
        (''scroll_top'', JInt 0), (''mouse_position'', JNull), (''time'', JInt 100),
        (''page'', JStr ''P1'')]),
       (2, [(''name'', JStr ''Button clicked''), (''dimension'', JList [JInt 390, JInt 844]),
        (''scroll_top'', JInt 120), (''mouse_position'', JList [JInt 3, JInt 4]),
        (''time'', JInt 103), (''page'', JStr ''P1'')]),
       (3, [(''name'', JStr ''Page viewed''), (''dimension'', JList [JInt 390, JInt 844]),
        (''scroll_top'', JNull), (''mouse_position'', JNull), (''time'', JInt 99),
        (''page'', JStr ''P2'')])],
     first_event =
       [(''name'', JStr ''Page viewed''), (''dimension'', JList [JInt 390, JInt 844]),
        (''scroll_top'', JInt 0), (''mouse_position'', JNull), (''time'', JInt 100),
        (''page'', JStr ''P1'')]\<rparr>
     None False =
     ([[Sleep 0, Get (JStr ''P1'')],
      [Sleep 3, ExecuteScript (JInt 120), Click (JInt 3) (JInt 4)],
      [Sleep 3, Get (JStr ''P2'')]], None) \<and>
   length [[Sleep 0, Get (JStr ''P1'')],
      [Sleep 3, ExecuteScript (JInt 120), Click (JInt 3) (JInt 4)],
      [Sleep 3, Get (JStr ''P2'')]] = 3 \<and>
   navigations [Sleep 0, Get (JStr ''P1'')] = [JStr ''P1''] \<and>
   navigations [Sleep 3, ExecuteScript (JInt 120), Click (JInt 3) (JInt 4)] = [] \<and>
   navigations [Sleep 3, Get (JStr ''P2'')] = [JStr ''P2'']"
proof -
  let ?evs = "[(1, [(''name'', JStr ''Page viewed''), (''dimension'', JList [JInt 390, JInt 844]),
        (''scroll_top'', JInt 0), (''mouse_position'', JNull), (''time'', JInt 100),
        (''page'', JStr ''P1'')]),
       (2, [(''name'', JStr ''Button clicked''), (''dimension'', JList [JInt 390, JInt 844]),
        (''scroll_top'', JInt 120), (''mouse_position'', JList [JInt 3, JInt 4]),
        (''time'', JInt 103), (''page'', JStr ''P1'')]),
       (3, [(''name'', JStr ''Page viewed''), (''dimension'', JList [JInt 390, JInt 844]),
        (''scroll_top'', JNull), (''mouse_position'', JNull), (''time'', JInt 99),
        (''page'', JStr ''P2'')])]"
  let ?self = "\<lparr>sim_events =
      [(1, [(''name'', JStr ''Page viewed''), (''dimension'', JList [JInt 390, JInt 844]),
        (''scroll_top'', JInt 0), (''mouse_position'', JNull), (''time'', JInt 100),
        (''page'', JStr ''P1'')]),
       (2, [(''name'', JStr ''Button clicked''), (''dimension'', JList [JInt 390, JInt 844]),
        (''scroll_top'', JInt 120), (''mouse_position'', JList [JInt 3, JInt 4]),
        (''time'', JInt 103), (''page'', JStr ''P1'')]),
       (3, [(''name'', JStr ''Page viewed''), (''dimension'', JList [JInt 390, JInt 844]),
        (''scroll_top'', JNull), (''mouse_position'', JNull), (''time'', JInt 99),
        (''page'', JStr ''P2'')])],
     first_event =
       [(''name'', JStr ''Page viewed''), (''dimension'', JList [JInt 390, JInt 844]),
        (''scroll_top'', JInt 0), (''mouse_position'', JNull), (''time'', JInt 100),
        (''page'', JStr ''P1'')]\<rparr>"
  have run: "perform_simulation (\<lambda>hist a. None) ?self None False =
     ([[Sleep 0, Get (JStr ''P1'')],
      [Sleep 3, ExecuteScript (JInt 120), Click (JInt 3) (JInt 4)],
      [Sleep 3, Get (JStr ''P2'')]], None)"
    by (simp add: perform_simulation_def simulate_event_def and_then_def sleep_step_def handler_step_def
        scroll_step_def click_step_def simulate_scroll_def simulate_click_def call_def
        dict_item_def dict_get_def py_sub_def py_ne_def py_index_def Let_def)
  have init: "UserSimulation_init ?evs = Inr ?self"
    by (simp add: UserSimulation_init_def dict_item_def py_index_def)
  have events: "list_all (\<lambda>(n, ev). replayable None ev) ?evs"
    by (simp add: replayable_def subscriptable_def py_index_def dict_get_def)
  have benign: "\<forall>h a e. (\<lambda>hist a. None :: py_error option) h a = Some e \<longrightarrow> swallowed a e"
    by simp
  have len: "length [[Sleep 0, Get (JStr ''P1'')],
      [Sleep 3, ExecuteScript (JInt 120), Click (JInt 3) (JInt 4)],
      [Sleep 3, Get (JStr ''P2'')]] = 3"
    by simp
  note each = default_handler_navigation [OF run, THEN conjunct2, THEN conjunct2, THEN conjunct2,
      THEN spec, THEN mp, THEN conjunct2, THEN mp, THEN conjunct1]
  have n0: "navigations [Sleep 0, Get (JStr ''P1'')] = [JStr ''P1'']"
    using each [of 0] by (simp add: dict_get_def py_ne_def)
  have n1: "navigations [Sleep 3, ExecuteScript (JInt 120), Click (JInt 3) (JInt 4)] = []"
    using each [of 1] by (simp add: dict_get_def py_ne_def)
  have n2: "navigations [Sleep 3, Get (JStr ''P2'')] = [JStr ''P2'']"
    using each [of 2] by (simp add: dict_get_def py_ne_def)
  from default_handler_navigation [OF run, THEN conjunct2, THEN conjunct2, THEN conjunct1]
    init events benign
  have "(None :: py_error option) = None"
    by simp
  with run init events len n0 n1 n2 show ?thesis
    by (simp only: simp_thms)
qed

text \<open>
  C5 as stated fails for a first event with no page: the parsed event below has the
  page \<^verbatim>\<open>None\<close> (what the parser stores when the record has no page property), the run
  raises nothing, and the first event triggers no navigation.
\<close>

theorem first_event_without_page_no_navigation:
  "UserSimulation_init
     [(1, [(''name'', JStr ''Button clicked''), (''dimension'', JList [JInt 390, JInt 844]),
           (''time'', JInt 100), (''page'', JNull)])] =
   Inr \<lparr>sim_events =
         [(1, [(''name'', JStr ''Button clicked''), (''dimension'', JList [JInt 390, JInt 844]),
               (''time'', JInt 100), (''page'', JNull)])],
        first_event =
          [(''name'', JStr ''Button clicked''), (''dimension'', JList [JInt 390, JInt 844]),
           (''time'', JInt 100), (''page'', JNull)]\<rparr> \<and>
   perform_simulation (\<lambda>hist a. None)
     \<lparr>sim_events =
         [(1, [(''name'', JStr ''Button clicked''), (''dimension'', JList [JInt 390, JInt 844]),
               (''time'', JInt 100), (''page'', JNull)])],
        first_event =
          [(''name'', JStr ''Button clicked''), (''dimension'', JList [JInt 390, JInt 844]),
           (''time'', JInt 100), (''page'', JNull)]\<rparr>
     None False = ([[Sleep 0]], None)"
  by (simp add: UserSimulation_init_def perform_simulation_def simulate_event_def and_then_def sleep_step_def handler_step_def
        scroll_step_def click_step_def simulate_scroll_def simulate_click_def call_def
        dict_item_def dict_get_def py_sub_def py_ne_def py_index_def Let_def)

text \<open>
  C6. A run starts no iteration beyond the events and, when it raised nothing, went
  through every event; it raises nothing when the events are those the replay was
  built from, the loop body accepts them, and the browser raises nothing but
  swallowed scroll failures (a negative difference of times raises nothing). With a
  static sleep time every started iteration starts by sleeping that time, and sleeps
  once, whatever the recorded times are. With the recorded timing, a started
  iteration whose event and the event before it (for the first iteration: the first
  event of the replay) have numbers as their times starts by sleeping the difference
  of the two times, or 3 when the difference is negative, and sleeps once. Events
  are counted from 0 here, so the events 2 and 3 of the claim are the iterations 1
  and 2.
\<close>

theorem replay_delays:
  assumes "perform_simulation env self static exec = (gs, r)"
  shows "length gs \<le> length (sim_events self) \<and>
     (r = None \<longrightarrow> length gs = length (sim_events self)) \<and>
     (UserSimulation_init (sim_events self) = Inr self \<and>
      list_all (\<lambda>(n, ev). replayable static ev) (sim_events self) \<and>
      (\<forall>h a e. env h a = Some e \<longrightarrow> swallowed a e) \<longrightarrow> r = None) \<and>
     (\<forall>i. i < length gs \<longrightarrow>
        (\<forall>d. static = Some d \<longrightarrow> hd (gs ! i) = Sleep d \<and> sleeps (gs ! i) = [d]) \<and>
        (\<forall>a b. static = None \<and>
               num_of (if i = 0 then dict_get (first_event self) (Some ''time'')
                       else dict_get (snd (sim_events self ! (i - 1))) (Some ''time'')) = Some a \<and>
               num_of (dict_get (snd (sim_events self ! i)) (Some ''time'')) = Some b \<longrightarrow>
               hd (gs ! i) = Sleep (if b - a < 0 then 3 else b - a) \<and>
               sleeps (gs ! i) = [if b - a < 0 then 3 else b - a]))"
proof (intro conjI allI impI)
  from perform_simulation_length [OF assms]
  show "length gs \<le> length (sim_events self)" by simp
next
  assume "r = None"
  with perform_simulation_length [OF assms]
  show "length gs = length (sim_events self)" by simp
next
  assume a: "UserSimulation_init (sim_events self) = Inr self \<and>
      list_all (\<lambda>(n, ev). replayable static ev) (sim_events self) \<and>
      (\<forall>h a e. env h a = Some e \<longrightarrow> swallowed a e)"
  then have benign: "\<And>hist a e. env hist a = Some e \<Longrightarrow> swallowed a e" by blast
  from a have init: "UserSimulation_init (sim_events self) = Inr self"
    and all: "list_all (\<lambda>(n, ev). replayable static ev) (sim_events self)" by simp_all
  from perform_simulation_completes [where env = env and exec = exec, OF init all benign] assms
  show "r = None" by auto
next
  fix i d
  assume i: "i < length gs" and static: "static = Some d"
  from assms i obtain ts where
    loop: "simulation_loop env static exec (sim_events self) ts JNull [] = (gs, r)"
    by (rule perform_simulation_loop)
  from simulation_loop_nth [OF loop i] obtain h ts' loc where
    fst: "fst (simulate_event env static exec (fst (sim_events self ! i))
                 (snd (sim_events self ! i)) ts' loc h) = gs ! i"
    by blast
  from simulate_event_sleep_first [of env static exec "fst (sim_events self ! i)"
      "snd (sim_events self ! i)" ts' loc h]
  obtain rest where
    g: "gs ! i = fst (sleep_step env static (snd (sim_events self ! i)) ts' h) @ rest"
    and rest: "sleeps rest = []"
    unfolding fst by blast
  show "hd (gs ! i) = Sleep d" "sleeps (gs ! i) = [d]"
    unfolding g static by (simp_all add: sleep_step_static sleeps_append rest)
next
  fix i a b
  assume i: "i < length gs"
  assume times: "static = None \<and>
     num_of (if i = 0 then dict_get (first_event self) (Some ''time'')
             else dict_get (snd (sim_events self ! (i - 1))) (Some ''time'')) = Some a \<and>
     num_of (dict_get (snd (sim_events self ! i)) (Some ''time'')) = Some b"
  let ?ev = "snd (sim_events self ! i)"
  from assms i obtain ts where ts: "dict_item (first_event self) ''time'' = Inr ts" and
    loop: "simulation_loop env static exec (sim_events self) ts JNull [] = (gs, r)"
    by (rule perform_simulation_loop)
  from ts have get: "dict_get (first_event self) (Some ''time'') = ts" by (rule dict_item_get)
  let ?ts = "if i = 0 then ts else dict_get (snd (sim_events self ! (i - 1))) (Some ''time'')"
  from simulation_loop_nth [OF loop i] obtain h loc where
    fst: "fst (simulate_event env static exec (fst (sim_events self ! i)) ?ev ?ts loc h) = gs ! i"
    by blast
  from simulate_event_sleep_first [of env static exec "fst (sim_events self ! i)" ?ev ?ts loc h]
  obtain rest where
    g: "gs ! i = fst (sleep_step env static ?ev ?ts h) @ rest" and rest: "sleeps rest = []"
    unfolding fst by blast
  from times have static: "static = None" and b: "num_of (dict_get ?ev (Some ''time'')) = Some b"
    by simp_all
  from times have "num_of ?ts = Some a" unfolding get by simp
  note sleep = sleep_step_recorded [OF b this, of env h]
  show "hd (gs ! i) = Sleep (if b - a < 0 then 3 else b - a)"
    unfolding g static sleep by simp
  show "sleeps (gs ! i) = [if b - a < 0 then 3 else b - a]"
    unfolding g static sleep by (simp add: sleeps_append rest)
qed

theorem replay_delays_witness:
  "UserSimulation_init
      [(1, [(''name'', JStr ''Page viewed''), (''dimension'', JList [JInt 390, JInt 844]),
        (''scroll_top'', JInt 0), (''mouse_position'', JNull), (''time'', JInt 100),
        (''page'', JStr ''P1'')]),
       (2, [(''name'', JStr ''Button clicked''), (''dimension'', JList [JInt 390, JInt 844]),
        (''scroll_top'', JInt 120), (''mouse_position'', JList [JInt 3, JInt 4]),
        (''time'', JInt 103), (''page'', JStr ''P1'')]),
       (3, [(''name'', JStr ''Page viewed''), (''dimension'', JList [JInt 390, JInt 844]),
        (''scroll_top'', JNull), (''mouse_position'', JNull), (''time'', JInt 99),
        (''page'', JStr ''P2'')])] =
   Inr \<lparr>sim_events =
      [(1, [(''name'', JStr ''Page viewed''), (''dimension'', JList [JInt 390, JInt 844]),
        (''scroll_top'', JInt 0), (''mouse_position'', JNull), (''time'', JInt 100),
        (''page'', JStr ''P1'')]),
       (2, [(''name'', JStr ''Button clicked''), (''dimension'', JList [JInt 390, JInt 844]),
        (''scroll_top'', JInt 120), (''mouse_position'', JList [JInt 3, JInt 4]),
        (''time'', JInt 103), (''page'', JStr ''P1'')]),
       (3, [(''name'', JStr ''Page viewed''), (''dimension'', JList [JInt 390, JInt 844]),
        (''scroll_top'', JNull), (''mouse_position'', JNull), (''time'', JInt 99),
        (''page'', JStr ''P2'')])],
     first_event =
       [(''name'', JStr ''Page viewed''), (''dimension'', JList [JInt 390, JInt 844]),
        (''scroll_top'', JInt 0), (''mouse_position'', JNull), (''time'', JInt 100),
        (''page'', JStr ''P1'')]\<rparr> \<and>
   list_all (\<lambda>(n, ev). replayable None ev)
      [(1, [(''name'', JStr ''Page viewed''), (''dimension'', JList [JInt 390, JInt 844]),
        (''scroll_top'', JInt 0), (''mouse_position'', JNull), (''time'', JInt 100),
        (''page'', JStr ''P1'')]),
       (2, [(''name'', JStr ''Button clicked''), (''dimension'', JList [JInt 390, JInt 844]),
        (''scroll_top'', JInt 120), (''mouse_position'', JList [JInt 3, JInt 4]),
        (''time'', JInt 103), (''page'', JStr ''P1'')]),
       (3, [(''name'', JStr ''Page viewed''), (''dimension'', JList [JInt 390, JInt 844]),
        (''scroll_top'', JNull), (''mouse_position'', JNull), (''time'', JInt 99),
        (''page'', JStr ''P2'')])] \<and>
   perform_simulation (\<lambda>hist a. None)
     \<lparr>sim_events =
      [(1, [(''name'', JStr ''Page viewed''), (''dimension'', JList [JInt 390, JInt 844]),
        (''scroll_top'', JInt 0), (''mouse_position'', JNull), (''time'', JInt 100),
        (''page'', JStr ''P1'')]),
       (2, [(''name'', JStr ''Button clicked''), (''dimension'', JList [JInt 390, JInt 844]),
        (''scroll_top'', JInt 120), (''mouse_position'', JList [JInt 3, JInt 4]),
        (''time'', JInt 103), (''page'', JStr ''P1'')]),
       (3, [(''name'', JStr ''Page viewed''), (''dimension'', JList [JInt 390, JInt 844]),
        (''scroll_top'', JNull), (''mouse_position'', JNull), (''time'', JInt 99),
        (''page'', JStr ''P2'')])],
     first_event =
       [(''name'', JStr ''Page viewed''), (''dimension'', JList [JInt 390, JInt 844]),
        (''scroll_top'', JInt 0), (''mouse_position'', JNull), (''time'', JInt 100),
        (''page'', JStr ''P1'')]\<rparr>
     None False =
     ([[Sleep 0, Get (JStr ''P1'')],
      [Sleep 3, ExecuteScript (JInt 120), Click (JInt 3) (JInt 4)],
      [Sleep 3, Get (JStr ''P2'')]], None) \<and>
   perform_simulation (\<lambda>hist a. None)
     \<lparr>sim_events =
      [(1, [(''name'', JStr ''Page viewed''), (''dimension'', JList [JInt 390, JInt 844]),
        (''scroll_top'', JInt 0), (''mouse_position'', JNull), (''time'', JInt 100),
        (''page'', JStr ''P1'')]),
       (2, [(''name'', JStr ''Button clicked''), (''dimension'', JList [JInt 390, JInt 844]),
        (''scroll_top'', JInt 120), (''mouse_position'', JList [JInt 3, JInt 4]),
        (''time'', JInt 103), (''page'', JStr ''P1'')]),
       (3, [(''name'', JStr ''Page viewed''), (''dimension'', JList [JInt 390, JInt 844]),
        (''scroll_top'', JNull), (''mouse_position'', JNull), (''time'', JInt 99),
        (''page'', JStr ''P2'')])],
     first_event =
       [(''name'', JStr ''Page viewed''), (''dimension'', JList [JInt 390, JInt 844]),
        (''scroll_top'', JInt 0), (''mouse_position'', JNull), (''time'', JInt 100),
        (''page'', JStr ''P1'')]\<rparr>
     (Some 2) False =
     ([[Sleep 2, Get (JStr ''P1'')],
      [Sleep 2, ExecuteScript (JInt 120), Click (JInt 3) (JInt 4)],
      [Sleep 2, Get (JStr ''P2'')]], None) \<and>
   sleeps [Sleep 0, Get (JStr ''P1'')] = [0] \<and>
   sleeps [Sleep 3, ExecuteScript (JInt 120), Click (JInt 3) (JInt 4)] = [3] \<and>
   sleeps [Sleep 3, Get (JStr ''P2'')] = [3] \<and>
   sleeps [Sleep 2, Get (JStr ''P2'')] = [2]"
proof -
  let ?evs = "[(1, [(''name'', JStr ''Page viewed''), (''dimension'', JList [JInt 390, JInt 844]),
        (''scroll_top'', JInt 0), (''mouse_position'', JNull), (''time'', JInt 100),
        (''page'', JStr ''P1'')]),
       (2, [(''name'', JStr ''Button clicked''), (''dimension'', JList [JInt 390, JInt 844]),
        (''scroll_top'', JInt 120), (''mouse_position'', JList [JInt 3, JInt 4]),
        (''time'', JInt 103), (''page'', JStr ''P1'')]),
       (3, [(''name'', JStr ''Page viewed''), (''dimension'', JList [JInt 390, JInt 844]),
        (''scroll_top'', JNull), (''mouse_position'', JNull), (''time'', JInt 99),
        (''page'', JStr ''P2'')])]"
  let ?self = "\<lparr>sim_events =
      [(1, [(''name'', JStr ''Page viewed''), (''dimension'', JList [JInt 390, JInt 844]),
        (''scroll_top'', JInt 0), (''mouse_position'', JNull), (''time'', JInt 100),
        (''page'', JStr ''P1'')]),
       (2, [(''name'', JStr ''Button clicked''), (''dimension'', JList [JInt 390, JInt 844]),
        (''scroll_top'', JInt 120), (''mouse_position'', JList [JInt 3, JInt 4]),
        (''time'', JInt 103), (''page'', JStr ''P1'')]),
       (3, [(''name'', JStr ''Page viewed''), (''dimension'', JList [JInt 390, JInt 844]),
        (''scroll_top'', JNull), (''mouse_position'', JNull), (''time'', JInt 99),
        (''page'', JStr ''P2'')])],
     first_event =
       [(''name'', JStr ''Page viewed''), (''dimension'', JList [JInt 390, JInt 844]),
        (''scroll_top'', JInt 0), (''mouse_position'', JNull), (''time'', JInt 100),
        (''page'', JStr ''P1'')]\<rparr>"
  have recorded: "perform_simulation (\<lambda>hist a. None) ?self None False =
     ([[Sleep 0, Get (JStr ''P1'')],
      [Sleep 3, ExecuteScript (JInt 120), Click (JInt 3) (JInt 4)],
      [Sleep 3, Get (JStr ''P2'')]], None)"
    by (simp add: perform_simulation_def simulate_event_def and_then_def sleep_step_def handler_step_def
        scroll_step_def click_step_def simulate_scroll_def simulate_click_def call_def
        dict_item_def dict_get_def py_sub_def py_ne_def py_index_def Let_def)
  have static: "perform_simulation (\<lambda>hist a. None) ?self (Some 2) False =
     ([[Sleep 2, Get (JStr ''P1'')],
      [Sleep 2, ExecuteScript (JInt 120), Click (JInt 3) (JInt 4)],
      [Sleep 2, Get (JStr ''P2'')]], None)"
    by (simp add: perform_simulation_def simulate_event_def and_then_def sleep_step_def handler_step_def
        scroll_step_def click_step_def simulate_scroll_def simulate_click_def call_def
        dict_item_def dict_get_def py_sub_def py_ne_def py_index_def Let_def)
  have init: "UserSimulation_init ?evs = Inr ?self"
    by (simp add: UserSimulation_init_def dict_item_def py_index_def)
  have events: "list_all (\<lambda>(n, ev). replayable None ev) ?evs"
    by (simp add: replayable_def subscriptable_def py_index_def dict_get_def)
  have benign: "\<forall>h a e. (\<lambda>hist a. None :: py_error option) h a = Some e \<longrightarrow> swallowed a e"
    by simp
  note each = replay_delays [OF recorded, THEN conjunct2, THEN conjunct2, THEN conjunct2,
      THEN spec, THEN mp, THEN conjunct2, THEN spec, THEN spec, THEN mp, THEN conjunct2]
  have s0: "sleeps [Sleep 0, Get (JStr ''P1'')] = [0]"
    using each [of 0 100 100] by (simp add: dict_get_def)
  have s1: "sleeps [Sleep 3, ExecuteScript (JInt 120), Click (JInt 3) (JInt 4)] = [3]"
    using each [of 1 100 103] by (simp add: dict_get_def)
  have s2: "sleeps [Sleep 3, Get (JStr ''P2'')] = [3]"
    using each [of 2 103 99] by (simp add: dict_get_def)
  have s3: "sleeps [Sleep 2, Get (JStr ''P2'')] = [2]"
    using replay_delays [OF static, THEN conjunct2, THEN conjunct2, THEN conjunct2,
      THEN spec, THEN mp, THEN conjunct1, THEN spec, THEN mp, THEN conjunct2, of 2 2]
    by simp
  from replay_delays [OF recorded, THEN conjunct2, THEN conjunct2, THEN conjunct1]
    init events benign
  have "(None :: py_error option) = None"
    by simp
  with recorded static init events s0 s1 s2 s3 show ?thesis
    by (simp only: simp_thms)
qed

text \<open>
  C9 (as the code has it). A scroll script that raises \<^verbatim>\<open>JavascriptException\<close> is swallowed by
  \<^verbatim>\<open>simulate_scroll\<close>, which prints its message and returns. A run in which the
  environment raises nothing but such exceptions goes through every event (given
  events the loop body itself accepts). In every run, every other exception of the
  environment ends the run and is the exception the caller gets, while every
  swallowed one is followed by the printed message; no iteration is started beyond
  the events, a run that raised nothing went through every event, and every
  iteration that raised nothing made exactly the calls of \<open>iteration_calls\<close>, after
  the calls of the iterations before it: after a swallowed failure and its message
  come the click of the same event, when it has a mouse position, and then the
  suspension, the handler, the scroll and the click of the events that follow.
\<close>

theorem scroll_failure_swallowed:
  "(env hist (ExecuteScript pixels) = Some JavascriptException \<longrightarrow>
      simulate_scroll env hist pixels =
        ([ExecuteScript pixels, Print ''Simulating scroll failed''], None)) \<and>
   (UserSimulation_init evs = Inr self \<and>
    list_all (\<lambda>(n, ev). replayable static ev) evs \<and>
    (\<forall>h a e. env h a = Some e \<longrightarrow> swallowed a e) \<longrightarrow>
      (\<exists>gs. perform_simulation env self static exec = (gs, None) \<and> length gs = length evs)) \<and>
   (perform_simulation env self static exec = (groups, r) \<longrightarrow>
      propagates env [] (concat groups) r \<and>
      length groups \<le> length (sim_events self) \<and>
      (r = None \<longrightarrow> length groups = length (sim_events self)) \<and>
      (\<forall>i. i < length groups \<and> (r = None \<or> Suc i < length groups) \<longrightarrow>
         groups ! i =
           iteration_calls env static exec
             (fst (sim_events self ! i)) (snd (sim_events self ! i))
             (if i = 0 then dict_get (first_event self) (Some ''time'')
              else dict_get (snd (sim_events self ! (i - 1))) (Some ''time''))
             (if i = 0 then JNull
              else dict_get (snd (sim_events self ! (i - 1))) (Some ''page''))
             (concat (take i groups))))"
proof (intro conjI impI allI)
  assume "env hist (ExecuteScript pixels) = Some JavascriptException"
  then show "simulate_scroll env hist pixels =
        ([ExecuteScript pixels, Print ''Simulating scroll failed''], None)"
    by (simp add: simulate_scroll_def call_def)
next
  assume a: "UserSimulation_init evs = Inr self \<and>
    list_all (\<lambda>(n, ev). replayable static ev) evs \<and>
    (\<forall>h a e. env h a = Some e \<longrightarrow> swallowed a e)"
  then have benign: "\<And>hist a e. env hist a = Some e \<Longrightarrow> swallowed a e" by blast
  from a have init: "UserSimulation_init evs = Inr self"
    and all: "list_all (\<lambda>(n, ev). replayable static ev) evs" by simp_all
  from init all benign
  show "\<exists>gs. perform_simulation env self static exec = (gs, None) \<and> length gs = length evs"
    by (rule perform_simulation_completes)
next
  assume run: "perform_simulation env self static exec = (groups, r)"
  show "propagates env [] (concat groups) r"
  proof (cases "dict_item (first_event self) ''time''")
    case (Inl e)
    with run show ?thesis by (auto simp: perform_simulation_def propagates_Nil)
  next
    case (Inr ts)
    with run have "simulation_loop env static exec (sim_events self) ts JNull [] = (groups, r)"
      by (simp add: perform_simulation_def)
    then show ?thesis by (rule propagates_simulation_loop)
  qed
next
  assume run: "perform_simulation env self static exec = (groups, r)"
  from perform_simulation_length [OF run]
  show "length groups \<le> length (sim_events self)" by simp
next
  assume run: "perform_simulation env self static exec = (groups, r)" and "r = None"
  with perform_simulation_length [OF run]
  show "length groups = length (sim_events self)" by simp
next
  fix i
  assume run: "perform_simulation env self static exec = (groups, r)"
    and i: "i < length groups \<and> (r = None \<or> Suc i < length groups)"
  from i have "i < length groups" and "r = None \<or> Suc i < length groups" by simp_all
  with run show "groups ! i =
           iteration_calls env static exec
             (fst (sim_events self ! i)) (snd (sim_events self ! i))
             (if i = 0 then dict_get (first_event self) (Some ''time'')
              else dict_get (snd (sim_events self ! (i - 1))) (Some ''time''))
             (if i = 0 then JNull
              else dict_get (snd (sim_events self ! (i - 1))) (Some ''page''))
             (concat (take i groups))"
    by (rule perform_simulation_iteration)
qed

theorem scroll_failure_swallowed_witness:
  "simulate_scroll
     (\<lambda>hist a. case a of ExecuteScript pixels \<Rightarrow> Some JavascriptException | _ \<Rightarrow> None)
     [] (JInt 120) = ([ExecuteScript (JInt 120), Print ''Simulating scroll failed''], None) \<and>
   perform_simulation
     (\<lambda>hist a. case a of ExecuteScript pixels \<Rightarrow> Some JavascriptException | _ \<Rightarrow> None)
     \<lparr>sim_events =
      [(1, [(''name'', JStr ''Page viewed''), (''dimension'', JList [JInt 390, JInt 844]),
        (''scroll_top'', JInt 0), (''mouse_position'', JNull), (''time'', JInt 100),
        (''page'', JStr ''P1'')]),
       (2, [(''name'', JStr ''Button clicked''), (''dimension'', JList [JInt 390, JInt 844]),
        (''scroll_top'', JInt 120), (''mouse_position'', JList [JInt 3, JInt 4]),
        (''time'', JInt 103), (''page'', JStr ''P1'')]),
       (3, [(''name'', JStr ''Page viewed''), (''dimension'', JList [JInt 390, JInt 844]),
        (''scroll_top'', JNull), (''mouse_position'', JNull), (''time'', JInt 99),
        (''page'', JStr ''P2'')])],
     first_event =
       [(''name'', JStr ''Page viewed''), (''dimension'', JList [JInt 390, JInt 844]),
        (''scroll_top'', JInt 0), (''mouse_position'', JNull), (''time'', JInt 100),
        (''page'', JStr ''P1'')]\<rparr>
     None False =
     ([[Sleep 0, Get (JStr ''P1'')],
      [Sleep 3, ExecuteScript (JInt 120), Print ''Simulating scroll failed'',
       Click (JInt 3) (JInt 4)],
      [Sleep 3, Get (JStr ''P2'')]], None) \<and>
   iteration_calls
     (\<lambda>hist a. case a of ExecuteScript pixels \<Rightarrow> Some JavascriptException | _ \<Rightarrow> None)
     None False 2
     [(''name'', JStr ''Button clicked''), (''dimension'', JList [JInt 390, JInt 844]),
        (''scroll_top'', JInt 120), (''mouse_position'', JList [JInt 3, JInt 4]),
        (''time'', JInt 103), (''page'', JStr ''P1'')]
     (JInt 100) (JStr ''P1'') [Sleep 0, Get (JStr ''P1'')] =
     [Sleep 3, ExecuteScript (JInt 120), Print ''Simulating scroll failed'',
      Click (JInt 3) (JInt 4)]"
proof -
  let ?env = "(\<lambda>hist a. case a of ExecuteScript pixels \<Rightarrow> Some JavascriptException | _ \<Rightarrow> None)"
  let ?evs = "[(1, [(''name'', JStr ''Page viewed''), (''dimension'', JList [JInt 390, JInt 844]),
        (''scroll_top'', JInt 0), (''mouse_position'', JNull), (''time'', JInt 100),
        (''page'', JStr ''P1'')]),
       (2, [(''name'', JStr ''Button clicked''), (''dimension'', JList [JInt 390, JInt 844]),
        (''scroll_top'', JInt 120), (''mouse_position'', JList [JInt 3, JInt 4]),
        (''time'', JInt 103), (''page'', JStr ''P1'')]),
       (3, [(''name'', JStr ''Page viewed''), (''dimension'', JList [JInt 390, JInt 844]),
        (''scroll_top'', JNull), (''mouse_position'', JNull), (''time'', JInt 99),
        (''page'', JStr ''P2'')])]"
  let ?self = "\<lparr>sim_events =
      [(1, [(''name'', JStr ''Page viewed''), (''dimension'', JList [JInt 390, JInt 844]),
        (''scroll_top'', JInt 0), (''mouse_position'', JNull), (''time'', JInt 100),
        (''page'', JStr ''P1'')]),
       (2, [(''name'', JStr ''Button clicked''), (''dimension'', JList [JInt 390, JInt 844]),
        (''scroll_top'', JInt 120), (''mouse_position'', JList [JInt 3, JInt 4]),
        (''time'', JInt 103), (''page'', JStr ''P1'')]),
       (3, [(''name'', JStr ''Page viewed''), (''dimension'', JList [JInt 390, JInt 844]),
        (''scroll_top'', JNull), (''mouse_position'', JNull), (''time'', JInt 99),
        (''page'', JStr ''P2'')])],
     first_event =
       [(''name'', JStr ''Page viewed''), (''dimension'', JList [JInt 390, JInt 844]),
        (''scroll_top'', JInt 0), (''mouse_position'', JNull), (''time'', JInt 100),
        (''page'', JStr ''P1'')]\<rparr>"
  let ?gs = "[[Sleep 0, Get (JStr ''P1'')],
      [Sleep 3, ExecuteScript (JInt 120), Print ''Simulating scroll failed'',
       Click (JInt 3) (JInt 4)],
      [Sleep 3, Get (JStr ''P2'')]]"
  have raises: "?env [] (ExecuteScript (JInt 120)) = Some JavascriptException"
    by simp
  have init: "UserSimulation_init ?evs = Inr ?self"
    by (simp add: UserSimulation_init_def dict_item_def py_index_def)
  have events: "list_all (\<lambda>(n, ev). replayable None ev) ?evs"
    by (simp add: replayable_def subscriptable_def py_index_def dict_get_def)
  have benign: "\<forall>h a e. ?env h a = Some e \<longrightarrow> swallowed a e"
    by (auto simp: swallowed_def split: action.splits)
  have run: "perform_simulation ?env ?self None False = (?gs, None)"
    by (simp add: perform_simulation_def simulate_event_def and_then_def sleep_step_def handler_step_def
        scroll_step_def click_step_def simulate_scroll_def simulate_click_def call_def
        dict_item_def dict_get_def py_sub_def py_ne_def py_index_def Let_def)
  note all = scroll_failure_swallowed [where env = ?env and hist = "[]" and pixels = "JInt 120"
      and evs = ?evs and self = ?self and static = None and exec = False and groups = ?gs
      and r = None]
  note second = all [THEN conjunct2, THEN conjunct2, THEN mp, OF run, THEN conjunct2,
      THEN conjunct2, THEN conjunct2, THEN spec, THEN mp, of 1]
  have calls: "iteration_calls ?env None False 2
     [(''name'', JStr ''Button clicked''), (''dimension'', JList [JInt 390, JInt 844]),
        (''scroll_top'', JInt 120), (''mouse_position'', JList [JInt 3, JInt 4]),
        (''time'', JInt 103), (''page'', JStr ''P1'')]
     (JInt 100) (JStr ''P1'') [Sleep 0, Get (JStr ''P1'')] =
     [Sleep 3, ExecuteScript (JInt 120), Print ''Simulating scroll failed'',
      Click (JInt 3) (JInt 4)]"
    using second by (simp add: dict_get_def)
  from all raises init events benign run calls
  show ?thesis by (simp only: simp_thms)
qed

text \<open>
  C9 as stated fails for a scroll that fails otherwise: \<^verbatim>\<open>simulate_scroll\<close> catches
  \<^verbatim>\<open>JavascriptException\<close> only. When the scroll script of the second event raises
  another exception of the driver, nothing is printed, the run ends there and the
  caller gets the exception.
\<close>

theorem other_scroll_failure_aborts:
  "perform_simulation
     (\<lambda>hist a. case a of ExecuteScript pixels \<Rightarrow> Some (OtherException ''session lost'') | _ \<Rightarrow> None)
     \<lparr>sim_events =
      [(1, [(''name'', JStr ''Page viewed''), (''dimension'', JList [JInt 390, JInt 844]),
        (''scroll_top'', JInt 0), (''mouse_position'', JNull), (''time'', JInt 100),
        (''page'', JStr ''P1'')]),
       (2, [(''name'', JStr ''Button clicked''), (''dimension'', JList [JInt 390, JInt 844]),
        (''scroll_top'', JInt 120), (''mouse_position'', JList [JInt 3, JInt 4]),
        (''time'', JInt 103), (''page'', JStr ''P1'')]),
       (3, [(''name'', JStr ''Page viewed''), (''dimension'', JList [JInt 390, JInt 844]),
        (''scroll_top'', JNull), (''mouse_position'', JNull), (''time'', JInt 99),
        (''page'', JStr ''P2'')])],
     first_event =
       [(''name'', JStr ''Page viewed''), (''dimension'', JList [JInt 390, JInt 844]),
        (''scroll_top'', JInt 0), (''mouse_position'', JNull), (''time'', JInt 100),
        (''page'', JStr ''P1'')]\<rparr>
     None False =
     ([[Sleep 0, Get (JStr ''P1'')], [Sleep 3, ExecuteScript (JInt 120)]],
      Some (OtherException ''session lost''))"
  by (simp add: perform_simulation_def simulate_event_def and_then_def sleep_step_def handler_step_def
        scroll_step_def click_step_def simulate_scroll_def simulate_click_def call_def
        dict_item_def dict_get_def py_sub_def py_ne_def py_index_def Let_def)

section \<open>Properties of DataParams\<close>

text \<open>The checks of each supported parameter, as the inner loop runs them.\<close>

lemma from_date_message:
  "py_format ''from_date param should be in the following pattern: YYYY-MM-DD | You provided {user_input}'' (JStr s) =
   ''from_date param should be in the following pattern: YYYY-MM-DD | You provided '' @ s"
  by (simp add: py_format_def py_replace_def)

lemma to_date_message:
  "py_format ''to_date param should be in the following pattern: YYYY-MM-DD | You provided {user_input}'' (JStr s) =
   ''to_date param should be in the following pattern: YYYY-MM-DD | You provided '' @ s"
  by (simp add: py_format_def py_replace_def)

lemma fixed_message:
  "py_format ''limit param should be integer'' v = ''limit param should be integer''"
  "py_format ''event param should be list'' v = ''event param should be list''"
  "py_format ''from_date param have to be with to_date param'' v =
     ''from_date param have to be with to_date param''"
  "py_format ''to_date param have to be with from_date param'' v =
     ''to_date param have to be with from_date param''"
  by (cases v; simp add: py_format_def py_replace_def)+

lemma checks_limit:
  "run_checks (PARAMS_CHECKS ''limit'') ''limit'' v kwargs =
     (if is_int v then Inr kwargs else Inl (ValueError ''limit param should be integer''))"
  by (simp add: PARAMS_CHECKS_def fixed_message)

lemma checks_event:
  "run_checks (PARAMS_CHECKS ''event'') ''event'' v kwargs =
     (if is_list v then Inr (AList.update ''event'' (JStr (json_dumps v)) kwargs)
      else Inl (ValueError ''event param should be list''))"
  by (simp add: PARAMS_CHECKS_def fixed_message)

lemma checks_where:
  "run_checks (PARAMS_CHECKS ''where'') ''where'' v kwargs = Inr kwargs"
  by (simp add: PARAMS_CHECKS_def)

lemma checks_from_date:
  "run_checks (PARAMS_CHECKS ''from_date'') ''from_date'' v kwargs =
     (case v of
        JStr d \<Rightarrow>
          if \<not> DATE_REGEX_search d
          then Inl (ValueError (''from_date param should be in the following pattern: YYYY-MM-DD | You provided '' @ d))
          else if truthy (dict_get kwargs (Some ''to_date'')) then Inr kwargs
          else Inl (ValueError ''from_date param have to be with to_date param'')
      | _ \<Rightarrow> Inl TypeError)"
  by (cases v) (simp_all add: PARAMS_CHECKS_def date_check_def from_date_message fixed_message)

lemma checks_to_date:
  "run_checks (PARAMS_CHECKS ''to_date'') ''to_date'' v kwargs =
     (case v of
        JStr d \<Rightarrow>
          if \<not> DATE_REGEX_search d
          then Inl (ValueError (''to_date param should be in the following pattern: YYYY-MM-DD | You provided '' @ d))
          else if truthy (dict_get kwargs (Some ''from_date'')) then Inr kwargs
          else Inl (ValueError ''to_date param have to be with from_date param'')
      | _ \<Rightarrow> Inl TypeError)"
  by (cases v) (simp_all add: PARAMS_CHECKS_def date_check_def to_date_message fixed_message)

text \<open>
  The loop stops at the first argument that fails, and only \<^verbatim>\<open>event\<close> is ever
  rewritten.
\<close>

lemma params_loop_append:
  "params_loop (xs @ ys) kwargs =
     (case params_loop xs kwargs of Inl e \<Rightarrow> Inl e | Inr kw \<Rightarrow> params_loop ys kw)"
proof (induction xs arbitrary: kwargs)
  case Nil
  show ?case by simp
next
  case (Cons kv rest)
  obtain key v where kv: "kv = (key, v)" by (cases kv)
  show ?case
    unfolding kv by (simp add: Cons.IH split: sum.splits)
qed

lemma supported_cases:
  "key \<in> set SUPPORTED_PARAMS \<longleftrightarrow>
     key = ''from_date'' \<or> key = ''to_date'' \<or> key = ''limit'' \<or> key = ''event'' \<or>
     key = ''where''"
  by (simp add: SUPPORTED_PARAMS_def)

lemma run_checks_preserves:
  assumes "key \<in> set SUPPORTED_PARAMS"
    and "run_checks (PARAMS_CHECKS key) key v kw = Inr kw'" and "k \<noteq> ''event''"
  shows "map_of kw' k = map_of kw k"
proof -
  from assms(1) consider "key = ''from_date''" | "key = ''to_date''" | "key = ''limit''"
    | "key = ''event''" | "key = ''where''"
    unfolding supported_cases by (elim disjE)
  then show ?thesis
  proof cases
    case 1
    with assms(2) have "kw' = kw"
      unfolding 1 checks_from_date by (cases v) (simp_all split: if_splits)
    then show ?thesis by simp
  next
    case 2
    with assms(2) have "kw' = kw"
      unfolding 2 checks_to_date by (cases v) (simp_all split: if_splits)
    then show ?thesis by simp
  next
    case 3
    with assms(2) have "kw' = kw"
      unfolding 3 checks_limit by (simp split: if_splits)
    then show ?thesis by simp
  next
    case 4
    with assms(2) have "kw' = AList.update ''event'' (JStr (json_dumps v)) kw"
      unfolding 4 checks_event by (simp split: if_splits)
    with assms(3) show ?thesis by (simp add: update_conv')
  next
    case 5
    with assms(2) have "kw' = kw"
      unfolding 5 checks_where by simp
    then show ?thesis by simp
  qed
qed

lemma params_loop_preserves:
  assumes "params_loop xs kw = Inr kw'" and "k \<noteq> ''event''"
  shows "map_of kw' k = map_of kw k"
  using assms(1)
proof (induction xs arbitrary: kw)
  case Nil
  then show ?case by simp
next
  case (Cons kv rest)
  obtain key v where kv: "kv = (key, v)" by (cases kv)
  from Cons.prems kv have sup: "key \<in> set SUPPORTED_PARAMS"
    by (simp split: if_splits)
  with Cons.prems kv obtain kw1 where
    c: "run_checks (PARAMS_CHECKS key) key v kw = Inr kw1" and l: "params_loop rest kw1 = Inr kw'"
    by (cases "run_checks (PARAMS_CHECKS key) key v kw") simp_all
  from Cons.IH [OF l] run_checks_preserves [OF sup c assms(2)] show ?case by simp
qed

text \<open>\<^verbatim>\<open>from_date\<close> with no \<^verbatim>\<open>to_date\<close> never constructs, whatever else is passed.\<close>

lemma from_date_without_to_date:
  assumes "map_of kwargs ''from_date'' = Some v" and "map_of kwargs ''to_date'' = None"
  shows "\<exists>e. DataParams_init kwargs = Inl e"
proof -
  from assms(1) have "(''from_date'', v) \<in> set kwargs" by (rule map_of_SomeD)
  then obtain before rest where split: "kwargs = before @ (''from_date'', v) # rest"
    by (auto dest: split_list)
  show ?thesis
  proof (cases "params_loop before kwargs")
    case (Inl e)
    then have "DataParams_init kwargs = Inl e"
      unfolding DataParams_init_def by (subst split) (simp add: params_loop_append)
    then show ?thesis ..
  next
    case (Inr kw)
    from params_loop_preserves [OF Inr, of "''to_date''"] assms(2)
    have "dict_get kw (Some ''to_date'') = JNull" by (simp add: dict_get_def)
    then have "\<exists>e. run_checks (PARAMS_CHECKS ''from_date'') ''from_date'' v kw = Inl e"
      unfolding checks_from_date by (cases v) simp_all
    then obtain e where "run_checks (PARAMS_CHECKS ''from_date'') ''from_date'' v kw = Inl e" ..
    with Inr have "DataParams_init kwargs = Inl e"
      unfolding DataParams_init_def
      by (subst split) (simp add: params_loop_append supported_cases)
    then show ?thesis ..
  qed
qed

text \<open>
  C8 (as the code has it). The arguments are checked in the order they were passed
  and the first failure is raised. So for an argument all of whose predecessors pass,
  the result is: for a name outside the supported set, \<^verbatim>\<open>NotImplementedError\<close>; for a
  \<^verbatim>\<open>limit\<close> that is no integer, \<^verbatim>\<open>ValueError\<close> with a fixed message, which does not
  show the value; for an \<^verbatim>\<open>event\<close> that is no list, \<^verbatim>\<open>ValueError\<close> with a fixed
  message, and for a list the arguments that follow are checked with the JSON text
  of the list stored; for \<^verbatim>\<open>from_date\<close> and \<^verbatim>\<open>to_date\<close>, \<^verbatim>\<open>TypeError\<close> when the value is
  no string, \<^verbatim>\<open>ValueError\<close> with the value at the end of the message when the date
  pattern fails, \<^verbatim>\<open>ValueError\<close> with a fixed message when the other date is missing
  or false; otherwise, and always for \<^verbatim>\<open>where\<close>, the arguments that follow are
  checked. In particular a \<^verbatim>\<open>from_date\<close> with no \<^verbatim>\<open>to_date\<close> raises, wherever it stands
  among the arguments, and a list as \<^verbatim>\<open>event\<close>, passed last, is stored as its JSON
  text, which for \<^verbatim>\<open>["A", "B"]\<close> is that very text.
\<close>

theorem DataParams_first_failure:
  assumes \<open>kwargs = before @ (key, v) # rest\<close> and \<open>params_loop before kwargs = Inr kw\<close>
  shows \<open>(key \<notin> set SUPPORTED_PARAMS \<longrightarrow>
            DataParams_init kwargs = Inl (NotImplementedError (unsupported_message key))) \<and>
         (key = ''limit'' \<longrightarrow>
            DataParams_init kwargs =
              (if is_int v then params_loop rest kw
               else Inl (ValueError ''limit param should be integer''))) \<and>
         (key = ''event'' \<longrightarrow>
            DataParams_init kwargs =
              (if is_list v
               then params_loop rest (AList.update ''event'' (JStr (json_dumps v)) kw)
               else Inl (ValueError ''event param should be list''))) \<and>
         (key = ''where'' \<longrightarrow> DataParams_init kwargs = params_loop rest kw) \<and>
         (key = ''from_date'' \<longrightarrow>
            DataParams_init kwargs =
              (case v of
                 JStr d \<Rightarrow>
                   if \<not> DATE_REGEX_search d
                   then Inl (ValueError (''from_date param should be in the following pattern: YYYY-MM-DD | You provided '' @ d))
                   else if truthy (dict_get kwargs (Some ''to_date''))
                   then params_loop rest kw
                   else Inl (ValueError ''from_date param have to be with to_date param'')
               | _ \<Rightarrow> Inl TypeError)) \<and>
         (key = ''to_date'' \<longrightarrow>
            DataParams_init kwargs =
              (case v of
                 JStr d \<Rightarrow>
                   if \<not> DATE_REGEX_search d
                   then Inl (ValueError (''to_date param should be in the following pattern: YYYY-MM-DD | You provided '' @ d))
                   else if truthy (dict_get kwargs (Some ''from_date''))
                   then params_loop rest kw
                   else Inl (ValueError ''to_date param have to be with from_date param'')
               | _ \<Rightarrow> Inl TypeError)) \<and>
         (key = ''from_date'' \<and> map_of kwargs ''to_date'' = None \<longrightarrow>
            DataParams_init kwargs =
              Inl (case v of
                     JStr d \<Rightarrow>
                       ValueError
                         (if DATE_REGEX_search d
                          then ''from_date param have to be with to_date param''
                          else ''from_date param should be in the following pattern: YYYY-MM-DD | You provided '' @ d)
                   | _ \<Rightarrow> TypeError)) \<and>
         (key = ''event'' \<and> is_list v \<and> rest = [] \<longrightarrow>
            DataParams_init kwargs =
              Inr (AList.update ''event'' (JStr (json_dumps v)) kw)) \<and>
         (map_of kwargs ''from_date'' \<noteq> None \<and> map_of kwargs ''to_date'' = None \<longrightarrow>
            (\<exists>e. DataParams_init kwargs = Inl e)) \<and>
         json_dumps (JList [JStr ''A'', JStr ''B'']) = ''["A", "B"]''\<close>
proof -
  have run: "DataParams_init kwargs = params_loop ((key, v) # rest) kw"
    unfolding DataParams_init_def
    by (subst assms(1)) (simp add: params_loop_append assms(2))
  have partner: "dict_get kw (Some k) = dict_get kwargs (Some k)" if "k \<noteq> ''event''" for k
    using params_loop_preserves [OF assms(2) that] by (simp add: dict_get_def)
  have unsupported: \<open>key \<notin> set SUPPORTED_PARAMS \<longrightarrow>
      DataParams_init kwargs = Inl (NotImplementedError (unsupported_message key))\<close>
    unfolding run by simp
  have limit: \<open>key = ''limit'' \<longrightarrow>
      DataParams_init kwargs =
        (if is_int v then params_loop rest kw
         else Inl (ValueError ''limit param should be integer''))\<close>
    unfolding run by (simp add: supported_cases checks_limit)
  have event: \<open>key = ''event'' \<longrightarrow>
      DataParams_init kwargs =
        (if is_list v
         then params_loop rest (AList.update ''event'' (JStr (json_dumps v)) kw)
         else Inl (ValueError ''event param should be list''))\<close>
    unfolding run by (simp add: supported_cases checks_event)
  have where_ok: \<open>key = ''where'' \<longrightarrow> DataParams_init kwargs = params_loop rest kw\<close>
    unfolding run by (simp add: supported_cases checks_where)
  have from_date: \<open>key = ''from_date'' \<longrightarrow>
      DataParams_init kwargs =
        (case v of
           JStr d \<Rightarrow>
             if \<not> DATE_REGEX_search d
             then Inl (ValueError (''from_date param should be in the following pattern: YYYY-MM-DD | You provided '' @ d))
             else if truthy (dict_get kwargs (Some ''to_date''))
             then params_loop rest kw
             else Inl (ValueError ''from_date param have to be with to_date param'')
         | _ \<Rightarrow> Inl TypeError)\<close>
    unfolding run by (cases v) (simp_all add: supported_cases checks_from_date partner)
  have to_date: \<open>key = ''to_date'' \<longrightarrow>
      DataParams_init kwargs =
        (case v of
           JStr d \<Rightarrow>
             if \<not> DATE_REGEX_search d
             then Inl (ValueError (''to_date param should be in the following pattern: YYYY-MM-DD | You provided '' @ d))
             else if truthy (dict_get kwargs (Some ''from_date''))
             then params_loop rest kw
             else Inl (ValueError ''to_date param have to be with from_date param'')
         | _ \<Rightarrow> Inl TypeError)\<close>
    unfolding run by (cases v) (simp_all add: supported_cases checks_to_date partner)
  have alone: \<open>key = ''from_date'' \<and> map_of kwargs ''to_date'' = None \<longrightarrow>
      DataParams_init kwargs =
        Inl (case v of
               JStr d \<Rightarrow>
                 ValueError
                   (if DATE_REGEX_search d
                    then ''from_date param have to be with to_date param''
                    else ''from_date param should be in the following pattern: YYYY-MM-DD | You provided '' @ d)
             | _ \<Rightarrow> TypeError)\<close>
  proof
    assume a: "key = ''from_date'' \<and> map_of kwargs ''to_date'' = None"
    then have "dict_get kwargs (Some ''to_date'') = JNull" by (simp add: dict_get_def)
    with a show "DataParams_init kwargs =
      Inl (case v of
             JStr d \<Rightarrow>
               ValueError
                 (if DATE_REGEX_search d
                  then ''from_date param have to be with to_date param''
                  else ''from_date param should be in the following pattern: YYYY-MM-DD | You provided '' @ d)
           | _ \<Rightarrow> TypeError)"
      unfolding run by (cases v) (simp_all add: supported_cases checks_from_date partner)
  qed
  have last: \<open>key = ''event'' \<and> is_list v \<and> rest = [] \<longrightarrow>
      DataParams_init kwargs =
        Inr (AList.update ''event'' (JStr (json_dumps v)) kw)\<close>
    unfolding run by (simp add: supported_cases checks_event)
  have never: \<open>map_of kwargs ''from_date'' \<noteq> None \<and> map_of kwargs ''to_date'' = None \<longrightarrow>
      (\<exists>e. DataParams_init kwargs = Inl e)\<close>
    using from_date_without_to_date [of kwargs] by auto
  have dumps: \<open>json_dumps (JList [JStr ''A'', JStr ''B'']) = ''["A", "B"]''\<close>
    by (simp add: quoted_def escape_char_def)
  show ?thesis
    by (intro conjI unsupported limit event where_ok from_date to_date alone last never dumps)
qed

theorem DataParams_first_failure_witness:
  \<open>DataParams_init [(''where'', JStr ''x''), (''limit'', JStr ''5'')] =
     Inl (ValueError ''limit param should be integer'') \<and>
   DataParams_init [(''from_date'', JStr ''2023-09-21'')] =
     Inl (ValueError ''from_date param have to be with to_date param'') \<and>
   DataParams_init [(''from_date'', JStr ''21.09.2023'')] =
     Inl (ValueError ''from_date param should be in the following pattern: YYYY-MM-DD | You provided 21.09.2023'') \<and>
   DataParams_init [(''to_date'', JStr ''21.09.2023'')] =
     Inl (ValueError ''to_date param should be in the following pattern: YYYY-MM-DD | You provided 21.09.2023'') \<and>
   DataParams_init [(''to_date'', JStr ''2023-09-21'')] =
     Inl (ValueError ''to_date param have to be with from_date param'') \<and>
   DataParams_init [(''event'', JStr ''A'')] =
     Inl (ValueError ''event param should be list'') \<and>
   DataParams_init [(''event'', JList [JStr ''A'', JStr ''B''])] =
     Inr [(''event'', JStr ''["A", "B"]'')] \<and>
   DataParams_init [(''limit'', JInt 5), (''offset'', JInt 1)] =
     Inl (NotImplementedError (unsupported_message ''offset''))\<close>
proof -
  have l: "params_loop [(''where'', JStr ''x'')] [(''where'', JStr ''x''), (''limit'', JStr ''5'')] =
      Inr [(''where'', JStr ''x''), (''limit'', JStr ''5'')]"
    by (simp add: supported_cases checks_where)
  have o: "params_loop [(''limit'', JInt 5)] [(''limit'', JInt 5), (''offset'', JInt 1)] =
      Inr [(''limit'', JInt 5), (''offset'', JInt 1)]"
    by (simp add: supported_cases checks_limit is_int_def)
  have e: "params_loop [] kw = Inr kw" for kw by simp
  have d1: "DATE_REGEX_search ''2023-09-21''"
    by (simp add: DATE_REGEX_search_def date_pattern_def digit_def)
  have d2: "\<not> DATE_REGEX_search ''21.09.2023''"
    by (simp add: DATE_REGEX_search_def date_pattern_def digit_def)
  have c1: \<open>DataParams_init [(''where'', JStr ''x''), (''limit'', JStr ''5'')] =
     Inl (ValueError ''limit param should be integer'')\<close>
    using DataParams_first_failure
         [where before = "[(''where'', JStr ''x'')]" and key = "''limit''" and v = "JStr ''5''"
            and rest = "[]", OF _ l, THEN conjunct2, THEN conjunct1]
    by (simp add: is_int_def)
  have c2: \<open>DataParams_init [(''from_date'', JStr ''2023-09-21'')] =
     Inl (ValueError ''from_date param have to be with to_date param'')\<close>
    using DataParams_first_failure
         [where before = "[]" and key = "''from_date''" and v = "JStr ''2023-09-21''"
            and rest = "[]", OF _ e, THEN conjunct2, THEN conjunct2, THEN conjunct2,
            THEN conjunct2, THEN conjunct1]
    by (simp add: d1 dict_get_def)
  have c3: \<open>DataParams_init [(''from_date'', JStr ''21.09.2023'')] =
     Inl (ValueError ''from_date param should be in the following pattern: YYYY-MM-DD | You provided 21.09.2023'')\<close>
    using DataParams_first_failure
         [where before = "[]" and key = "''from_date''" and v = "JStr ''21.09.2023''"
            and rest = "[]", OF _ e, THEN conjunct2, THEN conjunct2, THEN conjunct2,
            THEN conjunct2, THEN conjunct1]
    by (simp add: d2)
  have c4: \<open>DataParams_init [(''to_date'', JStr ''21.09.2023'')] =
     Inl (ValueError ''to_date param should be in the following pattern: YYYY-MM-DD | You provided 21.09.2023'')\<close>
    using DataParams_first_failure
         [where before = "[]" and key = "''to_date''" and v = "JStr ''21.09.2023''"
            and rest = "[]", OF _ e, THEN conjunct2, THEN conjunct2, THEN conjunct2,
            THEN conjunct2, THEN conjunct2, THEN conjunct1]
    by (simp add: d2)
  have c5: \<open>DataParams_init [(''to_date'', JStr ''2023-09-21'')] =
     Inl (ValueError ''to_date param have to be with from_date param'')\<close>
    using DataParams_first_failure
         [where before = "[]" and key = "''to_date''" and v = "JStr ''2023-09-21''"
            and rest = "[]", OF _ e, THEN conjunct2, THEN conjunct2, THEN conjunct2,
            THEN conjunct2, THEN conjunct2, THEN conjunct1]
    by (simp add: d1 dict_get_def)
  have c6: \<open>DataParams_init [(''event'', JStr ''A'')] =
     Inl (ValueError ''event param should be list'')\<close>
    using DataParams_first_failure
         [where before = "[]" and key = "''event''" and v = "JStr ''A''"
            and rest = "[]", OF _ e, THEN conjunct2, THEN conjunct2, THEN conjunct1]
    by (simp add: is_list_def)
  have c7: \<open>DataParams_init [(''event'', JList [JStr ''A'', JStr ''B''])] =
     Inr [(''event'', JStr ''["A", "B"]'')]\<close>
    using DataParams_first_failure
         [where before = "[]" and key = "''event''" and v = "JList [JStr ''A'', JStr ''B'']"
            and rest = "[]", OF _ e]
    by (simp add: is_list_def)
  have c8: \<open>DataParams_init [(''limit'', JInt 5), (''offset'', JInt 1)] =
     Inl (NotImplementedError (unsupported_message ''offset''))\<close>
    using DataParams_first_failure
         [where before = "[(''limit'', JInt 5)]" and key = "''offset''" and v = "JInt 1"
            and rest = "[]", OF _ o, THEN conjunct1]
    by (simp add: supported_cases)
  from c1 c2 c3 c4 c5 c6 c7 c8 show ?thesis
    by (simp only: simp_thms)
qed

text \<open>
  C8 as stated fails on the messages: the message for \<^verbatim>\<open>limit="5"\<close> is a fixed text, and
  the offending value 5 is not in it.
\<close>

theorem limit_message_without_value:
  "DataParams_init [(''limit'', JStr ''5'')] = Inl (ValueError ''limit param should be integer'') \<and>
   CHR ''5'' \<notin> set ''limit param should be integer''"
  by (simp add: DataParams_init_def supported_cases checks_limit is_int_def)

text \<open>
  Two more runs that the first failure decides: an unsupported name after a failing
  argument is never reached, and a \<^verbatim>\<open>from_date\<close> that is no string fails in \<^verbatim>\<open>re.search\<close>.
\<close>

lemma earlier_failure_wins:
  "DataParams_init [(''limit'', JStr ''5''), (''offset'', JInt 1)] =
     Inl (ValueError ''limit param should be integer'')"
  by (simp add: DataParams_init_def supported_cases checks_limit is_int_def)

lemma from_date_not_a_string:
  "DataParams_init [(''from_date'', JInt 20230921)] = Inl TypeError"
  by (simp add: DataParams_init_def supported_cases checks_from_date)

end
